(* ===== verification/Prelude.thy ===== *)
theory Prelude
  imports Main "HOL-Library.Sublist"
begin

text \<open>
  What every component of the library shares.

  \<^item> Go byte strings are \<open>string\<close> (a \<open>char\<close> is a byte), Go \<open>error\<close> returns are the left
    summand of a sum, and SQL columns that may be \<open>NULL\<close> are \<open>option\<close> values.
  \<^item> \<open>nullableString\<close>, \<open>coalesce\<close>, \<open>sql_eq\<close>, \<open>sql_lt\<close> and \<open>col_agrees\<close> are the fragments of SQL
    the statements of \<^verbatim>\<open>internal/idempotency/sqlite.go\<close> use; a comparison with
    \<open>NULL\<close> is never true.
  \<^item> \<open>update_where\<close> and \<open>rows_affected\<close> are SQL's \<open>UPDATE ... WHERE\<close> on a table that is a list
    of rows.
  \<^item> \<open>wrap64\<close> and \<open>trunc_div\<close> are Go's 64-bit signed arithmetic.
\<close>

type_synonym bytes = string

named_theorems sql_simps \<open>unfolding of the SQL fragments used in WHERE clauses\<close>
named_theorems tx_defs \<open>definitions of the transactions of the durable store\<close>

section \<open>SQL values\<close>

definition nullableString :: "string \<Rightarrow> string option" where
  "nullableString s = (if s = '''' then None else Some s)"

definition nullableBytes :: "bytes \<Rightarrow> bytes option" where
  "nullableBytes b = (if length b = 0 then None else Some b)"

fun coalesce :: "'a option \<Rightarrow> 'a option \<Rightarrow> 'a option" where
  "coalesce (Some x) y = Some x"
| "coalesce None y = y"

definition coalesce_to :: "'a \<Rightarrow> 'a option \<Rightarrow> 'a" where
  "coalesce_to d c = (case c of None \<Rightarrow> d | Some x \<Rightarrow> x)"

definition nullif :: "'a \<Rightarrow> 'a \<Rightarrow> 'a option" where
  "nullif x d = (if x = d then None else Some x)"

text \<open>\<open>column = parameter\<close>, false when the column is \<open>NULL\<close>.\<close>

definition sql_eq :: "'a option \<Rightarrow> 'a \<Rightarrow> bool" where
  "sql_eq c x \<longleftrightarrow> c = Some x"

definition sql_lt :: "int option \<Rightarrow> int \<Rightarrow> bool" where
  "sql_lt c t \<longleftrightarrow> (case c of None \<Rightarrow> False | Some x \<Rightarrow> x < t)"

definition sql_le :: "int option \<Rightarrow> int \<Rightarrow> bool" where
  "sql_le c t \<longleftrightarrow> (case c of None \<Rightarrow> False | Some x \<Rightarrow> x \<le> t)"

definition sql_gt :: "int option \<Rightarrow> int \<Rightarrow> bool" where
  "sql_gt c t \<longleftrightarrow> (case c of None \<Rightarrow> False | Some x \<Rightarrow> t < x)"

text \<open>\<open>(column IS NULL OR ?p IS NULL OR column = ?p)\<close>, the monotonicity guard of provider columns.\<close>

definition col_agrees :: "'a option \<Rightarrow> 'a option \<Rightarrow> bool" where
  "col_agrees c p \<longleftrightarrow> c = None \<or> p = None \<or> c = p"

section \<open>Tables\<close>

definition update_where :: "('r \<Rightarrow> bool) \<Rightarrow> ('r \<Rightarrow> 'r) \<Rightarrow> 'r list \<Rightarrow> 'r list" where
  "update_where p f = map (\<lambda>r. if p r then f r else r)"

definition rows_affected :: "('r \<Rightarrow> bool) \<Rightarrow> 'r list \<Rightarrow> nat" where
  "rows_affected p rs = length (filter p rs)"

section \<open>Go integers\<close>

definition wrap64 :: "int \<Rightarrow> int" where
  "wrap64 x = (x + 2 ^ 63) mod 2 ^ 64 - 2 ^ 63"

definition trunc_div :: "int \<Rightarrow> int \<Rightarrow> int" where
  "trunc_div a b = sgn a * sgn b * (\<bar>a\<bar> div \<bar>b\<bar>)"

section \<open>Lemmas\<close>

lemma nullableString_empty [simp]: "nullableString [] = None"
  by (simp add: nullableString_def)

lemma nullableString_eq_None [simp]: "nullableString s = None \<longleftrightarrow> s = []"
  by (simp add: nullableString_def)

lemma nullableString_eq_Some [simp]: "nullableString s = Some t \<longleftrightarrow> s = t \<and> s \<noteq> []"
  by (auto simp: nullableString_def)

lemma coalesce_None_right [simp]: "coalesce c None = c"
  by (cases c) simp_all

lemma coalesce_eq_None [simp]: "coalesce a b = None \<longleftrightarrow> a = None \<and> b = None"
  by (cases a) simp_all

lemma sql_eq_Some [sql_simps]: "sql_eq c x \<longleftrightarrow> c = Some x"
  by (simp add: sql_eq_def)

lemma sql_lt_iff [sql_simps]: "sql_lt c t \<longleftrightarrow> (\<exists>x. c = Some x \<and> x < t)"
  by (cases c) (simp_all add: sql_lt_def)

lemma sql_le_iff [sql_simps]: "sql_le c t \<longleftrightarrow> (\<exists>x. c = Some x \<and> x \<le> t)"
  by (cases c) (simp_all add: sql_le_def)

lemma sql_gt_iff [sql_simps]: "sql_gt c t \<longleftrightarrow> (\<exists>x. c = Some x \<and> t < x)"
  by (cases c) (simp_all add: sql_gt_def)

text \<open>A guarded \<open>COALESCE(?p, column)\<close> never changes a column that already holds a value.\<close>

lemma coalesce_agrees: "col_agrees c p \<Longrightarrow> c = Some x \<Longrightarrow> coalesce p c = Some x"
  by (cases p) (auto simp: col_agrees_def)

lemma coalesce_agrees_write_once:
  "col_agrees c p \<Longrightarrow> c \<noteq> None \<Longrightarrow> coalesce p c = c"
  by (cases p) (auto simp: col_agrees_def)

lemma length_update_where [simp]: "length (update_where p f rs) = length rs"
  by (simp add: update_where_def)

lemma set_update_where: "set (update_where p f rs) = (\<lambda>r. if p r then f r else r) ` set rs"
  by (simp add: update_where_def)

lemma update_where_Nil [simp]: "update_where p f [] = []"
  by (simp add: update_where_def)

lemma update_where_Cons [simp]:
  "update_where p f (r # rs) = (if p r then f r else r) # update_where p f rs"
  by (simp add: update_where_def)

lemma rows_affected_0: "rows_affected p rs = 0 \<longleftrightarrow> (\<forall>r\<in>set rs. \<not> p r)"
  by (simp add: rows_affected_def filter_empty_conv)

lemma rows_affected_pos: "0 < rows_affected p rs \<longleftrightarrow> (\<exists>r\<in>set rs. p r)"
  by (simp add: rows_affected_def filter_empty_conv)

lemma update_where_unaffected: "rows_affected p rs = 0 \<Longrightarrow> update_where p f rs = rs"
  by (induction rs) (auto simp: rows_affected_def split: if_splits)

text \<open>An \<open>UPDATE\<close> that leaves the key column alone keeps the keys of the table in order.\<close>

lemma map_key_update_where:
  "(\<And>r. k (f r) = k r) \<Longrightarrow> map k (update_where p f rs) = map k rs"
  by (simp add: update_where_def)

lemma wrap64_id: "- (2 ^ 63) \<le> x \<Longrightarrow> x < 2 ^ 63 \<Longrightarrow> wrap64 x = x"
  by (simp add: wrap64_def)

lemma trunc_div_nonneg: "0 \<le> a \<Longrightarrow> 0 < b \<Longrightarrow> trunc_div a b = a div b"
  by (cases "a = 0") (simp_all add: trunc_div_def)

end
