(* ===== verification/GoJson.thy ===== *)
theory GoJson
  imports Prelude "HOL-Library.Char_ord" "HOL-Library.List_Lexorder"
begin

text \<open>
  The part of Go's standard library the repository's digests, locators and receipts rest on:
  UTF-8, decimal printing, hexadecimal printing and \<^verbatim>\<open>encoding/json\<close> (decoder with
  \<open>UseNumber\<close>, decoder to \<open>float64\<close> as far as its range errors go, and \<open>Marshal\<close> with its default
  HTML escaping and sorted map keys).

  A JSON document is first read to a tree that keeps the members of an object in document order,
  duplicates included (\<open>parseJSON\<close>); \<open>go_any\<close> then builds what Go's decoder builds for an \<open>any\<close>:
  a map, in which a later duplicate replaces an earlier one.  A Go map has no order, so it is
  represented by its association list sorted by key.
\<close>

section \<open>Bytes, runes and UTF-8\<close>

definition b2n :: "char \<Rightarrow> int" where
  "b2n c = of_char c"

definition n2b :: "int \<Rightarrow> char" where
  "n2b n = char_of n"

definition in_range :: "int \<Rightarrow> int \<Rightarrow> char \<Rightarrow> bool" where
  "in_range lo hi c \<longleftrightarrow> lo \<le> b2n c \<and> b2n c \<le> hi"

text \<open>Size of the well-formed UTF-8 sequence at the head, \<open>0\<close> when there is none.\<close>

fun utf8_size :: "string \<Rightarrow> nat" where
  "utf8_size [] = 0"
| "utf8_size (c # cs) =
    (let x = b2n c in
     if x < 0x80 then 1
     else if 0xC2 \<le> x \<and> x \<le> 0xDF then
       (case cs of c1 # _ \<Rightarrow> if in_range 0x80 0xBF c1 then 2 else 0 | _ \<Rightarrow> 0)
     else if 0xE0 \<le> x \<and> x \<le> 0xEF then
       (case cs of c1 # c2 # _ \<Rightarrow>
          if in_range (if x = 0xE0 then 0xA0 else 0x80) (if x = 0xED then 0x9F else 0xBF) c1
             \<and> in_range 0x80 0xBF c2 then 3 else 0
        | _ \<Rightarrow> 0)
     else if 0xF0 \<le> x \<and> x \<le> 0xF4 then
       (case cs of c1 # c2 # c3 # _ \<Rightarrow>
          if in_range (if x = 0xF0 then 0x90 else 0x80) (if x = 0xF4 then 0x8F else 0xBF) c1
             \<and> in_range 0x80 0xBF c2 \<and> in_range 0x80 0xBF c3 then 4 else 0
        | _ \<Rightarrow> 0)
     else 0)"

declare utf8_size.simps(2) [simp del]

definition utf8_encode :: "int \<Rightarrow> string" where
  "utf8_encode r =
    (if r < 0x80 then [n2b r]
     else if r < 0x800 then [n2b (0xC0 + r div 0x40), n2b (0x80 + r mod 0x40)]
     else if r < 0x10000 then
       [n2b (0xE0 + r div 0x1000), n2b (0x80 + r div 0x40 mod 0x40), n2b (0x80 + r mod 0x40)]
     else [n2b (0xF0 + r div 0x40000), n2b (0x80 + r div 0x1000 mod 0x40),
           n2b (0x80 + r div 0x40 mod 0x40), n2b (0x80 + r mod 0x40)])"

definition rune_error :: int where
  "rune_error = 0xFFFD"

text \<open>The rune a well-formed sequence of the given size at the head stands for.\<close>

definition rune_value :: "nat \<Rightarrow> string \<Rightarrow> int" where
  "rune_value n s =
    (let b = (\<lambda>i. b2n (s ! i)) in
     if n = 1 then b 0
     else if n = 2 then b 0 mod 0x20 * 0x40 + b 1 mod 0x40
     else if n = 3 then b 0 mod 0x10 * 0x1000 + b 1 mod 0x40 * 0x40 + b 2 mod 0x40
     else b 0 mod 0x8 * 0x40000 + b 1 mod 0x40 * 0x1000 + b 2 mod 0x40 * 0x40 + b 3 mod 0x40)"

text \<open>\<open>for _, r := range s\<close>: an ill-formed byte yields \<open>RuneError\<close> and advances by one.\<close>

fun runes :: "string \<Rightarrow> int list" where
  "runes [] = []"
| "runes (c # cs) =
    (let n = utf8_size (c # cs) in
     if n = 0 then rune_error # runes cs
     else rune_value n (c # cs) # runes (drop (n - 1) cs))"

section \<open>Decimal and hexadecimal printing\<close>

definition digit_char :: "int \<Rightarrow> char" where
  "digit_char n = n2b (48 + n)"

function show_nat :: "int \<Rightarrow> string" where
  "show_nat n = (if n < 10 then [digit_char n] else show_nat (n div 10) @ [digit_char (n mod 10)])"
  by auto

termination show_nat
  by (relation "measure nat") auto

declare show_nat.simps [simp del]

definition show_int :: "int \<Rightarrow> string" where
  "show_int i = (if i < 0 then CHR ''-'' # show_nat (- i) else show_nat i)"

definition is_digit :: "char \<Rightarrow> bool" where
  "is_digit c \<longleftrightarrow> in_range 48 57 c"

definition hex_digit :: "int \<Rightarrow> char" where
  "hex_digit n = (if n < 10 then n2b (48 + n) else n2b (87 + n))"

text \<open>\<^verbatim>\<open>hex.EncodeToString\<close>.\<close>

definition hexEncode :: "bytes \<Rightarrow> string" where
  "hexEncode bs = concat (map (\<lambda>b. [hex_digit (b2n b div 16), hex_digit (b2n b mod 16)]) bs)"

definition hex_value :: "char \<Rightarrow> int option" where
  "hex_value c =
    (if in_range 48 57 c then Some (b2n c - 48)
     else if in_range 97 102 c then Some (b2n c - 87)
     else if in_range 65 70 c then Some (b2n c - 55)
     else None)"

section \<open>Decoding\<close>

datatype json =
    JNull
  | JBool bool
  | JNumber string
  | JString string
  | JArray "json list"
  | JObject "(string \<times> json) list"

datatype json_error =
    JsonSyntax
  | JsonTrailing
  | JsonNumberRange
  | JsonType
  | JsonNumberLiteral

definition is_space :: "char \<Rightarrow> bool" where
  "is_space c \<longleftrightarrow> b2n c \<in> {0x20, 0x09, 0x0A, 0x0D}"

definition skip_ws :: "string \<Rightarrow> string" where
  "skip_ws = dropWhile is_space"

text \<open>\<^verbatim>\<open>getu4\<close> of the decoder, past the backslash and the \<open>u\<close>.\<close>

definition hex4 :: "string \<Rightarrow> int option" where
  "hex4 s =
    (case s of a # b # c # d # _ \<Rightarrow>
       (case (hex_value a, hex_value b, hex_value c, hex_value d) of
          (Some x, Some y, Some z, Some w) \<Rightarrow> Some (((x * 16 + y) * 16 + z) * 16 + w)
        | _ \<Rightarrow> None)
     | _ \<Rightarrow> None)"

definition low_surrogate_follows :: "string \<Rightarrow> int option" where
  "low_surrogate_follows s =
    (case s of a # b # s' \<Rightarrow>
       if a = CHR 0x5C \<and> b = CHR ''u'' then
         (case hex4 s' of
            Some r \<Rightarrow> if 0xDC00 \<le> r \<and> r \<le> 0xDFFF then Some r else None
          | None \<Rightarrow> None)
       else None
     | _ \<Rightarrow> None)"

definition simple_escape :: "char \<Rightarrow> char option" where
  "simple_escape e =
    (if e = CHR 0x22 \<or> e = CHR 0x5C \<or> e = CHR 0x2F then Some e
     else if e = CHR ''b'' then Some (CHR 0x08)
     else if e = CHR ''f'' then Some (CHR 0x0C)
     else if e = CHR ''n'' then Some (CHR 0x0A)
     else if e = CHR ''r'' then Some (CHR 0x0D)
     else if e = CHR ''t'' then Some (CHR 0x09)
     else None)"

abbreviation prepend :: "'a list \<Rightarrow> ('a list \<times> 'b) option \<Rightarrow> ('a list \<times> 'b) option" where
  "prepend xs \<equiv> map_option (map_prod (append xs) (\<lambda>r. r))"

text \<open>A string literal past its opening quote: the decoded bytes and what follows the closing quote.\<close>

fun unquote :: "string \<Rightarrow> (string \<times> string) option" where
  "unquote [] = None"
| "unquote (c # cs) =
    (if c = CHR 0x22 then Some ([], cs)
     else if c = CHR 0x5C then
       (case cs of
          [] \<Rightarrow> None
        | e # es \<Rightarrow>
            (case simple_escape e of
               Some b \<Rightarrow> prepend [b] (unquote es)
             | None \<Rightarrow>
                 if e = CHR ''u'' then
                   (case hex4 es of
                      None \<Rightarrow> None
                    | Some r \<Rightarrow>
                        if 0xD800 \<le> r \<and> r \<le> 0xDFFF then
                          (case (if r \<le> 0xDBFF then low_surrogate_follows (drop 4 es) else None) of
                             Some r2 \<Rightarrow>
                               prepend (utf8_encode ((r - 0xD800) * 0x400 + (r2 - 0xDC00) + 0x10000))
                                 (unquote (drop 10 es))
                           | None \<Rightarrow> prepend (utf8_encode rune_error) (unquote (drop 4 es)))
                        else prepend (utf8_encode r) (unquote (drop 4 es)))
                 else None))
     else if b2n c < 0x20 then None
     else
       (let n = utf8_size (c # cs) in
        if n = 0 then prepend (utf8_encode rune_error) (unquote cs)
        else prepend (take n (c # cs)) (unquote (drop (n - 1) cs))))"

declare unquote.simps [simp del]

text \<open>The number grammar: the literal and what follows it.\<close>

definition scan_int :: "string \<Rightarrow> (string \<times> string) option" where
  "scan_int s =
    (let ds = takeWhile is_digit s; r = dropWhile is_digit s in
     if ds = [] then None
     else if hd ds = CHR ''0'' then Some ([hd ds], tl s)
     else Some (ds, r))"

definition scan_frac :: "string \<Rightarrow> (string \<times> string) option" where
  "scan_frac s =
    (case s of
       c # cs \<Rightarrow>
         if c = CHR ''.'' then
           (let ds = takeWhile is_digit cs in
            if ds = [] then None else Some (c # ds, dropWhile is_digit cs))
         else Some ([], s)
     | [] \<Rightarrow> Some ([], []))"

definition scan_exp :: "string \<Rightarrow> (string \<times> string) option" where
  "scan_exp s =
    (case s of
       c # cs \<Rightarrow>
         if c = CHR ''e'' \<or> c = CHR ''E'' then
           (let sg = (case cs of d # _ \<Rightarrow> if d = CHR ''+'' \<or> d = CHR ''-'' then [d] else [] | [] \<Rightarrow> []);
                body = drop (length sg) cs;
                ds = takeWhile is_digit body in
            if ds = [] then None else Some (c # sg @ ds, dropWhile is_digit body))
         else Some ([], s)
     | [] \<Rightarrow> Some ([], []))"

definition scan_number :: "string \<Rightarrow> (string \<times> string) option" where
  "scan_number s =
    (let sg = (case s of c # _ \<Rightarrow> if c = CHR ''-'' then [c] else [] | [] \<Rightarrow> []) in
     case scan_int (drop (length sg) s) of
       None \<Rightarrow> None
     | Some (i, r1) \<Rightarrow>
         (case scan_frac r1 of
            None \<Rightarrow> None
          | Some (f, r2) \<Rightarrow>
              (case scan_exp r2 of
                 None \<Rightarrow> None
               | Some (e, r3) \<Rightarrow> Some (sg @ i @ f @ e, r3))))"

definition scan_literal :: "string \<Rightarrow> json \<Rightarrow> string \<Rightarrow> (json \<times> string) option" where
  "scan_literal w v s = (if take (length w) s = w then Some (v, drop (length w) s) else None)"

definition maxNestingDepth :: int where
  "maxNestingDepth = 10000"

text \<open>
  The recursive descent.  The first argument bounds the number of nested calls and the second is
  the nesting depth, which Go's scanner limits.
\<close>

fun jvalue :: "nat \<Rightarrow> int \<Rightarrow> string \<Rightarrow> (json \<times> string) option"
and jelems :: "nat \<Rightarrow> int \<Rightarrow> string \<Rightarrow> (json list \<times> string) option"
and jmembers :: "nat \<Rightarrow> int \<Rightarrow> string \<Rightarrow> ((string \<times> json) list \<times> string) option" where
  "jvalue 0 d s = None"
| "jvalue (Suc n) d s =
    (case skip_ws s of
       [] \<Rightarrow> None
     | c # cs \<Rightarrow>
         if c = CHR 0x22 then map_option (map_prod JString (\<lambda>r. r)) (unquote cs)
         else if c = CHR ''['' then
           (if maxNestingDepth \<le> d then None
            else if take 1 (skip_ws cs) = '']'' then Some (JArray [], drop 1 (skip_ws cs))
            else map_option (map_prod JArray (\<lambda>r. r)) (jelems n (d + 1) cs))
         else if c = CHR 0x7B then
           (if maxNestingDepth \<le> d then None
            else if take 1 (skip_ws cs) = [CHR 0x7D] then Some (JObject [], drop 1 (skip_ws cs))
            else map_option (map_prod JObject (\<lambda>r. r)) (jmembers n (d + 1) cs))
         else if c = CHR ''t'' then scan_literal ''true'' (JBool True) (c # cs)
         else if c = CHR ''f'' then scan_literal ''false'' (JBool False) (c # cs)
         else if c = CHR ''n'' then scan_literal ''null'' JNull (c # cs)
         else map_option (map_prod JNumber (\<lambda>r. r)) (scan_number (c # cs)))"
| "jelems 0 d s = None"
| "jelems (Suc n) d s =
    (case jvalue n d s of
       None \<Rightarrow> None
     | Some (v, r) \<Rightarrow>
         (case skip_ws r of
            [] \<Rightarrow> None
          | c # cs \<Rightarrow>
              if c = CHR '','' then prepend [v] (jelems n d cs)
              else if c = CHR '']'' then Some ([v], cs)
              else None))"
| "jmembers 0 d s = None"
| "jmembers (Suc n) d s =
    (case skip_ws s of
       [] \<Rightarrow> None
     | q # qs \<Rightarrow>
         if q \<noteq> CHR 0x22 then None
         else (case unquote qs of
            None \<Rightarrow> None
          | Some (k, r) \<Rightarrow>
              if take 1 (skip_ws r) \<noteq> '':'' then None
              else (case jvalue n d (drop 1 (skip_ws r)) of
                 None \<Rightarrow> None
               | Some (v, r2) \<Rightarrow>
                   (case skip_ws r2 of
                      [] \<Rightarrow> None
                    | c # cs \<Rightarrow>
                        if c = CHR '','' then prepend [(k, v)] (jmembers n d cs)
                        else if c = CHR 0x7D then Some ([(k, v)], cs)
                        else None))))"

declare jvalue.simps [simp del] jelems.simps [simp del] jmembers.simps [simp del]

definition parse_fuel :: "string \<Rightarrow> nat" where
  "parse_fuel s = 2 * length s + 2"

definition parse_prefix :: "string \<Rightarrow> (json \<times> string) option" where
  "parse_prefix s = jvalue (parse_fuel s) 0 s"

text \<open>Exactly one value: \<open>Decode\<close> followed by a second \<open>Decode\<close> that must report the end of input.\<close>

definition parseJSON :: "string \<Rightarrow> json_error + json" where
  "parseJSON s =
    (case parse_prefix s of
       None \<Rightarrow> Inl JsonSyntax
     | Some (v, r) \<Rightarrow>
         if skip_ws r = [] then Inr v
         else if parse_prefix r = None then Inl JsonSyntax
         else Inl JsonTrailing)"

section \<open>Go maps\<close>

text \<open>\<open>m[k] = v\<close> on a map represented by its association list sorted by key.\<close>

fun obj_put :: "string \<Rightarrow> 'v \<Rightarrow> (string \<times> 'v) list \<Rightarrow> (string \<times> 'v) list" where
  "obj_put k v [] = [(k, v)]"
| "obj_put k v ((k', v') # m) =
    (if k = k' then (k, v) # m
     else if k < k' then (k, v) # (k', v') # m
     else (k', v') # obj_put k v m)"

definition obj_of :: "(string \<times> 'v) list \<Rightarrow> (string \<times> 'v) list" where
  "obj_of kvs = fold (\<lambda>(k, v) m. obj_put k v m) kvs []"

primrec go_any :: "json \<Rightarrow> json" where
  "go_any JNull = JNull"
| "go_any (JBool b) = JBool b"
| "go_any (JNumber n) = JNumber n"
| "go_any (JString s) = JString s"
| "go_any (JArray xs) = JArray (map go_any xs)"
| "go_any (JObject kvs) = JObject (obj_of (map (map_prod (\<lambda>k. k) go_any) kvs))"

text \<open>Decoding with \<open>UseNumber\<close> into an \<open>any\<close>, and into a \<open>map[string]any\<close> (where \<open>null\<close> is the nil map).\<close>

definition decodeAny :: "string \<Rightarrow> json_error + json" where
  "decodeAny s = (case parseJSON s of Inl e \<Rightarrow> Inl e | Inr v \<Rightarrow> Inr (go_any v))"

definition decodeMap :: "string \<Rightarrow> json_error + json" where
  "decodeMap s =
    (case decodeAny s of
       Inl e \<Rightarrow> Inl e
     | Inr (JObject m) \<Rightarrow> Inr (JObject m)
     | Inr JNull \<Rightarrow> Inr JNull
     | Inr _ \<Rightarrow> Inl JsonType)"

section \<open>Encoding\<close>

definition u_escape :: "int \<Rightarrow> string" where
  "u_escape b = [CHR 0x5C, CHR ''u'', CHR ''0'', CHR ''0'', hex_digit (b div 16), hex_digit (b mod 16)]"

definition quote_ascii :: "char \<Rightarrow> string" where
  "quote_ascii c =
    (if c = CHR 0x22 \<or> c = CHR 0x5C then [CHR 0x5C, c]
     else if c = CHR 0x08 then [CHR 0x5C, CHR ''b'']
     else if c = CHR 0x0C then [CHR 0x5C, CHR ''f'']
     else if c = CHR 0x0A then [CHR 0x5C, CHR ''n'']
     else if c = CHR 0x0D then [CHR 0x5C, CHR ''r'']
     else if c = CHR 0x09 then [CHR 0x5C, CHR ''t'']
     else if b2n c < 0x20 \<or> c = CHR ''<'' \<or> c = CHR ''>'' \<or> c = CHR ''&'' then u_escape (b2n c)
     else [c])"

definition is_line_separator :: "string \<Rightarrow> bool" where
  "is_line_separator s \<longleftrightarrow> take 3 s = [CHR 0xE2, CHR 0x80, CHR 0xA8] \<or> take 3 s = [CHR 0xE2, CHR 0x80, CHR 0xA9]"

text \<open>\<^verbatim>\<open>appendString\<close> of the encoder, without the surrounding quotes.\<close>

fun quote_body :: "string \<Rightarrow> string" where
  "quote_body [] = []"
| "quote_body (c # cs) =
    (if b2n c < 0x80 then quote_ascii c @ quote_body cs
     else
       (let n = utf8_size (c # cs) in
        if n = 0 then [CHR 0x5C] @ ''ufffd'' @ quote_body cs
        else if is_line_separator (c # cs) then
          [CHR 0x5C] @ ''u202'' @ [hex_digit (b2n ((c # cs) ! 2) mod 16)] @ quote_body (drop 2 cs)
        else take n (c # cs) @ quote_body (drop (n - 1) cs)))"

declare quote_body.simps [simp del]

definition quote_string :: "string \<Rightarrow> string" where
  "quote_string s = [CHR 0x22] @ quote_body s @ [CHR 0x22]"

fun intersperse_concat :: "string \<Rightarrow> string list \<Rightarrow> string" where
  "intersperse_concat sep [] = []"
| "intersperse_concat sep [x] = x"
| "intersperse_concat sep (x # y # ys) = x @ sep @ intersperse_concat sep (y # ys)"

definition member_text :: "string \<times> string \<Rightarrow> string" where
  "member_text kv = quote_string (fst kv) @ '':'' @ snd kv"

text \<open>An object from the already encoded texts of its members, in the given order.\<close>

definition object_text :: "(string \<times> string) list \<Rightarrow> string" where
  "object_text ms = [CHR 0x7B] @ intersperse_concat '','' (map member_text ms) @ [CHR 0x7D]"

definition array_text :: "string list \<Rightarrow> string" where
  "array_text xs = ''['' @ intersperse_concat '','' xs @ '']''"

primrec marshal :: "json \<Rightarrow> string" where
  "marshal JNull = ''null''"
| "marshal (JBool b) = (if b then ''true'' else ''false'')"
| "marshal (JNumber n) = n"
| "marshal (JString s) = quote_string s"
| "marshal (JArray xs) = array_text (map marshal xs)"
| "marshal (JObject kvs) = object_text (map (map_prod (\<lambda>k. k) marshal) kvs)"

section \<open>Lemmas on maps\<close>

lemma map_of_obj_put [simp]: "map_of (obj_put k v m) = (map_of m)(k \<mapsto> v)"
  by (induction k v m rule: obj_put.induct) (auto simp: fun_upd_twist)

lemma set_keys_obj_put [simp]: "fst ` set (obj_put k v m) = insert k (fst ` set m)"
  by (induction k v m rule: obj_put.induct) auto

definition sorted_map :: "(string \<times> 'v) list \<Rightarrow> bool" where
  "sorted_map m \<longleftrightarrow> sorted_wrt (<) (map fst m)"

lemma sorted_map_Nil [simp]: "sorted_map []"
  by (simp add: sorted_map_def)

lemma sorted_map_obj_put [simp]: "sorted_map m \<Longrightarrow> sorted_map (obj_put k v m)"
proof (induction k v m rule: obj_put.induct)
  case (2 k v k' v' m)
  then show ?case
    using set_keys_obj_put [of k v m]
    by (auto simp: sorted_map_def simp del: set_keys_obj_put)
qed (simp add: sorted_map_def)

lemma sorted_map_distinct: "sorted_map m \<Longrightarrow> distinct (map fst m)"
  by (simp add: sorted_map_def strict_sorted_iff)

lemma sorted_map_obj_of [simp]: "sorted_map (obj_of kvs)"
proof -
  have "sorted_map m \<Longrightarrow> sorted_map (fold (\<lambda>(k, v) m. obj_put k v m) kvs m)" for m
    by (induction kvs arbitrary: m) auto
  then show ?thesis
    by (simp add: obj_of_def)
qed

text \<open>A map that is already sorted is its own normal form.\<close>

lemma obj_put_last: "\<forall>k'\<in>fst ` set m. k' < k \<Longrightarrow> obj_put k v m = m @ [(k, v)]"
  by (induction k v m rule: obj_put.induct) auto

lemma obj_of_sorted: "sorted_map m \<Longrightarrow> obj_of m = m"
proof -
  have "sorted_map (acc @ m) \<Longrightarrow> fold (\<lambda>(k, v) m. obj_put k v m) m acc = acc @ m" for acc
  proof (induction m arbitrary: acc)
    case (Cons kv m)
    then have "\<forall>k'\<in>fst ` set acc. k' < fst kv"
      by (auto simp: sorted_map_def sorted_wrt_append)
    then show ?case
      using Cons.IH [of "acc @ [kv]"] Cons.prems by (simp add: obj_put_last case_prod_unfold)
  qed simp
  then show "sorted_map m \<Longrightarrow> obj_of m = m"
    by (simp add: obj_of_def)
qed

end
