(* ===== verification/Contract.thy ===== *)
theory Contract
  imports GoJson
begin

text \<open>
  The vocabulary of the durable execution contract (\<^verbatim>\<open>internal/idempotency/contract.go\<close>):
  lifecycle states and their predicates, the lifecycle graph the store enforces, lease policy,
  typed lease errors, acquisition results, terminal receipts, recovery decisions, and the
  derivation of the provider idempotency token.

  Durations are integers counting nanoseconds, as \<^verbatim>\<open>time.Duration\<close> does.  The cryptographic
  primitives are the fields of \<open>crypto\<close>, a parameter of the definitions that call them, so
  that every theorem holds for every choice of them, SHA-256 and Ed25519 included.
\<close>

section \<open>Cryptographic primitives\<close>

record crypto =
  sha256 :: "bytes \<Rightarrow> bytes"
  ed25519_verify :: "bytes \<Rightarrow> bytes \<Rightarrow> bytes \<Rightarrow> bool"

definition sha256_hex :: "crypto \<Rightarrow> bytes \<Rightarrow> string" where
  "sha256_hex C b = hexEncode (sha256 C b)"

section \<open>States\<close>

datatype state =
    StatePrepared
  | StateExecuting
  | StateInFlight
  | StateUnknown
  | StateCommitted
  | StateFailed
  | StateDenied

fun state_string :: "state \<Rightarrow> string" where
  "state_string StatePrepared = ''PREPARED''"
| "state_string StateExecuting = ''EXECUTING''"
| "state_string StateInFlight = ''IN_FLIGHT''"
| "state_string StateUnknown = ''UNKNOWN''"
| "state_string StateCommitted = ''COMMITTED''"
| "state_string StateFailed = ''FAILED''"
| "state_string StateDenied = ''DENIED''"

fun IsCallerTerminal :: "state \<Rightarrow> bool" where
  "IsCallerTerminal s =
    (case s of
       StateCommitted \<Rightarrow> True | StateFailed \<Rightarrow> True | StateDenied \<Rightarrow> True | StateUnknown \<Rightarrow> True
     | _ \<Rightarrow> False)"

fun IsDurablyFinal :: "state \<Rightarrow> bool" where
  "IsDurablyFinal s =
    (case s of StateCommitted \<Rightarrow> True | StateFailed \<Rightarrow> True | StateDenied \<Rightarrow> True | _ \<Rightarrow> False)"

definition IsTerminal :: "state \<Rightarrow> bool" where
  "IsTerminal s = IsCallerTerminal s"

text \<open>The lifecycle graph; a key the map does not have is \<open>None\<close>.\<close>

fun legalTransitions :: "state \<Rightarrow> state list option" where
  "legalTransitions StatePrepared = Some [StateExecuting]"
| "legalTransitions StateExecuting = Some [StateInFlight, StatePrepared]"
| "legalTransitions StateInFlight = Some [StateCommitted, StateFailed, StateUnknown]"
| "legalTransitions StateUnknown = Some [StateCommitted, StateFailed]"
| "legalTransitions _ = None"

definition isLegalTransition :: "state \<Rightarrow> state \<Rightarrow> bool" where
  "isLegalTransition from to =
    (if IsDurablyFinal from then False
     else (case legalTransitions from of None \<Rightarrow> False | Some allowed \<Rightarrow> to \<in> set allowed))"

text \<open>Legacy state names of databases written before the current vocabulary.\<close>

definition migrateState :: "string \<Rightarrow> string" where
  "migrateState s =
    (if s = ''RESERVED'' then state_string StatePrepared
     else if s = ''DISPATCHING'' then state_string StateExecuting
     else if s = ''SUCCEEDED'' then state_string StateCommitted
     else if s = ''RECONCILIATION_REQUIRED'' then state_string StateUnknown
     else s)"

section \<open>Lease policy\<close>

record lease_config =
  DefaultDuration :: int
  MaxDuration :: int
  RenewalWindow :: int

definition DefaultLeaseConfig :: lease_config where
  "DefaultLeaseConfig =
    \<lparr> DefaultDuration = 5 * 60 * 10 ^ 9, MaxDuration = 30 * 60 * 10 ^ 9,
      RenewalWindow = 1 * 60 * 10 ^ 9 \<rparr>"

datatype lease_error =
    LeaseLost
  | LeaseExpired
  | LeaseTokenMismatch
  | LeaseGenerationMismatch
  | LeaseStateConflict
  | LeaseRecoveryRequired
  | LeaseErrorInvalidDuration
  | ProviderObservationConflict
  | LocatorTooLarge
  | LocatorContainsSecret
  | ResultTooLarge
  | EvidenceReceiptTooLarge
  | ObservationDigestMismatch
  | ClusterEpochMismatch
  | ClusterRecoveryRequired

definition Validate :: "lease_config \<Rightarrow> int \<Rightarrow> lease_error option" where
  "Validate c requested =
    (if requested \<le> 0 then Some LeaseErrorInvalidDuration
     else if MaxDuration c > 0 \<and> requested > MaxDuration c then Some LeaseErrorInvalidDuration
     else None)"

section \<open>Acquisition, receipts and recovery\<close>

datatype acquire_kind =
    LeaseAcquired
  | LeaseHeldByOther
  | LeaseReclaimed
  | TerminalReplay
  | RecoveryRequired
  | IdempotencyConflict

record authority_binding =
  ab_Ref :: string
  ab_Generation :: int
  ab_Digest :: string

record terminal_receipt =
  tr_ExecutionID :: string
  tr_Capability :: string
  tr_Principal :: string
  tr_RequestDigest :: string
  tr_TerminalStatus :: state
  tr_CanonicalResult :: bytes
  tr_ProviderID :: string
  tr_ProviderRunID :: string
  tr_EvidenceDigest :: string
  tr_ReceiptVersion :: int
  tr_EvidenceReceipt :: bytes
  tr_FinalizedAt :: int

datatype recovery_decision =
    RecoveryCommitted
  | RecoveryFailed
  | RecoveryUnknown
  | RecoveryRetryable
  | RecoveryConflict

record recovery_result =
  rr_Decision :: recovery_decision
  rr_Result :: bytes
  rr_EvidenceDigest :: string
  rr_ReceiptVersion :: int
  rr_ProviderID :: string
  rr_ProviderRunID :: string
  rr_EvidenceReceipt :: bytes
  rr_EvidenceArtifact :: bytes

definition MaxRecoveryLocatorBytes :: int where
  "MaxRecoveryLocatorBytes = 8192"

definition MaxResultBytes :: int where
  "MaxResultBytes = 2 ^ 20"

definition MaxEvidenceReceiptBytes :: int where
  "MaxEvidenceReceiptBytes = 64 * 1024"

section \<open>Provider idempotency token\<close>

definition be32 :: "int \<Rightarrow> bytes" where
  "be32 n = [n2b (n div 2 ^ 24 mod 256), n2b (n div 2 ^ 16 mod 256), n2b (n div 2 ^ 8 mod 256), n2b (n mod 256)]"

definition length_prefixed :: "string \<Rightarrow> bytes" where
  "length_prefixed s = be32 (int (length s) mod 2 ^ 32) @ s"

definition token_preimage :: "string \<Rightarrow> string \<Rightarrow> string \<Rightarrow> bytes" where
  "token_preimage executionID requestDigest providerID =
    concat (map length_prefixed [executionID, requestDigest, providerID])"

definition ProviderIdempotencyKey :: "crypto \<Rightarrow> string \<Rightarrow> string \<Rightarrow> string \<Rightarrow> string" where
  "ProviderIdempotencyKey C executionID requestDigest providerID =
    ''crabex-op-'' @ take 32 (sha256_hex C (token_preimage executionID requestDigest providerID))"

section \<open>Lemmas\<close>

lemma IsDurablyFinal_iff:
  "IsDurablyFinal s \<longleftrightarrow> s = StateCommitted \<or> s = StateFailed \<or> s = StateDenied"
  by (cases s) simp_all

lemma isLegalTransition_iff:
  "isLegalTransition a b \<longleftrightarrow>
     a = StatePrepared \<and> b = StateExecuting
   \<or> a = StateExecuting \<and> b \<in> {StateInFlight, StatePrepared}
   \<or> a = StateInFlight \<and> b \<in> {StateCommitted, StateFailed, StateUnknown}
   \<or> a = StateUnknown \<and> b \<in> {StateCommitted, StateFailed}"
  by (cases a) (auto simp: isLegalTransition_def)

lemma Validate_None_iff:
  "Validate c d = None \<longleftrightarrow> 0 < d \<and> (MaxDuration c \<le> 0 \<or> d \<le> MaxDuration c)"
  by (auto simp: Validate_def)

lemma b2n_n2b [simp]: "b2n (n2b n) = n mod 256"
  by (simp add: b2n_def n2b_def of_char_of)

lemma b2n_range [simp]: "0 \<le> b2n c" "b2n c < 256"
proof -
  have "b2n c = b2n c mod 256"
    unfolding b2n_def by (rule of_char_mod_256 [symmetric])
  then show "0 \<le> b2n c" "b2n c < 256"
    using pos_mod_sign [of 256 "b2n c"] pos_mod_bound [of 256 "b2n c"] by linarith+
qed

lemma length_be32 [simp]: "length (be32 n) = 4"
  by (simp add: be32_def)

lemma be32_value:
  assumes "0 \<le> n" "n < 2 ^ 32"
  shows "((b2n (be32 n ! 0) * 256 + b2n (be32 n ! 1)) * 256 + b2n (be32 n ! 2)) * 256 + b2n (be32 n ! 3) = n"
proof -
  define a b c where "a = n div 256" and "b = a div 256" and "c = b div 256"
  have n: "n = a * 256 + n mod 256" and a: "a = b * 256 + a mod 256" and b: "b = c * 256 + b mod 256"
    by (simp_all add: a_def b_def c_def)
  have digits: "n div 2 ^ 24 = c" "n div 2 ^ 16 = b" "n div 2 ^ 8 = a"
    by (simp_all add: a_def b_def c_def zdiv_zmult2_eq [symmetric])
  have "n < 4294967296"
    using assms by simp
  then have "0 \<le> c" "c < 256"
    using assms(1) n a b pos_mod_sign [of 256 n] pos_mod_sign [of 256 a] pos_mod_sign [of 256 b]
      pos_mod_bound [of 256 n] pos_mod_bound [of 256 a] pos_mod_bound [of 256 b] by linarith+
  then have c: "c mod 256 = c"
    by simp
  have "((c * 256 + b mod 256) * 256 + a mod 256) * 256 + n mod 256 = n"
    by (simp only: b [symmetric] a [symmetric] n [symmetric])
  then show ?thesis
    unfolding be32_def digits by (simp add: c)
qed

lemma be32_inject:
  "0 \<le> n \<Longrightarrow> n < 2 ^ 32 \<Longrightarrow> 0 \<le> m \<Longrightarrow> m < 2 ^ 32 \<Longrightarrow> be32 n = be32 m \<longleftrightarrow> n = m"
  using be32_value [of n] be32_value [of m] by metis

text \<open>Length prefixes make the concatenation uniquely readable.\<close>

lemma length_prefixed_append_inject:
  assumes "int (length s) < 2 ^ 32" "int (length t) < 2 ^ 32"
  shows "length_prefixed s @ x = length_prefixed t @ y \<longleftrightarrow> s = t \<and> x = y"
proof
  assume eq: "length_prefixed s @ x = length_prefixed t @ y"
  then have "be32 (int (length s)) = be32 (int (length t))"
    using assms by (simp add: length_prefixed_def append_eq_append_conv)
  then have "length s = length t"
    using assms by (simp add: be32_inject)
  then show "s = t \<and> x = y"
    using eq assms by (simp add: length_prefixed_def append_eq_append_conv)
qed simp

lemma token_preimage_inject:
  assumes "int (length a) < 2 ^ 32" "int (length b) < 2 ^ 32" "int (length c) < 2 ^ 32"
    and "int (length a') < 2 ^ 32" "int (length b') < 2 ^ 32" "int (length c') < 2 ^ 32"
  shows "token_preimage a b c = token_preimage a' b' c' \<longleftrightarrow> a = a' \<and> b = b' \<and> c = c'"
proof -
  have "token_preimage a b c = token_preimage a' b' c' \<longleftrightarrow>
      length_prefixed a @ length_prefixed b @ length_prefixed c @ []
      = length_prefixed a' @ length_prefixed b' @ length_prefixed c' @ []"
    by (simp add: token_preimage_def)
  then show ?thesis
    using assms length_prefixed_append_inject by metis
qed

end
