(* ===== verification/Evidence.thy ===== *)
theory Evidence
  imports Digest
begin

text \<open>
  Signed effect receipts (\<^verbatim>\<open>internal/evidence/evidence.go\<close>): the receipt structure, the
  length-prefixed signing payload, field validation, strict parsing, and verification of signature,
  trust and binding.  The standard-library functions the checks call (base64, RFC 3339 parsing,
  Unicode blanks, decoding of a JSON object into a struct with case-insensitive field names) are
  written out.  The clock's rendering in \<open>Sign\<close> and the key pair are arguments.  Loading and creating
  key files is file-system code and is left out.
\<close>

section \<open>Base64\<close>

definition b64_value :: "char \<Rightarrow> int option" where
  "b64_value c =
    (if in_range 65 90 c then Some (b2n c - 65)
     else if in_range 97 122 c then Some (b2n c - 71)
     else if in_range 48 57 c then Some (b2n c + 4)
     else if c = CHR ''+'' then Some 62
     else if c = CHR ''/'' then Some 63
     else None)"

definition b64_char :: "int \<Rightarrow> char" where
  "b64_char n =
    (if n < 26 then n2b (n + 65) else if n < 52 then n2b (n + 71) else if n < 62 then n2b (n - 4)
     else if n = 62 then CHR ''+'' else CHR ''/'')"

fun b64_encode :: "bytes \<Rightarrow> string" where
  "b64_encode [] = []"
| "b64_encode [a] =
    [b64_char (b2n a div 4), b64_char (b2n a mod 4 * 16), CHR ''='', CHR ''='']"
| "b64_encode [a, b] =
    [b64_char (b2n a div 4), b64_char (b2n a mod 4 * 16 + b2n b div 16), b64_char (b2n b mod 16 * 4), CHR ''='']"
| "b64_encode (a # b # c # rest) =
    [b64_char (b2n a div 4), b64_char (b2n a mod 4 * 16 + b2n b div 16),
     b64_char (b2n b mod 16 * 4 + b2n c div 64), b64_char (b2n c mod 64)] @ b64_encode rest"

fun b64_quads :: "string \<Rightarrow> bytes option" where
  "b64_quads [] = Some []"
| "b64_quads (p # q # r # s # rest) =
    (case (b64_value p, b64_value q) of
       (Some x, Some y) \<Rightarrow>
         if s = CHR ''='' then
           (if rest \<noteq> [] then None
            else if r = CHR ''='' then Some [n2b (x * 4 + y div 16)]
            else (case b64_value r of
                    Some z \<Rightarrow> Some [n2b (x * 4 + y div 16), n2b (y * 16 + z div 4)]
                  | None \<Rightarrow> None))
         else
           (case (b64_value r, b64_value s) of
              (Some z, Some w) \<Rightarrow>
                map_option (append [n2b (x * 4 + y div 16), n2b (y * 16 + z div 4), n2b (z * 64 + w)])
                  (b64_quads rest)
            | _ \<Rightarrow> None)
     | _ \<Rightarrow> None)"
| "b64_quads _ = None"

text \<open>\<^verbatim>\<open>base64.StdEncoding.DecodeString\<close>: carriage returns and newlines are ignored.\<close>

definition b64_decode :: "string \<Rightarrow> bytes option" where
  "b64_decode s = b64_quads (filter (\<lambda>c. b2n c \<noteq> 10 \<and> b2n c \<noteq> 13) s)"

section \<open>Blank strings and timestamps\<close>

definition is_unicode_space :: "int \<Rightarrow> bool" where
  "is_unicode_space r \<longleftrightarrow>
    r \<in> {9, 10, 11, 12, 13, 0x20, 0x85, 0xA0, 0x1680, 0x2028, 0x2029, 0x202F, 0x205F, 0x3000}
    \<or> 0x2000 \<le> r \<and> r \<le> 0x200A"

text \<open>\<^verbatim>\<open>strings.TrimSpace(s) == ""\<close>.\<close>

definition blank :: "string \<Rightarrow> bool" where
  "blank s = list_all is_unicode_space (runes s)"

text \<open>\<^verbatim>\<open>getnum\<close> of package \<open>time\<close>: two digits, or one when \<open>fixed\<close> is not asked for.\<close>

definition getnum :: "bool \<Rightarrow> string \<Rightarrow> (int \<times> string) option" where
  "getnum fixed s =
    (case s of
       [] \<Rightarrow> None
     | a # cs \<Rightarrow>
         if \<not> is_digit a then None
         else (case cs of
                 b # r \<Rightarrow>
                   if is_digit b then Some (digits_value [a, b], r)
                   else if fixed then None else Some (digits_value [a], cs)
               | [] \<Rightarrow> if fixed then None else Some (digits_value [a], [])))"

definition expect :: "char \<Rightarrow> string \<Rightarrow> string option" where
  "expect c s = (case s of d # r \<Rightarrow> if c = d then Some r else None | [] \<Rightarrow> None)"

definition is_leap :: "int \<Rightarrow> bool" where
  "is_leap y \<longleftrightarrow> y mod 4 = 0 \<and> (y mod 100 \<noteq> 0 \<or> y mod 400 = 0)"

definition days_in :: "int \<Rightarrow> int \<Rightarrow> int" where
  "days_in m y =
    (if m = 2 then (if is_leap y then 29 else 28)
     else if m \<in> {4, 6, 9, 11} then 30 else 31)"

definition parse_date :: "string \<Rightarrow> string option" where
  "parse_date s =
    (if length s < 4 \<or> \<not> list_all is_digit (take 4 s) then None
     else
       Option.bind (expect (CHR ''-'') (drop 4 s)) (\<lambda>s1.
       Option.bind (getnum True s1) (\<lambda>(month, s2).
       if month = 0 \<or> 12 < month then None
       else
         Option.bind (expect (CHR ''-'') s2) (\<lambda>s3.
         Option.bind (getnum True s3) (\<lambda>(day, s4).
         if day < 1 \<or> days_in month (digits_value (take 4 s)) < day then None else Some s4)))))"

definition skip_fraction :: "string \<Rightarrow> string" where
  "skip_fraction s =
    (case s of
       c # d # r \<Rightarrow> if (c = CHR ''.'' \<or> c = CHR '','') \<and> is_digit d then dropWhile is_digit (d # r) else s
     | _ \<Rightarrow> s)"

definition parse_clock :: "string \<Rightarrow> string option" where
  "parse_clock s =
    Option.bind (getnum False s) (\<lambda>(hour, s1).
    if 24 \<le> hour then None
    else
      Option.bind (expect (CHR '':'') s1) (\<lambda>s2.
      Option.bind (getnum True s2) (\<lambda>(minute, s3).
      if 60 \<le> minute then None
      else
        Option.bind (expect (CHR '':'') s3) (\<lambda>s4.
        Option.bind (getnum True s4) (\<lambda>(sec, s5).
        if 60 \<le> sec then None else Some (skip_fraction s5))))))"

definition parse_zone :: "string \<Rightarrow> string option" where
  "parse_zone s =
    (case s of
       [] \<Rightarrow> None
     | c # r \<Rightarrow>
         if c = CHR ''Z'' then Some r
         else if length s < 6 \<or> s ! 3 \<noteq> CHR '':'' then None
         else
           (case (getnum True (take 2 (drop 1 s)), getnum True (take 2 (drop 4 s))) of
              (Some (hr, _), Some (mm, _)) \<Rightarrow>
                if 24 < hr \<or> 60 < mm then None
                else if c = CHR ''+'' \<or> c = CHR ''-'' then Some (drop 6 s) else None
            | _ \<Rightarrow> None))"

text \<open>Whether \<^verbatim>\<open>time.Parse(time.RFC3339Nano, s)\<close> succeeds.\<close>

definition rfc3339_ok :: "string \<Rightarrow> bool" where
  "rfc3339_ok s =
    (Option.bind (parse_date s) (\<lambda>s1.
     Option.bind (expect (CHR ''T'') s1) (\<lambda>s2.
     Option.bind (parse_clock s2) parse_zone)) = Some [])"

section \<open>Receipts\<close>

definition ReceiptV3SchemaVersion :: int where
  "ReceiptV3SchemaVersion = 3"

definition ReceiptType :: string where
  "ReceiptType = ''crabedence-effect-receipt''"

definition signingDomain :: string where
  "signingDomain = ''crabedence-effect-receipt-v3'' @ [CHR 0x00]"

definition OutcomeCompleted :: string where
  "OutcomeCompleted = ''COMPLETED''"

definition OutcomeNoEffect :: string where
  "OutcomeNoEffect = ''NO_EFFECT''"

record receipt_v3 =
  rv3_SchemaVersion :: int
  rv3_ReceiptType :: string
  rv3_ExecutionID :: string
  rv3_Capability :: string
  rv3_Principal :: string
  rv3_RequestDigest :: string
  rv3_ProviderID :: string
  rv3_ProviderRunID :: string
  rv3_Outcome :: string
  rv3_EvidenceSHA256 :: string
  rv3_IssuedAt :: string
  rv3_PublicKey :: string
  rv3_Signer :: string
  rv3_Signature :: string

record binding =
  bd_ExecutionID :: string
  bd_Capability :: string
  bd_Principal :: string
  bd_RequestDigest :: string
  bd_ProviderID :: string
  bd_ProviderRunID :: string
  bd_Outcome :: string
  bd_EvidenceSHA256 :: string

datatype evidence_error =
    ReceiptMissing
  | ReceiptTooLarge
  | ReceiptMalformed
  | ReceiptInvalidField
  | ReceiptMissingSignature
  | ReceiptSignatureMismatch
  | NoTrustedSigners
  | SignerNotTrusted
  | BindingMismatch

definition PublicKeySize :: nat where
  "PublicKeySize = 32"

definition SignatureSize :: nat where
  "SignatureSize = 64"

definition Fingerprint :: "crypto \<Rightarrow> bytes \<Rightarrow> string" where
  "Fingerprint C pub = sha256_hex C pub"

definition signing_values :: "receipt_v3 \<Rightarrow> string list" where
  "signing_values r =
    [rv3_ExecutionID r, rv3_Capability r, rv3_Principal r, rv3_RequestDigest r, rv3_ProviderID r,
     rv3_ProviderRunID r, rv3_Outcome r, rv3_EvidenceSHA256 r, rv3_IssuedAt r, rv3_PublicKey r,
     rv3_Signer r]"

definition signingBytes :: "receipt_v3 \<Rightarrow> bytes" where
  "signingBytes r = signingDomain @ concat (map length_prefixed (signing_values r))"

definition isHexDigest :: "string \<Rightarrow> bool" where
  "isHexDigest s \<longleftrightarrow>
    length s = 32 * 2 \<and> list_all (\<lambda>c. in_range 48 57 c \<or> in_range 97 102 c) s"

definition validateFields :: "crypto \<Rightarrow> receipt_v3 \<Rightarrow> bool" where
  "validateFields C r \<longleftrightarrow>
    rv3_ReceiptType r = ReceiptType
    \<and> rv3_SchemaVersion r = ReceiptV3SchemaVersion
    \<and> list_all (\<lambda>v. \<not> blank v)
        [rv3_ExecutionID r, rv3_Capability r, rv3_Principal r, rv3_RequestDigest r, rv3_ProviderID r,
         rv3_PublicKey r, rv3_Signer r]
    \<and> (if rv3_Outcome r = OutcomeCompleted then \<not> blank (rv3_ProviderRunID r)
       else rv3_Outcome r = OutcomeNoEffect)
    \<and> isHexDigest (rv3_EvidenceSHA256 r)
    \<and> rfc3339_ok (rv3_IssuedAt r)
    \<and> (case b64_decode (rv3_PublicKey r) of
         None \<Rightarrow> False
       | Some pub \<Rightarrow> length pub = PublicKeySize \<and> rv3_Signer r = Fingerprint C pub)
    \<and> (rv3_Signature r \<noteq> [] \<longrightarrow>
         (case b64_decode (rv3_Signature r) of None \<Rightarrow> False | Some sig \<Rightarrow> length sig = SignatureSize))"

section \<open>Parsing\<close>

text \<open>
  Decoding a JSON object into a struct matches field names up to Unicode case folding; besides the
  other case, only the long s and the Kelvin sign fold to an ASCII letter.
\<close>

definition fold_rune :: "int \<Rightarrow> int" where
  "fold_rune r = (if 97 \<le> r \<and> r \<le> 122 then r - 32 else if r = 0x17F then 83 else if r = 0x212A then 75 else r)"

definition fold_name :: "string \<Rightarrow> int list" where
  "fold_name s = map fold_rune (runes s)"

definition receipt_string_fields :: "(string \<times> (string \<Rightarrow> receipt_v3 \<Rightarrow> receipt_v3)) list" where
  "receipt_string_fields =
    [(''receipt_type'', \<lambda>v r. r\<lparr>rv3_ReceiptType := v\<rparr>),
     (''execution_id'', \<lambda>v r. r\<lparr>rv3_ExecutionID := v\<rparr>),
     (''capability'', \<lambda>v r. r\<lparr>rv3_Capability := v\<rparr>),
     (''principal'', \<lambda>v r. r\<lparr>rv3_Principal := v\<rparr>),
     (''request_digest'', \<lambda>v r. r\<lparr>rv3_RequestDigest := v\<rparr>),
     (''provider_id'', \<lambda>v r. r\<lparr>rv3_ProviderID := v\<rparr>),
     (''provider_run_id'', \<lambda>v r. r\<lparr>rv3_ProviderRunID := v\<rparr>),
     (''outcome'', \<lambda>v r. r\<lparr>rv3_Outcome := v\<rparr>),
     (''evidence_sha256'', \<lambda>v r. r\<lparr>rv3_EvidenceSHA256 := v\<rparr>),
     (''issued_at'', \<lambda>v r. r\<lparr>rv3_IssuedAt := v\<rparr>),
     (''public_key'', \<lambda>v r. r\<lparr>rv3_PublicKey := v\<rparr>),
     (''signer'', \<lambda>v r. r\<lparr>rv3_Signer := v\<rparr>),
     (''signature'', \<lambda>v r. r\<lparr>rv3_Signature := v\<rparr>)]"

text \<open>\<^verbatim>\<open>strconv.ParseInt\<close> on a JSON number literal, at 64 bits.\<close>

definition parse_int64 :: "string \<Rightarrow> int option" where
  "parse_int64 lit =
    (let (neg, ds) = take_sign lit;
         v = (if neg then - digits_value ds else digits_value ds) in
     if ds = [] \<or> \<not> list_all is_digit ds \<or> v < - (2 ^ 63) \<or> 2 ^ 63 \<le> v then None else Some v)"

definition decode_member :: "string \<times> json \<Rightarrow> receipt_v3 \<Rightarrow> receipt_v3 option" where
  "decode_member kv r =
    (if fold_name (fst kv) = fold_name ''schema_version'' then
       (case snd kv of
          JNull \<Rightarrow> Some r
        | JNumber lit \<Rightarrow> map_option (\<lambda>v. r\<lparr>rv3_SchemaVersion := v\<rparr>) (parse_int64 lit)
        | _ \<Rightarrow> None)
     else
       (case List.find (\<lambda>f. fold_name (fst f) = fold_name (fst kv)) receipt_string_fields of
          None \<Rightarrow> None
        | Some f \<Rightarrow>
            (case snd kv of JNull \<Rightarrow> Some r | JString v \<Rightarrow> Some (snd f v r) | _ \<Rightarrow> None)))"

definition empty_receipt :: receipt_v3 where
  "empty_receipt =
    \<lparr> rv3_SchemaVersion = 0, rv3_ReceiptType = [], rv3_ExecutionID = [], rv3_Capability = [],
      rv3_Principal = [], rv3_RequestDigest = [], rv3_ProviderID = [], rv3_ProviderRunID = [],
      rv3_Outcome = [], rv3_EvidenceSHA256 = [], rv3_IssuedAt = [], rv3_PublicKey = [],
      rv3_Signer = [], rv3_Signature = [] \<rparr>"

definition hasDuplicateKeys :: "(string \<times> json) list \<Rightarrow> bool" where
  "hasDuplicateKeys kvs \<longleftrightarrow> \<not> distinct (map fst kvs)"

definition decode_members :: "(string \<times> json) list \<Rightarrow> receipt_v3 option" where
  "decode_members kvs = fold (\<lambda>kv r. Option.bind r (decode_member kv)) kvs (Some empty_receipt)"

definition ParseReceipt :: "bytes \<Rightarrow> evidence_error + receipt_v3" where
  "ParseReceipt data =
    (if length data = 0 then Inl ReceiptMissing
     else if int (length data) > 64 * 1024 then Inl ReceiptTooLarge
     else
       (case parseJSON data of
          Inr (JObject kvs) \<Rightarrow>
            if hasDuplicateKeys kvs then Inl ReceiptMalformed
            else (case decode_members kvs of None \<Rightarrow> Inl ReceiptMalformed | Some r \<Rightarrow> Inr r)
        | _ \<Rightarrow> Inl ReceiptMalformed))"

section \<open>Verification and signing\<close>

definition VerifySignature :: "crypto \<Rightarrow> receipt_v3 \<Rightarrow> evidence_error option" where
  "VerifySignature C r =
    (if \<not> validateFields C r then Some ReceiptInvalidField
     else if rv3_Signature r = [] then Some ReceiptMissingSignature
     else if ed25519_verify C (the (b64_decode (rv3_PublicKey r))) (signingBytes r)
               (the (b64_decode (rv3_Signature r))) then None
     else Some ReceiptSignatureMismatch)"

definition binding_of :: "receipt_v3 \<Rightarrow> binding" where
  "binding_of r =
    \<lparr> bd_ExecutionID = rv3_ExecutionID r, bd_Capability = rv3_Capability r,
      bd_Principal = rv3_Principal r, bd_RequestDigest = rv3_RequestDigest r,
      bd_ProviderID = rv3_ProviderID r, bd_ProviderRunID = rv3_ProviderRunID r,
      bd_Outcome = rv3_Outcome r, bd_EvidenceSHA256 = rv3_EvidenceSHA256 r \<rparr>"

definition VerifyReceipt :: "crypto \<Rightarrow> bytes \<Rightarrow> binding \<Rightarrow> string list \<Rightarrow> evidence_error option" where
  "VerifyReceipt C data b trustedSigners =
    (case ParseReceipt data of
       Inl e \<Rightarrow> Some e
     | Inr r \<Rightarrow>
         (case VerifySignature C r of
            Some e \<Rightarrow> Some e
          | None \<Rightarrow>
              if length trustedSigners = 0 then Some NoTrustedSigners
              else if rv3_Signer r \<notin> set trustedSigners then Some SignerNotTrusted
              else if binding_of r \<noteq> b then Some BindingMismatch
              else None))"

definition receipt_json :: "receipt_v3 \<Rightarrow> bytes" where
  "receipt_json r =
    object_text
      [(''schema_version'', show_int (rv3_SchemaVersion r)),
       (''receipt_type'', quote_string (rv3_ReceiptType r)),
       (''execution_id'', quote_string (rv3_ExecutionID r)),
       (''capability'', quote_string (rv3_Capability r)),
       (''principal'', quote_string (rv3_Principal r)),
       (''request_digest'', quote_string (rv3_RequestDigest r)),
       (''provider_id'', quote_string (rv3_ProviderID r)),
       (''provider_run_id'', quote_string (rv3_ProviderRunID r)),
       (''outcome'', quote_string (rv3_Outcome r)),
       (''evidence_sha256'', quote_string (rv3_EvidenceSHA256 r)),
       (''issued_at'', quote_string (rv3_IssuedAt r)),
       (''public_key'', quote_string (rv3_PublicKey r)),
       (''signer'', quote_string (rv3_Signer r)),
       (''signature'', quote_string (rv3_Signature r))]"

text \<open>\<open>Signer.Sign\<close>: the public key, the signing function of the key, and the rendered clock are arguments.\<close>

definition unsigned_receipt :: "crypto \<Rightarrow> bytes \<Rightarrow> string \<Rightarrow> binding \<Rightarrow> receipt_v3" where
  "unsigned_receipt C pub issuedAt b =
    \<lparr> rv3_SchemaVersion = ReceiptV3SchemaVersion, rv3_ReceiptType = ReceiptType,
      rv3_ExecutionID = bd_ExecutionID b, rv3_Capability = bd_Capability b,
      rv3_Principal = bd_Principal b, rv3_RequestDigest = bd_RequestDigest b,
      rv3_ProviderID = bd_ProviderID b, rv3_ProviderRunID = bd_ProviderRunID b,
      rv3_Outcome = bd_Outcome b, rv3_EvidenceSHA256 = bd_EvidenceSHA256 b,
      rv3_IssuedAt = issuedAt, rv3_PublicKey = b64_encode pub,
      rv3_Signer = Fingerprint C pub, rv3_Signature = [] \<rparr>"

definition Sign :: "crypto \<Rightarrow> bytes \<Rightarrow> (bytes \<Rightarrow> bytes) \<Rightarrow> string \<Rightarrow> binding \<Rightarrow> evidence_error + bytes" where
  "Sign C pub sign issuedAt b =
    (let r = unsigned_receipt C pub issuedAt b in
     if \<not> validateFields C r then Inl ReceiptInvalidField
     else Inr (receipt_json (r\<lparr>rv3_Signature := b64_encode (sign (signingBytes r))\<rparr>)))"

end
