(* ===== verification/Locator.thy ===== *)
theory Locator
  imports Digest
begin

text \<open>
  The denylist on recovery locators (\<^verbatim>\<open>internal/idempotency/store.go\<close>): keys of the locator's
  JSON tree are normalised and matched against substrings that mark credential material.

  The tables of Unicode letters, digits and lower-case mappings beyond ASCII are the parameter
  \<open>unicode\<close>.  The scan decodes with \<^verbatim>\<open>json.Unmarshal\<close>, without \<open>UseNumber\<close>, so a number outside the
  range of \<open>float64\<close> makes decoding fail; \<open>float64_overflows\<close> is that range test, exact on rationals.
\<close>

record unicode =
  uc_letter :: "int \<Rightarrow> bool"
  uc_digit :: "int \<Rightarrow> bool"
  uc_lower :: "int \<Rightarrow> int"

definition isLetter :: "unicode \<Rightarrow> int \<Rightarrow> bool" where
  "isLetter U r = (if r < 0x80 then 65 \<le> r \<and> r \<le> 90 \<or> 97 \<le> r \<and> r \<le> 122 else uc_letter U r)"

definition isDigit :: "unicode \<Rightarrow> int \<Rightarrow> bool" where
  "isDigit U r = (if r < 0x80 then 48 \<le> r \<and> r \<le> 57 else uc_digit U r)"

definition toLower :: "unicode \<Rightarrow> int \<Rightarrow> int" where
  "toLower U r = (if r < 0x80 then (if 65 \<le> r \<and> r \<le> 90 then r + 32 else r) else uc_lower U r)"

definition forbiddenLocatorKeyPatterns :: "string list" where
  "forbiddenLocatorKeyPatterns =
    [''secret'', ''password'', ''passwd'', ''passphrase'',
     ''privatekey'', ''apikey'', ''accesskey'', ''secretkey'',
     ''signingkey'', ''encryptionkey'',
     ''accesstoken'', ''refreshtoken'', ''bearertoken'', ''authtoken'',
     ''idtoken'', ''sessiontoken'', ''csrftoken'',
     ''authorization'', ''credential'', ''sessioncookie'', ''bearer'',
     ''token'', ''key'', ''pgpass'', ''cookie'']"

definition allowedLocatorKeys :: "string list" where
  "allowedLocatorKeys = [''externaltoken'', ''idempotencykey'']"

definition normalizeLocatorKey :: "unicode \<Rightarrow> string \<Rightarrow> string" where
  "normalizeLocatorKey U k =
    concat (map (\<lambda>r. utf8_encode (toLower U r)) (filter (\<lambda>r. isLetter U r \<or> isDigit U r) (runes k)))"

text \<open>\<^verbatim>\<open>strings.Contains\<close>.\<close>

fun contains :: "string \<Rightarrow> string \<Rightarrow> bool" where
  "contains [] pat = (pat = [])"
| "contains (c # cs) pat = (take (length pat) (c # cs) = pat \<or> contains cs pat)"

definition denied_key :: "unicode \<Rightarrow> string \<Rightarrow> bool" where
  "denied_key U k \<longleftrightarrow>
    (let norm = normalizeLocatorKey U k in
     norm \<notin> set allowedLocatorKeys \<and> list_ex (contains norm) forbiddenLocatorKeyPatterns)"

text \<open>The first non-empty string of a list, as the search returns it.\<close>

fun first_nonempty :: "string list \<Rightarrow> string" where
  "first_nonempty [] = []"
| "first_nonempty (s # ss) = (if s \<noteq> [] then s else first_nonempty ss)"

definition key_or_nested :: "unicode \<Rightarrow> string \<times> string \<Rightarrow> string" where
  "key_or_nested U kf = (if denied_key U (fst kf) then fst kf else snd kf)"

primrec findForbiddenKey :: "unicode \<Rightarrow> json \<Rightarrow> string" where
  "findForbiddenKey U JNull = []"
| "findForbiddenKey U (JBool b) = []"
| "findForbiddenKey U (JNumber n) = []"
| "findForbiddenKey U (JString s) = []"
| "findForbiddenKey U (JArray xs) = first_nonempty (map (findForbiddenKey U) xs)"
| "findForbiddenKey U (JObject kvs) =
    first_nonempty (map (key_or_nested U) (map (map_prod (\<lambda>k. k) (findForbiddenKey U)) kvs))"

text \<open>\<^verbatim>\<open>strconv.ParseFloat\<close> reports a range error when the exact value rounds past the largest \<open>float64\<close>.\<close>

definition float64_limit :: int where
  "float64_limit = 2 ^ 1024 - 2 ^ 970"

definition float64_overflows :: "string \<Rightarrow> bool" where
  "float64_overflows lit =
    (case number_parts lit of
       None \<Rightarrow> False
     | Some (neg, i, f, e) \<Rightarrow>
         (let m = digits_value (i @ f); x = e - int (length f) in
          if 0 \<le> x then float64_limit \<le> m * 10 ^ nat x
          else float64_limit * 10 ^ nat (- x) \<le> m))"

primrec json_numbers :: "json \<Rightarrow> string list" where
  "json_numbers JNull = []"
| "json_numbers (JBool b) = []"
| "json_numbers (JNumber n) = [n]"
| "json_numbers (JString s) = []"
| "json_numbers (JArray xs) = concat (map json_numbers xs)"
| "json_numbers (JObject kvs) = concat (map snd (map (map_prod (\<lambda>k. k) json_numbers) kvs))"

text \<open>\<^verbatim>\<open>json.Unmarshal(raw, &v)\<close> for \<open>v any\<close>; numbers keep their literals, which nothing reads.\<close>

definition unmarshalAny :: "bytes \<Rightarrow> json_error + json" where
  "unmarshalAny raw =
    (case parseJSON raw of
       Inl e \<Rightarrow> Inl JsonSyntax
     | Inr t \<Rightarrow> if list_ex float64_overflows (json_numbers t) then Inl JsonNumberRange else Inr (go_any t))"

definition forbiddenLocatorField :: "unicode \<Rightarrow> bytes \<Rightarrow> string" where
  "forbiddenLocatorField U raw =
    (if length raw = 0 then []
     else (case unmarshalAny raw of Inl _ \<Rightarrow> [] | Inr v \<Rightarrow> findForbiddenKey U v))"

end
