(* ===== verification/StoreTypes.thy ===== *)
theory StoreTypes
  imports Evidence Locator
begin

text \<open>
  The data of the durable store: the tables of the SQLite schema as lists of rows
  (\<^verbatim>\<open>execution_requests\<close>, \<^verbatim>\<open>effect_events\<close>, \<^verbatim>\<open>effect_provider_observations\<close> and the
  single row of \<^verbatim>\<open>cluster_meta\<close>), the forensic payloads of \<^verbatim>\<open>forensic.go\<close>, the
  provider observation, the evidence policy of \<^verbatim>\<open>evidence_verify.go\<close>, and the static
  configuration of a store.

  A row is also what the code calls a \<open>Record\<close>: scanning turns a \<open>NULL\<close> text column into the empty
  string (\<open>str\<close>) and keeps \<open>NULL\<close> timestamps as nil pointers.  Columns carry the prefix \<open>er\<close> that
  the code's own SQL gives the table.
\<close>

section \<open>Execution records\<close>

record exec_row =
  er_execution_id :: string
  er_idempotency_key :: string
  er_principal_id :: string
  er_capability_id :: string
  er_request_digest :: string
  er_grant_id :: "string option"
  er_execution_class :: string
  er_state :: state
  er_result :: "bytes option"
  er_evidence_digest :: "string option"
  er_receipt_version :: int
  er_lease_owner :: "string option"
  er_lease_token :: "string option"
  er_lease_started_at :: "int option"
  er_lease_expires_at :: "int option"
  er_lease_generation :: int
  er_provider_id :: "string option"
  er_provider_run_id :: "string option"
  er_provider_status :: "string option"
  er_provider_result :: "bytes option"
  er_provider_result_digest :: "string option"
  er_provider_receipt_version :: int
  er_provider_observed_at :: "int option"
  er_terminal_receipt_digest :: "string option"
  er_evidence_receipt :: "bytes option"
  er_recovery_locator :: "bytes option"
  er_attempt :: int
  er_version :: int
  er_created_at :: int
  er_updated_at :: int
  er_reconcile_owner :: "string option"
  er_reconcile_lease_expires_at :: "int option"
  er_reconcile_attempt :: int
  er_next_reconcile_at :: "int option"
  er_last_reconcile_error :: "string option"
  er_entered_unknown_at :: "int option"
  er_authority_generation :: "int option"
  er_authority_digest :: "string option"
  er_provider_evidence_digest :: "string option"
  er_terminal_result_digest :: "string option"
  er_terminal_evidence_digest :: "string option"
  er_admitted_epoch :: "int option"

type_synonym Record = exec_row

definition str :: "string option \<Rightarrow> string" where
  "str c = coalesce_to [] c"

section \<open>Forensic ledgers\<close>

datatype event_type =
    EventAcquired
  | EventLeaseAcquired
  | EventLeaseRenewed
  | EventExecutionBegun
  | EventDispatchStarted
  | EventProviderObserved
  | EventEnteredUnknown
  | EventReconciliationClaimed
  | EventReconciliationObserved
  | EventReconciliationSuspended
  | EventClaimReleased
  | EventClaimRenewed
  | EventTerminalResolved
  | EventAbandonedPreDispatch
  | EventLeaseLost
  | EventClaimLost

datatype observation_kind = ObservationDispatch | ObservationRecovery | ObservationReconciliation

text \<open>The payload of one event; an empty state string is \<open>None\<close>.\<close>

record effect_event_payload =
  eventType :: event_type
  actor :: string
  previousState :: "state option"
  newState :: "state option"
  resultDigest :: string
  evidenceDigest :: string
  claimGeneration :: int
  metadata :: string

definition effectEvent :: "event_type \<Rightarrow> effect_event_payload" where
  "effectEvent t =
    \<lparr> eventType = t, actor = [], previousState = None, newState = None, resultDigest = [],
      evidenceDigest = [], claimGeneration = 0, metadata = [] \<rparr>"

record event_row =
  ev_execution_id :: string
  ev_sequence :: nat
  ev_record_version :: int
  ev_event_type :: event_type
  ev_actor :: "string option"
  ev_previous_state :: "state option"
  ev_new_state :: state
  ev_result_digest :: "string option"
  ev_evidence_digest :: "string option"
  ev_claim_generation :: "int option"
  ev_occurred_at :: int
  ev_metadata :: "string option"

record observation_row =
  ob_execution_id :: string
  ob_sequence :: nat
  ob_record_version :: int
  ob_observation_kind :: observation_kind
  ob_provider_id :: "string option"
  ob_provider_run_id :: "string option"
  ob_provider_status :: "string option"
  ob_result_bytes :: "bytes option"
  ob_result_sha256 :: "string option"
  ob_result_canonical_digest :: "string option"
  ob_evidence_sha256 :: "string option"
  ob_receipt_version :: int
  ob_observed_at :: int

record provider_observation =
  po_ProviderID :: string
  po_ProviderRunID :: string
  po_ProviderStatus :: string
  po_Result :: bytes
  po_ResultDigest :: string
  po_EvidenceDigest :: string
  po_ReceiptVersion :: int

definition sha256Hex :: "crypto \<Rightarrow> bytes \<Rightarrow> string" where
  "sha256Hex C b = (if length b = 0 then [] else sha256_hex C b)"

section \<open>The database\<close>

record db =
  execution_requests :: "exec_row list"
  effect_events :: "event_row list"
  effect_provider_observations :: "observation_row list"
  cm_epoch :: int
  cm_recovery_required :: bool
  cm_recovery_completed_at :: "int option"
  cm_recovery_resolution :: "string option"
  cm_advanced_at :: "int option"
  cm_advance_reason :: "string option"

text \<open>A database after the schema migrations have run on an empty file.\<close>

definition initial_db :: "int \<Rightarrow> db" where
  "initial_db now =
    \<lparr> execution_requests = [], effect_events = [], effect_provider_observations = [],
      cm_epoch = 1, cm_recovery_required = False, cm_recovery_completed_at = None,
      cm_recovery_resolution = None, cm_advanced_at = Some now,
      cm_advance_reason = Some ''initial epoch'' \<rparr>"

definition rows_of :: "string \<Rightarrow> db \<Rightarrow> exec_row list" where
  "rows_of executionID d = filter (\<lambda>er. er_execution_id er = executionID) (execution_requests d)"

text \<open>\<open>COALESCE(MAX(sequence), 0)\<close> over the rows of one execution; sequences are positive.\<close>

definition max_event_sequence :: "string \<Rightarrow> event_row list \<Rightarrow> nat" where
  "max_event_sequence executionID es =
    fold max (map ev_sequence (filter (\<lambda>e. ev_execution_id e = executionID) es)) 0"

definition max_observation_sequence :: "string \<Rightarrow> observation_row list \<Rightarrow> nat" where
  "max_observation_sequence executionID os =
    fold max (map ob_sequence (filter (\<lambda>e. ob_execution_id e = executionID) os)) 0"

definition event_row_for :: "int \<Rightarrow> db \<Rightarrow> effect_event_payload \<Rightarrow> exec_row \<Rightarrow> event_row" where
  "event_row_for now d ev er =
    \<lparr> ev_execution_id = er_execution_id er,
      ev_sequence = max_event_sequence (er_execution_id er) (effect_events d) + 1,
      ev_record_version = er_version er,
      ev_event_type = eventType ev,
      ev_actor = coalesce (nullif (actor ev) []) (coalesce (er_lease_owner er) (er_reconcile_owner er)),
      ev_previous_state = previousState ev,
      ev_new_state = coalesce_to (er_state er) (newState ev),
      ev_result_digest = nullif (resultDigest ev) [],
      ev_evidence_digest = nullif (evidenceDigest ev) [],
      ev_claim_generation = nullif (claimGeneration ev) 0,
      ev_occurred_at = now,
      ev_metadata = nullif (metadata ev) [] \<rparr>"

definition sqliteInsertEffectEvent :: "int \<Rightarrow> string \<Rightarrow> effect_event_payload \<Rightarrow> db \<Rightarrow> db" where
  "sqliteInsertEffectEvent now executionID ev d =
    d\<lparr>effect_events := effect_events d @ map (event_row_for now d ev) (rows_of executionID d)\<rparr>"

definition observation_row_for ::
    "crypto \<Rightarrow> int \<Rightarrow> db \<Rightarrow> observation_kind \<Rightarrow> bytes \<Rightarrow> provider_observation \<Rightarrow> exec_row \<Rightarrow> observation_row" where
  "observation_row_for C now d kind rawResult obs er =
    \<lparr> ob_execution_id = er_execution_id er,
      ob_sequence = max_observation_sequence (er_execution_id er) (effect_provider_observations d) + 1,
      ob_record_version = er_version er,
      ob_observation_kind = kind,
      ob_provider_id = nullif (po_ProviderID obs) [],
      ob_provider_run_id = nullif (po_ProviderRunID obs) [],
      ob_provider_status = nullif (po_ProviderStatus obs) [],
      ob_result_bytes = nullableBytes rawResult,
      ob_result_sha256 = nullif (sha256Hex C rawResult) [],
      ob_result_canonical_digest = nullif (po_ResultDigest obs) [],
      ob_evidence_sha256 = nullif (po_EvidenceDigest obs) [],
      ob_receipt_version = po_ReceiptVersion obs,
      ob_observed_at = now \<rparr>"

definition sqliteInsertObservationRow ::
    "crypto \<Rightarrow> int \<Rightarrow> string \<Rightarrow> observation_kind \<Rightarrow> bytes \<Rightarrow> provider_observation \<Rightarrow> db \<Rightarrow> db" where
  "sqliteInsertObservationRow C now executionID kind rawResult obs d =
    d\<lparr>effect_provider_observations :=
        effect_provider_observations d @ map (observation_row_for C now d kind rawResult obs) (rows_of executionID d)\<rparr>"

text \<open>Nanoseconds to milliseconds, rounding up, at 64 bits.\<close>

definition msDuration :: "int \<Rightarrow> int" where
  "msDuration d = (if d \<le> 0 then 0 else trunc_div (wrap64 (wrap64 (d + 1000000) - 1)) 1000000)"

section \<open>Errors\<close>

datatype store_error =
    LeaseErr lease_error
  | FinalizationConflict
  | ErrNoRows
  | DriverError
  | InvalidTerminalStatus
  | InvalidReceiptVersion
  | MalformedResult json_error
  | ReceiptIdentityMismatch
  | EvidenceRejected evidence_error
  | InvalidTerminalTarget
  | CriticalEvidenceMissing
  | CriticalOutcomeMismatch
  | NoProof
  | RedactionFailed
  | InvalidRetention

section \<open>Provider observations\<close>

definition canonicalizeObservation ::
    "crypto \<Rightarrow> provider_observation \<Rightarrow> store_error + provider_observation" where
  "canonicalizeObservation C obs =
    (if po_ReceiptVersion obs < 0 then Inl InvalidReceiptVersion
     else if length (po_Result obs) = 0 then Inr obs
     else if int (length (po_Result obs)) > MaxResultBytes then Inl (LeaseErr ResultTooLarge)
     else
       (case canonicalizeJSON (po_Result obs) of
          Inl e \<Rightarrow> Inl (MalformedResult e)
        | Inr canonical \<Rightarrow>
            (let computed = sha256_hex C canonical in
             if po_ResultDigest obs \<noteq> [] \<and> po_ResultDigest obs \<noteq> computed
             then Inl (LeaseErr ObservationDigestMismatch)
             else Inr (obs\<lparr>po_Result := canonical, po_ResultDigest := computed\<rparr>))))"

definition providerIdentityContradicts :: "string \<Rightarrow> string \<Rightarrow> string \<Rightarrow> string \<Rightarrow> bool" where
  "providerIdentityContradicts storedID suppliedID storedRunID suppliedRunID \<longleftrightarrow>
    (storedID \<noteq> [] \<and> suppliedID \<noteq> [] \<and> storedID \<noteq> suppliedID)
    \<or> (storedRunID \<noteq> [] \<and> suppliedRunID \<noteq> [] \<and> storedRunID \<noteq> suppliedRunID)"

section \<open>Evidence policy\<close>

datatype evidence_outcome = EvidenceOutcomeCompleted | EvidenceOutcomeNoEffect

record verified_evidence =
  ve_EvidenceDigest :: string
  ve_ReceiptVersion :: int
  ve_ProviderID :: string
  ve_ProviderRunID :: string
  ve_Outcome :: evidence_outcome
  ve_ExecutionID :: string
  ve_RequestDigest :: string

text \<open>An evidence verifier; \<open>Inr None\<close> is Go's nil result without an error.\<close>

type_synonym verifier =
  "Record \<Rightarrow> terminal_receipt \<Rightarrow> state \<Rightarrow> evidence_error + verified_evidence option"

definition receipt_binding :: "Record \<Rightarrow> terminal_receipt \<Rightarrow> string \<Rightarrow> binding" where
  "receipt_binding rec receipt out =
    \<lparr> bd_ExecutionID = er_execution_id rec, bd_Capability = er_capability_id rec,
      bd_Principal = er_principal_id rec, bd_RequestDigest = er_request_digest rec,
      bd_ProviderID = tr_ProviderID receipt, bd_ProviderRunID = tr_ProviderRunID receipt,
      bd_Outcome = out, bd_EvidenceSHA256 = tr_EvidenceDigest receipt \<rparr>"

definition signedReceiptVerifier :: "crypto \<Rightarrow> string list \<Rightarrow> verifier" where
  "signedReceiptVerifier C trustedSigners rec receipt target =
    (let out = (if target = StateFailed then OutcomeNoEffect else OutcomeCompleted);
         verifiedOutcome = (if target = StateFailed then EvidenceOutcomeNoEffect else EvidenceOutcomeCompleted) in
     if tr_EvidenceDigest receipt = [] \<or> \<not> isValidEvidenceDigest (tr_EvidenceDigest receipt)
     then Inl ReceiptInvalidField
     else if tr_ReceiptVersion receipt \<noteq> 3 then Inl ReceiptInvalidField
     else if tr_ProviderID receipt = [] then Inl ReceiptInvalidField
     else if out = OutcomeCompleted \<and> tr_ProviderRunID receipt = [] then Inl ReceiptInvalidField
     else
       (case VerifyReceipt C (tr_EvidenceReceipt receipt) (receipt_binding rec receipt out) trustedSigners of
          Some e \<Rightarrow> Inl e
        | None \<Rightarrow>
            Inr (Some \<lparr> ve_EvidenceDigest = tr_EvidenceDigest receipt,
                        ve_ReceiptVersion = tr_ReceiptVersion receipt,
                        ve_ProviderID = tr_ProviderID receipt,
                        ve_ProviderRunID = tr_ProviderRunID receipt,
                        ve_Outcome = verifiedOutcome,
                        ve_ExecutionID = er_execution_id rec,
                        ve_RequestDigest = er_request_digest rec \<rparr>)))"

definition ValidateTerminalTransition ::
    "Record \<Rightarrow> state \<Rightarrow> terminal_receipt \<Rightarrow> verified_evidence option \<Rightarrow> store_error option" where
  "ValidateTerminalTransition rec target receipt verified =
    (if target \<noteq> StateCommitted \<and> target \<noteq> StateFailed then Some InvalidTerminalTarget
     else if er_execution_class rec = ''CRITICAL'' then
       (case verified of
          None \<Rightarrow> Some CriticalEvidenceMissing
        | Some v \<Rightarrow>
            (let want = (if target = StateFailed then EvidenceOutcomeNoEffect else EvidenceOutcomeCompleted) in
             if ve_Outcome v \<noteq> want then Some CriticalOutcomeMismatch else None))
     else if tr_EvidenceDigest receipt = [] \<and> length (tr_CanonicalResult receipt) = 0 then Some NoProof
     else None)"

section \<open>Store configuration\<close>

record store =
  st_leaseCfg :: lease_config
  st_epoch :: int
  st_trustedSigners :: "string list"
  st_verifier :: "verifier option"
  st_locatorRedactor :: "(bytes \<Rightarrow> bytes option) option"
  st_leaseOwner :: string
  st_crypto :: crypto
  st_unicode :: unicode

definition evidenceVerifier :: "store \<Rightarrow> verifier" where
  "evidenceVerifier s =
    (case st_verifier s of
       Some v \<Rightarrow> v
     | None \<Rightarrow> signedReceiptVerifier (st_crypto s) (st_trustedSigners s))"

definition SetLocatorRedactor :: "(bytes \<Rightarrow> bytes option) option \<Rightarrow> store \<Rightarrow> store" where
  "SetLocatorRedactor f s = s\<lparr>st_locatorRedactor := f\<rparr>"

definition SetEvidenceVerifier :: "verifier option \<Rightarrow> store \<Rightarrow> store" where
  "SetEvidenceVerifier v s = s\<lparr>st_verifier := v\<rparr>"

definition SetTrustedEvidenceSigners :: "string list \<Rightarrow> store \<Rightarrow> store" where
  "SetTrustedEvidenceSigners fingerprints s = s\<lparr>st_trustedSigners := fingerprints\<rparr>"

end
