(* ===== verification/SqliteTx.thy ===== *)
theory SqliteTx
  imports StoreTypes
begin

text \<open>
  The write transactions of \<^verbatim>\<open>internal/idempotency/sqlite.go\<close>.  SQLite runs them under
  \<^verbatim>\<open>BEGIN IMMEDIATE\<close>, so each is one atomic step of the database: a function of the database
  clock and the database.  \<open>TxNoRows\<close> is a guarded statement that matched no row (the code rolls back
  and classifies the failure), \<open>TxError\<close> a constraint violation, \<open>TxCommit\<close> a commit.

  The \<open>WHERE\<close> clause of every statement is a predicate on rows and its \<open>SET\<close> list a record update,
  column by column; \<open>epochGuard\<close> is the fragment each mutation carries.
\<close>

datatype 'a tx = TxNoRows | TxError | TxCommit db 'a

definition epochGuard :: "int \<Rightarrow> db \<Rightarrow> bool" where
  "epochGuard epoch d \<longleftrightarrow> cm_epoch d = epoch"

text \<open>\<open>UPDATE execution_requests SET f WHERE p\<close>, continued by \<open>k\<close> when some row matched.\<close>

definition guarded_update ::
    "(exec_row \<Rightarrow> bool) \<Rightarrow> (exec_row \<Rightarrow> exec_row) \<Rightarrow> (db \<Rightarrow> 'a tx) \<Rightarrow> db \<Rightarrow> 'a tx" where
  "guarded_update p f k d =
    (if rows_affected p (execution_requests d) = 0 then TxNoRows
     else k (d\<lparr>execution_requests := update_where p f (execution_requests d)\<rparr>))"

definition commit_event :: "int \<Rightarrow> string \<Rightarrow> effect_event_payload \<Rightarrow> db \<Rightarrow> unit tx" where
  "commit_event now executionID ev d = TxCommit (sqliteInsertEffectEvent now executionID ev d) ()"

section \<open>Acquisition\<close>

definition new_row ::
    "string \<Rightarrow> string \<Rightarrow> string \<Rightarrow> string \<Rightarrow> string \<Rightarrow> authority_binding \<Rightarrow> string \<Rightarrow> string \<Rightarrow> string
      \<Rightarrow> int option \<Rightarrow> int option \<Rightarrow> int \<Rightarrow> int \<Rightarrow> exec_row" where
  "new_row genID key principalID capability digest authority klass owner token startedAt expiresAt now epoch =
    \<lparr> er_execution_id = genID, er_idempotency_key = key, er_principal_id = principalID,
      er_capability_id = capability, er_request_digest = digest,
      er_grant_id = nullableString (ab_Ref authority), er_execution_class = klass,
      er_state = StatePrepared, er_result = None, er_evidence_digest = None, er_receipt_version = 0,
      er_lease_owner = Some owner, er_lease_token = Some token,
      er_lease_started_at = startedAt, er_lease_expires_at = expiresAt,
      er_lease_generation = 1, er_provider_id = None, er_provider_run_id = None,
      er_provider_status = None, er_provider_result = None, er_provider_result_digest = None,
      er_provider_receipt_version = 0, er_provider_observed_at = None,
      er_terminal_receipt_digest = None, er_evidence_receipt = None, er_recovery_locator = None,
      er_attempt = 0, er_version = 1, er_created_at = now, er_updated_at = now,
      er_reconcile_owner = None, er_reconcile_lease_expires_at = None, er_reconcile_attempt = 0,
      er_next_reconcile_at = None, er_last_reconcile_error = None, er_entered_unknown_at = None,
      er_authority_generation = Some (ab_Generation authority),
      er_authority_digest = nullableString (ab_Digest authority),
      er_provider_evidence_digest = None, er_terminal_result_digest = None,
      er_terminal_evidence_digest = None, er_admitted_epoch = Some epoch \<rparr>"

definition key_of :: "exec_row \<Rightarrow> string \<times> string \<times> string" where
  "key_of er = (er_principal_id er, er_capability_id er, er_idempotency_key er)"

text \<open>The guarded \<open>INSERT\<close> of \<open>AcquireWithAuthority\<close> and its \<open>ACQUIRED\<close> event.\<close>

definition tx_insert ::
    "store \<Rightarrow> string \<Rightarrow> string \<Rightarrow> string \<Rightarrow> string \<Rightarrow> string \<Rightarrow> authority_binding \<Rightarrow> string \<Rightarrow> string \<Rightarrow> int
      \<Rightarrow> int \<Rightarrow> db \<Rightarrow> int tx" where
  "tx_insert s genID key principalID capability digest authority klass token dur now d =
    (if \<not> epochGuard (st_epoch s) d \<or> cm_recovery_required d then TxNoRows
     else if (principalID, capability, key) \<in> set (map key_of (execution_requests d)) then TxNoRows
     else if genID \<in> set (map er_execution_id (execution_requests d)) then TxError
     else
       (let er = new_row genID key principalID capability digest authority klass (st_leaseOwner s) token
                   (Some now) (Some (now + msDuration dur)) now (cm_epoch d);
            d1 = d\<lparr>execution_requests := execution_requests d @ [er]\<rparr> in
        TxCommit
          (sqliteInsertEffectEvent now genID
             ((effectEvent EventAcquired)\<lparr>actor := st_leaseOwner s, newState := Some StatePrepared,
                claimGeneration := 1\<rparr>) d1)
          now))"

definition tx_acquireUnleased :: "store \<Rightarrow> Record \<Rightarrow> string \<Rightarrow> int \<Rightarrow> int \<Rightarrow> db \<Rightarrow> unit tx" where
  "tx_acquireUnleased s rec newToken dur now d =
    guarded_update
      (\<lambda>er. er_execution_id er = er_execution_id rec
            \<and> er_state er = StatePrepared
            \<and> er_lease_token er = None
            \<and> er_lease_expires_at er = None
            \<and> er_version er = er_version rec
            \<and> epochGuard (st_epoch s) d)
      (\<lambda>er. er\<lparr>er_lease_owner := Some (st_leaseOwner s), er_lease_token := Some newToken,
               er_lease_started_at := Some now,
               er_lease_expires_at := Some (now + msDuration dur),
               er_lease_generation := er_lease_generation er + 1,
               er_version := er_version er + 1, er_updated_at := now\<rparr>)
      (commit_event now (er_execution_id rec)
         ((effectEvent EventLeaseAcquired)\<lparr>actor := st_leaseOwner s,
            previousState := Some StatePrepared, newState := Some StatePrepared,
            claimGeneration := er_lease_generation rec + 1\<rparr>)) d"

definition tx_reclaimExpiredLease :: "store \<Rightarrow> Record \<Rightarrow> string \<Rightarrow> int \<Rightarrow> int \<Rightarrow> db \<Rightarrow> unit tx" where
  "tx_reclaimExpiredLease s rec newToken dur now d =
    guarded_update
      (\<lambda>er. er_execution_id er = er_execution_id rec
            \<and> er_version er = er_version rec
            \<and> er_state er \<in> {StatePrepared, StateExecuting}
            \<and> sql_lt (er_lease_expires_at er) now
            \<and> \<not> cm_recovery_required d
            \<and> epochGuard (st_epoch s) d)
      (\<lambda>er. er\<lparr>er_lease_owner := Some (st_leaseOwner s), er_lease_token := Some newToken,
               er_lease_started_at := Some now,
               er_lease_expires_at := Some (now + msDuration dur),
               er_lease_generation := er_lease_generation er + 1,
               er_attempt := er_attempt er + 1, er_version := er_version er + 1,
               er_state := StatePrepared, er_updated_at := now\<rparr>)
      (commit_event now (er_execution_id rec)
         ((effectEvent EventLeaseAcquired)\<lparr>actor := st_leaseOwner s,
            previousState := Some (er_state rec), newState := Some StatePrepared,
            claimGeneration := er_lease_generation rec + 1,
            metadata := ''expired lease reclaimed''\<rparr>)) d"

definition to_unknown :: "int \<Rightarrow> exec_row \<Rightarrow> exec_row" where
  "to_unknown now er =
    er\<lparr>er_state := StateUnknown, er_version := er_version er + 1,
       er_lease_owner := None, er_lease_token := None,
       er_lease_started_at := None, er_lease_expires_at := None,
       er_reconcile_owner := None, er_reconcile_lease_expires_at := None,
       er_entered_unknown_at := Some now, er_updated_at := now\<rparr>"

definition tx_markInFlightExpiredAsUnknown :: "store \<Rightarrow> Record \<Rightarrow> string \<Rightarrow> int \<Rightarrow> db \<Rightarrow> unit tx" where
  "tx_markInFlightExpiredAsUnknown s rec act now d =
    guarded_update
      (\<lambda>er. er_execution_id er = er_execution_id rec
            \<and> er_version er = er_version rec
            \<and> er_state er = StateInFlight
            \<and> sql_lt (er_lease_expires_at er) now
            \<and> epochGuard (st_epoch s) d)
      (to_unknown now)
      (commit_event now (er_execution_id rec)
         ((effectEvent EventEnteredUnknown)\<lparr>actor := act,
            previousState := Some StateInFlight, newState := Some StateUnknown,
            metadata := ''lease expired in flight''\<rparr>)) d"

section \<open>Lease-fenced transitions\<close>

text \<open>The fence every lease holder's write carries: token, generation and expiry by database time.\<close>

definition lease_fence :: "string \<Rightarrow> int \<Rightarrow> int \<Rightarrow> exec_row \<Rightarrow> bool" where
  "lease_fence token generation now er \<longleftrightarrow>
    sql_eq (er_lease_token er) token
    \<and> er_lease_generation er = generation
    \<and> sql_gt (er_lease_expires_at er) now"

definition tx_leaseFencedTransition ::
    "store \<Rightarrow> string \<Rightarrow> string \<Rightarrow> int \<Rightarrow> state \<Rightarrow> state \<Rightarrow> int \<Rightarrow> db \<Rightarrow> unit tx" where
  "tx_leaseFencedTransition s executionID token generation expectedState toState now d =
    guarded_update
      (\<lambda>er. er_execution_id er = executionID
            \<and> er_state er = expectedState
            \<and> lease_fence token generation now er
            \<and> epochGuard (st_epoch s) d)
      (\<lambda>er. er\<lparr>er_state := toState, er_version := er_version er + 1, er_updated_at := now\<rparr>)
      (commit_event now executionID
         ((effectEvent EventExecutionBegun)\<lparr>previousState := Some expectedState,
            newState := Some toState, claimGeneration := generation\<rparr>)) d"

definition tx_MarkInFlight ::
    "store \<Rightarrow> string \<Rightarrow> string \<Rightarrow> int \<Rightarrow> string \<Rightarrow> bytes \<Rightarrow> int \<Rightarrow> db \<Rightarrow> unit tx" where
  "tx_MarkInFlight s executionID token generation providerID recoveryLocator now d =
    guarded_update
      (\<lambda>er. er_execution_id er = executionID
            \<and> er_state er = StateExecuting
            \<and> lease_fence token generation now er
            \<and> epochGuard (st_epoch s) d)
      (\<lambda>er. er\<lparr>er_state := StateInFlight, er_version := er_version er + 1,
               er_provider_id := nullableString providerID,
               er_recovery_locator := nullableString recoveryLocator,
               er_updated_at := now\<rparr>)
      (commit_event now executionID
         ((effectEvent EventDispatchStarted)\<lparr>previousState := Some StateExecuting,
            newState := Some StateInFlight, claimGeneration := generation\<rparr>)) d"

definition tx_RenewLease ::
    "store \<Rightarrow> string \<Rightarrow> string \<Rightarrow> int \<Rightarrow> int \<Rightarrow> int \<Rightarrow> db \<Rightarrow> unit tx" where
  "tx_RenewLease s executionID token generation dur now d =
    guarded_update
      (\<lambda>er. er_execution_id er = executionID
            \<and> lease_fence token generation now er
            \<and> er_state er \<notin> {StateCommitted, StateFailed, StateDenied, StateUnknown}
            \<and> epochGuard (st_epoch s) d)
      (\<lambda>er. er\<lparr>er_lease_expires_at := map_option (\<lambda>t. max t (now + msDuration dur)) (er_lease_expires_at er),
               er_updated_at := now\<rparr>)
      (commit_event now executionID
         ((effectEvent EventLeaseRenewed)\<lparr>claimGeneration := generation\<rparr>)) d"

definition tx_AbandonPreDispatch :: "store \<Rightarrow> string \<Rightarrow> string \<Rightarrow> int \<Rightarrow> int \<Rightarrow> db \<Rightarrow> unit tx" where
  "tx_AbandonPreDispatch s executionID token generation now d =
    guarded_update
      (\<lambda>er. er_execution_id er = executionID
            \<and> er_state er \<in> {StatePrepared, StateExecuting}
            \<and> lease_fence token generation now er
            \<and> epochGuard (st_epoch s) d)
      (\<lambda>er. er\<lparr>er_state := StatePrepared, er_version := er_version er + 1,
               er_lease_owner := None, er_lease_token := None,
               er_lease_started_at := None, er_lease_expires_at := None,
               er_updated_at := now\<rparr>)
      (commit_event now executionID
         ((effectEvent EventAbandonedPreDispatch)\<lparr>newState := Some StatePrepared,
            claimGeneration := generation\<rparr>)) d"

section \<open>Finalisation\<close>

definition tx_Finalize ::
    "store \<Rightarrow> string \<Rightarrow> string \<Rightarrow> int \<Rightarrow> state \<Rightarrow> terminal_receipt \<Rightarrow> string \<Rightarrow> int \<Rightarrow> int \<Rightarrow> db \<Rightarrow> unit tx" where
  "tx_Finalize s executionID token generation expectedState receipt receiptDigest existingVersion now d =
    (let providerID = nullableString (tr_ProviderID receipt);
         providerRunID = nullableString (tr_ProviderRunID receipt);
         terminalResultSHA = sha256Hex (st_crypto s) (tr_CanonicalResult receipt) in
     guarded_update
       (\<lambda>er. er_execution_id er = executionID
             \<and> er_state er = expectedState
             \<and> lease_fence token generation now er
             \<and> er_version er = existingVersion
             \<and> col_agrees (er_provider_id er) providerID
             \<and> col_agrees (er_provider_run_id er) providerRunID
             \<and> epochGuard (st_epoch s) d)
       (\<lambda>er. er\<lparr>er_state := tr_TerminalStatus receipt,
                er_result := nullableString (tr_CanonicalResult receipt),
                er_evidence_digest := nullableString (tr_EvidenceDigest receipt),
                er_receipt_version := tr_ReceiptVersion receipt,
                er_provider_id := coalesce providerID (er_provider_id er),
                er_provider_run_id := coalesce providerRunID (er_provider_run_id er),
                er_terminal_receipt_digest := Some receiptDigest,
                er_evidence_receipt := nullableString (tr_EvidenceReceipt receipt),
                er_terminal_result_digest := nullableString terminalResultSHA,
                er_terminal_evidence_digest := nullableString (tr_EvidenceDigest receipt),
                er_lease_owner := None, er_lease_token := None,
                er_lease_started_at := None, er_lease_expires_at := None,
                er_recovery_locator := None,
                er_version := er_version er + 1, er_updated_at := now\<rparr>)
       (commit_event now executionID
          ((effectEvent EventTerminalResolved)\<lparr>previousState := Some expectedState,
             newState := Some (tr_TerminalStatus receipt), resultDigest := terminalResultSHA,
             evidenceDigest := tr_EvidenceDigest receipt, claimGeneration := generation\<rparr>)) d)"

section \<open>Recovery\<close>

definition tx_EnterRecovery :: "store \<Rightarrow> string \<Rightarrow> state \<Rightarrow> int \<Rightarrow> int \<Rightarrow> db \<Rightarrow> unit tx" where
  "tx_EnterRecovery s executionID expectedState expectedVersion now d =
    guarded_update
      (\<lambda>er. er_execution_id er = executionID
            \<and> er_state er = expectedState
            \<and> er_version er = expectedVersion
            \<and> epochGuard (st_epoch s) d)
      (to_unknown now)
      (commit_event now executionID
         ((effectEvent EventEnteredUnknown)\<lparr>previousState := Some expectedState,
            newState := Some StateUnknown\<rparr>)) d"

text \<open>The monotonicity guards of an observation and the columns it fills in.\<close>

definition observation_agrees :: "provider_observation \<Rightarrow> exec_row \<Rightarrow> bool" where
  "observation_agrees obs er \<longleftrightarrow>
    col_agrees (er_provider_id er) (nullableString (po_ProviderID obs))
    \<and> col_agrees (er_provider_run_id er) (nullableString (po_ProviderRunID obs))
    \<and> col_agrees (er_provider_status er) (nullableString (po_ProviderStatus obs))
    \<and> col_agrees (er_result er) (nullableString (po_Result obs))
    \<and> col_agrees (er_provider_result er) (nullableString (po_Result obs))
    \<and> col_agrees (er_provider_result_digest er) (nullableString (po_ResultDigest obs))
    \<and> (er_provider_receipt_version er = 0 \<or> nullif (po_ReceiptVersion obs) 0 = None
       \<or> er_provider_receipt_version er = po_ReceiptVersion obs)
    \<and> col_agrees (er_evidence_digest er) (nullableString (po_EvidenceDigest obs))
    \<and> col_agrees (er_provider_evidence_digest er) (nullableString (po_EvidenceDigest obs))"

definition set_observation :: "int \<Rightarrow> provider_observation \<Rightarrow> exec_row \<Rightarrow> exec_row" where
  "set_observation now obs er =
    er\<lparr>er_provider_id := coalesce (nullableString (po_ProviderID obs)) (er_provider_id er),
       er_provider_run_id := coalesce (nullableString (po_ProviderRunID obs)) (er_provider_run_id er),
       er_provider_status := coalesce (nullableString (po_ProviderStatus obs)) (er_provider_status er),
       er_result := coalesce (nullableString (po_Result obs)) (er_result er),
       er_provider_result := coalesce (nullableString (po_Result obs)) (er_provider_result er),
       er_provider_result_digest := coalesce (nullableString (po_ResultDigest obs)) (er_provider_result_digest er),
       er_provider_receipt_version :=
         coalesce_to (er_provider_receipt_version er) (nullif (po_ReceiptVersion obs) 0),
       er_provider_observed_at := Some now,
       er_evidence_digest := coalesce (nullableString (po_EvidenceDigest obs)) (er_evidence_digest er),
       er_provider_evidence_digest :=
         coalesce (nullableString (po_EvidenceDigest obs)) (er_provider_evidence_digest er),
       er_updated_at := now\<rparr>"

definition tx_EnterRecoveryWithObservation ::
    "store \<Rightarrow> string \<Rightarrow> state \<Rightarrow> int \<Rightarrow> bytes \<Rightarrow> provider_observation \<Rightarrow> int \<Rightarrow> db \<Rightarrow> unit tx" where
  "tx_EnterRecoveryWithObservation s executionID expectedState expectedVersion rawResult obs now d =
    guarded_update
      (\<lambda>er. er_execution_id er = executionID
            \<and> er_state er = expectedState
            \<and> er_version er = expectedVersion
            \<and> observation_agrees obs er
            \<and> epochGuard (st_epoch s) d)
      (\<lambda>er. set_observation now obs (to_unknown now er))
      (\<lambda>d1. commit_event now executionID
         ((effectEvent EventEnteredUnknown)\<lparr>previousState := Some expectedState,
            newState := Some StateUnknown, resultDigest := po_ResultDigest obs,
            evidenceDigest := po_EvidenceDigest obs\<rparr>)
         (sqliteInsertObservationRow (st_crypto s) now executionID ObservationRecovery rawResult obs d1)) d"

text \<open>
  A dispatch observation is fenced by the lease token and generation of an in-flight record, but not
  by its expiry; a record in recovery takes it from anyone.  The ledger entry's kind follows the
  state read back inside the transaction.
\<close>

definition tx_RecordProviderObservation ::
    "store \<Rightarrow> string \<Rightarrow> string \<Rightarrow> int \<Rightarrow> bytes \<Rightarrow> provider_observation \<Rightarrow> int \<Rightarrow> db \<Rightarrow> unit tx" where
  "tx_RecordProviderObservation s executionID token generation rawResult obs now d =
    guarded_update
      (\<lambda>er. er_execution_id er = executionID
            \<and> (er_state er = StateInFlight \<and> nullableString token \<noteq> None
                 \<and> er_lease_token er = nullableString token \<and> er_lease_generation er = generation
               \<or> er_state er = StateUnknown)
            \<and> observation_agrees obs er
            \<and> epochGuard (st_epoch s) d)
      (set_observation now obs)
      (\<lambda>d1. case rows_of executionID d1 of
              [] \<Rightarrow> TxError
            | er # _ \<Rightarrow>
                commit_event now executionID
                  ((effectEvent (if er_state er = StateUnknown then EventReconciliationObserved
                                 else EventProviderObserved))
                     \<lparr>resultDigest := po_ResultDigest obs, evidenceDigest := po_EvidenceDigest obs,
                      claimGeneration := generation\<rparr>)
                  (sqliteInsertObservationRow (st_crypto s) now executionID
                     (if er_state er = StateUnknown then ObservationReconciliation else ObservationDispatch)
                     rawResult obs d1)) d"

definition tx_RecoverExpiredPreDispatch :: "store \<Rightarrow> string \<Rightarrow> int \<Rightarrow> int \<Rightarrow> db \<Rightarrow> unit tx" where
  "tx_RecoverExpiredPreDispatch s executionID expectedVersion now d =
    guarded_update
      (\<lambda>er. er_execution_id er = executionID
            \<and> er_state er \<in> {StatePrepared, StateExecuting}
            \<and> er_version er = expectedVersion
            \<and> er_lease_expires_at er \<noteq> None
            \<and> sql_lt (er_lease_expires_at er) now
            \<and> epochGuard (st_epoch s) d)
      (\<lambda>er. er\<lparr>er_state := StatePrepared,
               er_lease_owner := None, er_lease_token := None,
               er_lease_started_at := None, er_lease_expires_at := None,
               er_reconcile_owner := None, er_reconcile_lease_expires_at := None,
               er_next_reconcile_at := None,
               er_version := er_version er + 1, er_updated_at := now\<rparr>)
      (commit_event now executionID
         ((effectEvent EventLeaseLost)\<lparr>newState := Some StatePrepared,
            metadata := ''expired pre-dispatch lease recovered''\<rparr>)) d"

definition scrub_due :: "store \<Rightarrow> int \<Rightarrow> int \<Rightarrow> db \<Rightarrow> exec_row \<Rightarrow> bool" where
  "scrub_due s olderThan now d er \<longleftrightarrow>
    er_state er = StateUnknown
    \<and> er_recovery_locator er \<noteq> None
    \<and> coalesce_to (er_created_at er) (er_entered_unknown_at er) < now - msDuration olderThan
    \<and> epochGuard (st_epoch s) d"

definition tx_ScrubStaleRecoveryLocators :: "store \<Rightarrow> int \<Rightarrow> int \<Rightarrow> db \<Rightarrow> nat tx" where
  "tx_ScrubStaleRecoveryLocators s olderThan now d =
    TxCommit
      (d\<lparr>execution_requests :=
           update_where (scrub_due s olderThan now d) (\<lambda>er. er\<lparr>er_recovery_locator := None\<rparr>)
             (execution_requests d)\<rparr>)
      (rows_affected (scrub_due s olderThan now d) (execution_requests d))"

text \<open>\<open>RecoveryUnknown\<close> only touches the record.\<close>

definition tx_ResolveUnknown :: "store \<Rightarrow> string \<Rightarrow> int \<Rightarrow> int \<Rightarrow> db \<Rightarrow> unit tx" where
  "tx_ResolveUnknown s executionID expectedVersion now d =
    guarded_update
      (\<lambda>er. er_execution_id er = executionID \<and> er_state er = StateUnknown
            \<and> er_version er = expectedVersion \<and> epochGuard (st_epoch s) d)
      (\<lambda>er. er\<lparr>er_updated_at := now\<rparr>)
      (\<lambda>d1. TxCommit d1 ()) d"

definition tx_ResolveRecovery ::
    "store \<Rightarrow> string \<Rightarrow> int \<Rightarrow> state \<Rightarrow> recovery_result \<Rightarrow> provider_observation \<Rightarrow> string \<Rightarrow> int \<Rightarrow> db \<Rightarrow> unit tx" where
  "tx_ResolveRecovery s executionID expectedVersion toState res robs receiptDigest now d =
    (let providerID = nullableString (rr_ProviderID res);
         providerRunID = nullableString (rr_ProviderRunID res);
         terminalResultSHA = sha256Hex (st_crypto s) (rr_Result res) in
     guarded_update
       (\<lambda>er. er_execution_id er = executionID \<and> er_state er = StateUnknown
             \<and> er_version er = expectedVersion
             \<and> col_agrees (er_provider_id er) providerID
             \<and> col_agrees (er_provider_run_id er) providerRunID
             \<and> epochGuard (st_epoch s) d)
       (\<lambda>er. er\<lparr>er_state := toState,
                er_result := coalesce (nullableString (rr_Result res)) (er_result er),
                er_evidence_digest := coalesce (nullableString (rr_EvidenceDigest res)) (er_evidence_digest er),
                er_receipt_version := rr_ReceiptVersion res,
                er_provider_id := coalesce providerID (er_provider_id er),
                er_provider_run_id := coalesce providerRunID (er_provider_run_id er),
                er_terminal_receipt_digest := Some receiptDigest,
                er_evidence_receipt := nullableString (rr_EvidenceReceipt res),
                er_terminal_result_digest := nullableString terminalResultSHA,
                er_terminal_evidence_digest := nullableString (rr_EvidenceDigest res),
                er_reconcile_owner := None, er_reconcile_lease_expires_at := None,
                er_next_reconcile_at := None, er_last_reconcile_error := None,
                er_recovery_locator := None,
                er_version := er_version er + 1, er_updated_at := now\<rparr>)
       (\<lambda>d1. commit_event now executionID
          ((effectEvent EventTerminalResolved)\<lparr>previousState := Some StateUnknown,
             newState := Some toState, resultDigest := terminalResultSHA,
             evidenceDigest := rr_EvidenceDigest res\<rparr>)
          (if rr_ProviderID res \<noteq> [] \<or> rr_ProviderRunID res \<noteq> []
              \<or> length (rr_Result res) > 0 \<or> rr_EvidenceDigest res \<noteq> []
           then sqliteInsertObservationRow (st_crypto s) now executionID ObservationReconciliation
                  (rr_Result res) robs d1
           else d1)) d)"

section \<open>Reconciliation work distribution\<close>

text \<open>The candidates of a claim: \<open>ORDER BY updated_at LIMIT n\<close> over the rows that satisfy \<open>p\<close>.\<close>

definition claim_candidates :: "(exec_row \<Rightarrow> bool) \<Rightarrow> nat \<Rightarrow> db \<Rightarrow> string list" where
  "claim_candidates p n d =
    map er_execution_id (take n (sort_key er_updated_at (filter p (execution_requests d))))"

definition claim_free :: "int \<Rightarrow> exec_row \<Rightarrow> bool" where
  "claim_free now er \<longleftrightarrow> er_reconcile_owner er = None \<or> sql_lt (er_reconcile_lease_expires_at er) now"

definition unknown_claimable :: "int \<Rightarrow> exec_row \<Rightarrow> bool" where
  "unknown_claimable now er \<longleftrightarrow>
    er_state er = StateUnknown
    \<and> claim_free now er
    \<and> (er_next_reconcile_at er = None \<or> sql_le (er_next_reconcile_at er) now)"

definition expired_claimable :: "int \<Rightarrow> exec_row \<Rightarrow> bool" where
  "expired_claimable now er \<longleftrightarrow>
    er_state er \<in> {StatePrepared, StateExecuting, StateInFlight}
    \<and> er_lease_expires_at er \<noteq> None
    \<and> sql_lt (er_lease_expires_at er) now
    \<and> claim_free now er"

text \<open>\<open>UPDATE ... WHERE execution_id IN (...) RETURNING ...\<close>, then one event per claimed row.\<close>

definition claim_batch ::
    "store \<Rightarrow> (exec_row \<Rightarrow> bool) \<Rightarrow> (exec_row \<Rightarrow> exec_row) \<Rightarrow> (exec_row \<Rightarrow> effect_event_payload) \<Rightarrow> nat \<Rightarrow> int
      \<Rightarrow> db \<Rightarrow> Record list tx" where
  "claim_batch s p f ev n now d =
    (let ids = claim_candidates p n d;
         hit = (\<lambda>er. er_execution_id er \<in> set ids \<and> epochGuard (st_epoch s) d);
         recs = map f (filter hit (execution_requests d));
         d1 = d\<lparr>execution_requests := update_where hit f (execution_requests d)\<rparr> in
     if recs = [] then TxNoRows
     else TxCommit (fold (\<lambda>r. sqliteInsertEffectEvent now (er_execution_id r) (ev r)) recs d1) recs)"

definition tx_ClaimUnknownBatch :: "store \<Rightarrow> string \<Rightarrow> nat \<Rightarrow> int \<Rightarrow> int \<Rightarrow> db \<Rightarrow> Record list tx" where
  "tx_ClaimUnknownBatch s owner n claimDuration now d =
    claim_batch s (unknown_claimable now)
      (\<lambda>er. er\<lparr>er_reconcile_owner := Some owner,
               er_reconcile_lease_expires_at := Some (now + msDuration claimDuration),
               er_reconcile_attempt := er_reconcile_attempt er + 1,
               er_version := er_version er + 1, er_updated_at := now\<rparr>)
      (\<lambda>r. (effectEvent EventReconciliationClaimed)\<lparr>actor := owner,
              previousState := Some StateUnknown, claimGeneration := er_reconcile_attempt r\<rparr>)
      n now d"

definition tx_ClaimExpiredBatch :: "store \<Rightarrow> string \<Rightarrow> nat \<Rightarrow> int \<Rightarrow> int \<Rightarrow> db \<Rightarrow> Record list tx" where
  "tx_ClaimExpiredBatch s owner n claimDuration now d =
    claim_batch s (expired_claimable now)
      (\<lambda>er. er\<lparr>er_reconcile_owner := Some owner,
               er_reconcile_lease_expires_at := Some (now + msDuration claimDuration),
               er_version := er_version er + 1, er_updated_at := now\<rparr>)
      (\<lambda>r. (effectEvent EventLeaseLost)\<lparr>actor := owner, previousState := Some (er_state r),
              claimGeneration := er_lease_generation r,
              metadata := ''lease expired; claimed for recovery''\<rparr>)
      n now d"

definition tx_ReleaseReconcileClaim :: "store \<Rightarrow> string \<Rightarrow> int \<Rightarrow> int \<Rightarrow> string \<Rightarrow> int \<Rightarrow> db \<Rightarrow> unit tx" where
  "tx_ReleaseReconcileClaim s executionID expectedVersion backoffDuration lastError now d =
    guarded_update
      (\<lambda>er. er_execution_id er = executionID \<and> er_version er = expectedVersion
            \<and> epochGuard (st_epoch s) d)
      (\<lambda>er. er\<lparr>er_reconcile_owner := None, er_reconcile_lease_expires_at := None,
               er_next_reconcile_at :=
                 (if er_state er = StateUnknown \<and> msDuration backoffDuration > 0
                  then Some (now + msDuration backoffDuration) else None),
               er_last_reconcile_error := nullableString lastError,
               er_version := er_version er + 1, er_updated_at := now\<rparr>)
      (commit_event now executionID ((effectEvent EventClaimReleased)\<lparr>metadata := lastError\<rparr>)) d"

definition suspend_duration :: int where
  "suspend_duration = 100 * 365 * 24 * 3600 * 10 ^ 9"

definition tx_SuspendReconciliation :: "store \<Rightarrow> string \<Rightarrow> int \<Rightarrow> string \<Rightarrow> int \<Rightarrow> db \<Rightarrow> unit tx" where
  "tx_SuspendReconciliation s executionID expectedVersion reason now d =
    guarded_update
      (\<lambda>er. er_execution_id er = executionID \<and> er_state er = StateUnknown
            \<and> er_version er = expectedVersion \<and> epochGuard (st_epoch s) d)
      (\<lambda>er. er\<lparr>er_reconcile_owner := None, er_reconcile_lease_expires_at := None,
               er_next_reconcile_at := Some (now + msDuration suspend_duration),
               er_last_reconcile_error := nullableString reason,
               er_version := er_version er + 1, er_updated_at := now\<rparr>)
      (commit_event now executionID ((effectEvent EventReconciliationSuspended)\<lparr>metadata := reason\<rparr>)) d"

definition tx_RenewReconcileClaim :: "store \<Rightarrow> string \<Rightarrow> int \<Rightarrow> int \<Rightarrow> int \<Rightarrow> db \<Rightarrow> unit tx" where
  "tx_RenewReconcileClaim s executionID expectedVersion dur now d =
    guarded_update
      (\<lambda>er. er_execution_id er = executionID \<and> er_state er = StateUnknown
            \<and> er_version er = expectedVersion
            \<and> sql_gt (er_reconcile_lease_expires_at er) now
            \<and> epochGuard (st_epoch s) d)
      (\<lambda>er. er\<lparr>er_reconcile_lease_expires_at :=
                 map_option (\<lambda>t. max t (now + msDuration dur)) (er_reconcile_lease_expires_at er),
               er_updated_at := now\<rparr>)
      (commit_event now executionID (effectEvent EventClaimRenewed)) d"

section \<open>Contention hints and the cluster epoch\<close>

definition tx_noteContentionEvent :: "string \<Rightarrow> event_type \<Rightarrow> string \<Rightarrow> int \<Rightarrow> db \<Rightarrow> unit tx" where
  "tx_noteContentionEvent executionID t meta now d =
    commit_event now executionID ((effectEvent t)\<lparr>metadata := meta\<rparr>) d"

definition tx_AdvanceClusterEpoch :: "int \<Rightarrow> string \<Rightarrow> int \<Rightarrow> db \<Rightarrow> unit tx" where
  "tx_AdvanceClusterEpoch expected reason now d =
    (if cm_epoch d = expected then
       TxCommit (d\<lparr>cm_epoch := cm_epoch d + 1, cm_recovery_required := True,
                   cm_recovery_completed_at := None, cm_recovery_resolution := None,
                   cm_advanced_at := Some now, cm_advance_reason := nullableString reason\<rparr>) ()
     else TxNoRows)"

definition tx_CompleteClusterRecovery :: "int \<Rightarrow> string \<Rightarrow> int \<Rightarrow> db \<Rightarrow> unit tx" where
  "tx_CompleteClusterRecovery expected resolution now d =
    (if cm_epoch d = expected then
       TxCommit (d\<lparr>cm_recovery_required := False, cm_recovery_completed_at := Some now,
                   cm_recovery_resolution := nullableString resolution\<rparr>) ()
     else TxNoRows)"

end
