(* ===== verification/SqliteStore.thy ===== *)
theory SqliteStore
  imports SqliteTx
begin

text \<open>
  The methods of \<open>SQLiteStore\<close> (\<^verbatim>\<open>internal/idempotency/sqlite.go\<close>): each is a sequence of
  database accesses with the code's argument checks before it and its failure classification after
  it.

  The world of a method call holds the database, the counters of \<^verbatim>\<open>metrics.go\<close> and a schedule of
  ticks.  Every access takes one tick, which fixes the database clock, what other writers did to the
  database since the previous access, and whether the access fails (before it takes effect, or at
  commit, with or without the commit having taken effect).  An exhausted schedule means no further
  interference and no further faults.  The random lease token and execution identifier are arguments.
\<close>

section \<open>Worlds\<close>

datatype counter =
    acquires | executing | inFlight | committed | failed | unknownEntered | leaseRenewals
  | fenceRejections | observationWrites | observationConflicts | reconcileClaims
  | reconcileResolutions | criticalEvidenceDenied | epochRejections | recoveryRejections
  | leaseLost | reconcileSuspended

datatype fault = NoFault | FaultBefore | FaultCommit bool

record tick =
  tk_now :: int
  tk_others :: "db \<Rightarrow> db"
  tk_fault :: fault

record world =
  w_db :: db
  w_now :: int
  w_metrics :: "counter \<Rightarrow> int"
  w_ticks :: "tick list"

definition next_tick :: "world \<Rightarrow> fault \<times> world" where
  "next_tick w =
    (case w_ticks w of
       [] \<Rightarrow> (NoFault, w)
     | t # ts \<Rightarrow>
         (tk_fault t, w\<lparr>w_ticks := ts, w_now := tk_now t, w_db := tk_others t (w_db w)\<rparr>))"

definition query :: "(int \<Rightarrow> db \<Rightarrow> 'a) \<Rightarrow> world \<Rightarrow> (store_error + 'a) \<times> world" where
  "query q w =
    (case next_tick w of
       (NoFault, w1) \<Rightarrow> (Inr (q (w_now w1) (w_db w1)), w1)
     | (_, w1) \<Rightarrow> (Inl DriverError, w1))"

definition exec_tx :: "(int \<Rightarrow> db \<Rightarrow> 'a tx) \<Rightarrow> world \<Rightarrow> (store_error + 'a option) \<times> world" where
  "exec_tx body w =
    (case next_tick w of
       (FaultBefore, w1) \<Rightarrow> (Inl DriverError, w1)
     | (f, w1) \<Rightarrow>
         (case body (w_now w1) (w_db w1) of
            TxNoRows \<Rightarrow> (Inr None, w1)
          | TxError \<Rightarrow> (Inl DriverError, w1)
          | TxCommit d x \<Rightarrow>
              (case f of
                 NoFault \<Rightarrow> (Inr (Some x), w1\<lparr>w_db := d\<rparr>)
               | FaultCommit applied \<Rightarrow> (Inl DriverError, if applied then w1\<lparr>w_db := d\<rparr> else w1)
               | FaultBefore \<Rightarrow> (Inl DriverError, w1))))"

definition bump_by :: "int \<Rightarrow> counter \<Rightarrow> world \<Rightarrow> world" where
  "bump_by n c w = w\<lparr>w_metrics := (w_metrics w)(c := w_metrics w c + n)\<rparr>"

abbreviation bump :: "counter \<Rightarrow> world \<Rightarrow> world" where
  "bump \<equiv> bump_by 1"

definition Snapshot :: "(counter \<Rightarrow> int) \<Rightarrow> (string \<times> int) list" where
  "Snapshot m =
    [(''effect_acquires_total'', m acquires),
     (''effect_executing_total'', m executing),
     (''effect_in_flight_total'', m inFlight),
     (''effect_committed_total'', m committed),
     (''effect_failed_total'', m failed),
     (''effect_unknown_entered_total'', m unknownEntered),
     (''effect_lease_renewals_total'', m leaseRenewals),
     (''effect_fence_rejections_total'', m fenceRejections),
     (''effect_observation_writes_total'', m observationWrites),
     (''provider_observation_conflicts_total'', m observationConflicts),
     (''reconciliation_claims_total'', m reconcileClaims),
     (''reconciliation_resolutions_total'', m reconcileResolutions),
     (''critical_evidence_rejected_total'', m criticalEvidenceDenied),
     (''cluster_epoch_rejections_total'', m epochRejections),
     (''cluster_recovery_rejections_total'', m recoveryRejections),
     (''effect_lease_lost_total'', m leaseLost),
     (''reconciliation_suspended_total'', m reconcileSuspended)]"

section \<open>Construction, epoch and recovery mode\<close>

text \<open>\<open>NewSQLiteStoreWithConfig\<close> on a database whose schema is in place: the epoch is read once.\<close>

definition NewSQLiteStoreWithConfig ::
    "lease_config \<Rightarrow> string \<Rightarrow> crypto \<Rightarrow> unicode \<Rightarrow> world \<Rightarrow> (store_error + store) \<times> world" where
  "NewSQLiteStoreWithConfig cfg owner C U w =
    (case query (\<lambda>now d. cm_epoch d) w of
       (Inl e, w1) \<Rightarrow> (Inl e, w1)
     | (Inr ep, w1) \<Rightarrow>
         (Inr \<lparr> st_leaseCfg = cfg, st_epoch = ep, st_trustedSigners = [], st_verifier = None,
                st_locatorRedactor = None, st_leaseOwner = owner, st_crypto = C, st_unicode = U \<rparr>, w1))"

definition AdvanceClusterEpoch :: "int \<Rightarrow> string \<Rightarrow> world \<Rightarrow> (store_error + int) \<times> world" where
  "AdvanceClusterEpoch expected reason w =
    (case exec_tx (tx_AdvanceClusterEpoch expected reason) w of
       (Inl e, w1) \<Rightarrow> (Inl e, w1)
     | (Inr None, w1) \<Rightarrow>
         (case query (\<lambda>now d. cm_epoch d) w1 of
            (Inl e, w2) \<Rightarrow> (Inl e, w2)
          | (Inr cur, w2) \<Rightarrow> (Inl (LeaseErr ClusterEpochMismatch), w2))
     | (Inr (Some _), w1) \<Rightarrow> (Inr (expected + 1), w1))"

definition ClusterRecoveryRequired_query :: "world \<Rightarrow> (store_error + bool) \<times> world" where
  "ClusterRecoveryRequired_query w = query (\<lambda>now d. cm_recovery_required d) w"

definition CompleteClusterRecovery :: "int \<Rightarrow> string \<Rightarrow> world \<Rightarrow> store_error option \<times> world" where
  "CompleteClusterRecovery expected resolution w =
    (case exec_tx (tx_CompleteClusterRecovery expected resolution) w of
       (Inl e, w1) \<Rightarrow> (Some e, w1)
     | (Inr None, w1) \<Rightarrow>
         (case query (\<lambda>now d. cm_epoch d) w1 of
            (Inl e, w2) \<Rightarrow> (Some e, w2)
          | (Inr cur, w2) \<Rightarrow> (Some (LeaseErr ClusterEpochMismatch), w2))
     | (Inr (Some _), w1) \<Rightarrow> (None, w1))"

definition checkRecoveryMode :: "world \<Rightarrow> store_error option \<times> world" where
  "checkRecoveryMode w =
    (case query (\<lambda>now d. cm_recovery_required d) w of
       (Inl e, w1) \<Rightarrow> (Some e, w1)
     | (Inr required, w1) \<Rightarrow>
         if required then (Some (LeaseErr ClusterRecoveryRequired), bump recoveryRejections w1)
         else (None, w1))"

definition checkEpoch :: "store \<Rightarrow> world \<Rightarrow> store_error option \<times> world" where
  "checkEpoch s w =
    (case query (\<lambda>now d. cm_epoch d) w of
       (Inl e, w1) \<Rightarrow> (Some e, w1)
     | (Inr cur, w1) \<Rightarrow>
         if cur \<noteq> st_epoch s then (Some (LeaseErr ClusterEpochMismatch), bump epochRejections w1)
         else (None, w1))"

section \<open>Lookup and contention hints\<close>

definition first_row :: "(store_error + Record list) \<times> world \<Rightarrow> (store_error + Record) \<times> world" where
  "first_row r =
    (case r of
       (Inl e, w1) \<Rightarrow> (Inl e, w1)
     | (Inr [], w1) \<Rightarrow> (Inl ErrNoRows, w1)
     | (Inr (er # _), w1) \<Rightarrow> (Inr er, w1))"

definition Lookup :: "string \<Rightarrow> world \<Rightarrow> (store_error + Record) \<times> world" where
  "Lookup executionID w = first_row (query (\<lambda>now d. rows_of executionID d) w)"

definition LookupByKey :: "string \<Rightarrow> string \<Rightarrow> string \<Rightarrow> world \<Rightarrow> (store_error + Record) \<times> world" where
  "LookupByKey principalID capability key w =
    first_row (query (\<lambda>now d. filter (\<lambda>er. key_of er = (principalID, capability, key)) (execution_requests d)) w)"

definition noteContentionEvent :: "string \<Rightarrow> event_type \<Rightarrow> string \<Rightarrow> world \<Rightarrow> world" where
  "noteContentionEvent executionID t meta w =
    snd (exec_tx (tx_noteContentionEvent executionID t meta) (if t = EventLeaseLost then bump leaseLost w else w))"

section \<open>Acquire\<close>

record acquire_result =
  ar_Kind :: acquire_kind
  ar_State :: state
  ar_Record :: Record
  ar_LeaseToken :: string
  ar_Generation :: int

definition Acquired :: "acquire_result \<Rightarrow> bool" where
  "Acquired r \<longleftrightarrow> ar_Kind r = LeaseAcquired \<or> ar_Kind r = LeaseReclaimed"

definition outcome :: "acquire_kind \<Rightarrow> Record \<Rightarrow> acquire_result" where
  "outcome k rec = \<lparr> ar_Kind = k, ar_State = er_state rec, ar_Record = rec, ar_LeaseToken = [], ar_Generation = 0 \<rparr>"

definition leased :: "acquire_kind \<Rightarrow> string \<Rightarrow> Record \<Rightarrow> acquire_result" where
  "leased k token rec =
    \<lparr> ar_Kind = k, ar_State = StatePrepared, ar_Record = rec, ar_LeaseToken = token,
      ar_Generation = er_lease_generation rec \<rparr>"

definition acquireUnleased ::
    "store \<Rightarrow> Record \<Rightarrow> string \<Rightarrow> int \<Rightarrow> world \<Rightarrow> (store_error + Record option) \<times> world" where
  "acquireUnleased s rec newToken dur w =
    (case exec_tx (tx_acquireUnleased s rec newToken dur) w of
       (Inl e, w1) \<Rightarrow> (Inl e, w1)
     | (Inr None, w1) \<Rightarrow>
         (case checkEpoch s w1 of (Some e, w2) \<Rightarrow> (Inl e, w2) | (None, w2) \<Rightarrow> (Inr None, w2))
     | (Inr (Some _), w1) \<Rightarrow>
         (Inr (Some (rec\<lparr>er_lease_owner := Some (st_leaseOwner s), er_lease_token := Some newToken,
                         er_lease_generation := er_lease_generation rec + 1,
                         er_version := er_version rec + 1\<rparr>)), w1))"

definition reclaimExpiredLease ::
    "store \<Rightarrow> Record \<Rightarrow> string \<Rightarrow> int \<Rightarrow> world \<Rightarrow> (store_error + Record option) \<times> world" where
  "reclaimExpiredLease s rec newToken dur w =
    (case exec_tx (tx_reclaimExpiredLease s rec newToken dur) w of
       (Inl e, w1) \<Rightarrow> (Inl e, w1)
     | (Inr None, w1) \<Rightarrow>
         (case checkEpoch s w1 of
            (Some e, w2) \<Rightarrow> (Inl e, w2)
          | (None, w2) \<Rightarrow>
              (case checkRecoveryMode w2 of
                 (Some e, w3) \<Rightarrow> (Inl e, w3)
               | (None, w3) \<Rightarrow> (Inr None, w3)))
     | (Inr (Some _), w1) \<Rightarrow>
         (Inr (Some (rec\<lparr>er_lease_owner := Some (st_leaseOwner s), er_lease_token := Some newToken,
                         er_lease_generation := er_lease_generation rec + 1,
                         er_attempt := er_attempt rec + 1, er_version := er_version rec + 1,
                         er_state := StatePrepared\<rparr>)), w1))"

definition markInFlightExpiredAsUnknown ::
    "store \<Rightarrow> Record \<Rightarrow> string \<Rightarrow> world \<Rightarrow> (store_error + Record option) \<times> world" where
  "markInFlightExpiredAsUnknown s rec act w =
    (case exec_tx (tx_markInFlightExpiredAsUnknown s rec act) w of
       (Inl e, w1) \<Rightarrow> (Inl e, w1)
     | (Inr None, w1) \<Rightarrow>
         (case checkEpoch s w1 of (Some e, w2) \<Rightarrow> (Inl e, w2) | (None, w2) \<Rightarrow> (Inr None, w2))
     | (Inr (Some _), w1) \<Rightarrow>
         (Inr (Some (rec\<lparr>er_state := StateUnknown, er_version := er_version rec + 1\<rparr>)),
          bump unknownEntered w1))"

text \<open>The re-read after a lost race: a final or uncertain record ends the acquisition.\<close>

definition settled :: "Record \<Rightarrow> acquire_result option" where
  "settled rec =
    (if IsDurablyFinal (er_state rec) then Some (outcome TerminalReplay rec)
     else if er_state rec = StateUnknown then Some (outcome RecoveryRequired rec)
     else None)"

definition refetch ::
    "string \<times> string \<times> string \<Rightarrow> (Record \<Rightarrow> world \<Rightarrow> (store_error + acquire_result) \<times> world) \<Rightarrow> world
      \<Rightarrow> (store_error + acquire_result) \<times> world" where
  "refetch k next w =
    (case LookupByKey (fst k) (fst (snd k)) (snd (snd k)) w of
       (Inl e, w1) \<Rightarrow> (Inl e, w1)
     | (Inr rec, w1) \<Rightarrow>
         (case settled rec of Some r \<Rightarrow> (Inr r, w1) | None \<Rightarrow> next rec w1))"

definition acquire_held :: "Record \<Rightarrow> world \<Rightarrow> (store_error + acquire_result) \<times> world" where
  "acquire_held rec w = (Inr (outcome LeaseHeldByOther rec), w)"

definition acquire_unleased_stage ::
    "store \<Rightarrow> string \<times> string \<times> string \<Rightarrow> string \<Rightarrow> int \<Rightarrow> Record \<Rightarrow> world \<Rightarrow> (store_error + acquire_result) \<times> world" where
  "acquire_unleased_stage s k token dur rec w =
    (if er_state rec = StatePrepared \<and> er_lease_expires_at rec = None then
       (case acquireUnleased s rec token dur w of
          (Inl e, w1) \<Rightarrow> (Inl e, w1)
        | (Inr (Some rec'), w1) \<Rightarrow> (Inr (leased LeaseAcquired token rec'), w1)
        | (Inr None, w1) \<Rightarrow> refetch k acquire_held w1)
     else acquire_held rec w)"

definition acquire_in_flight_stage ::
    "store \<Rightarrow> string \<times> string \<times> string \<Rightarrow> string \<Rightarrow> int \<Rightarrow> Record \<Rightarrow> world \<Rightarrow> (store_error + acquire_result) \<times> world" where
  "acquire_in_flight_stage s k token dur rec w =
    (if er_state rec = StateInFlight \<and> er_lease_expires_at rec \<noteq> None then
       (case markInFlightExpiredAsUnknown s rec (st_leaseOwner s) w of
          (Inl e, w1) \<Rightarrow> (Inl e, w1)
        | (Inr (Some rec'), w1) \<Rightarrow> (Inr (outcome RecoveryRequired rec'), w1)
        | (Inr None, w1) \<Rightarrow> refetch k (acquire_unleased_stage s k token dur) w1)
     else acquire_unleased_stage s k token dur rec w)"

definition acquire_reclaim_stage ::
    "store \<Rightarrow> string \<times> string \<times> string \<Rightarrow> string \<Rightarrow> int \<Rightarrow> Record \<Rightarrow> world \<Rightarrow> (store_error + acquire_result) \<times> world" where
  "acquire_reclaim_stage s k token dur rec w =
    (if er_state rec \<in> {StatePrepared, StateExecuting} \<and> er_lease_expires_at rec \<noteq> None then
       (case reclaimExpiredLease s rec token dur w of
          (Inl e, w1) \<Rightarrow> (Inl e, w1)
        | (Inr (Some rec'), w1) \<Rightarrow> (Inr (leased LeaseReclaimed token rec'), bump acquires w1)
        | (Inr None, w1) \<Rightarrow> refetch k (acquire_in_flight_stage s k token dur) w1)
     else acquire_in_flight_stage s k token dur rec w)"

definition acquire_existing ::
    "store \<Rightarrow> string \<times> string \<times> string \<Rightarrow> string \<Rightarrow> string \<Rightarrow> int \<Rightarrow> world \<Rightarrow> (store_error + acquire_result) \<times> world" where
  "acquire_existing s k digest token dur w =
    (case LookupByKey (fst k) (fst (snd k)) (snd (snd k)) w of
       (Inl ErrNoRows, w1) \<Rightarrow>
         (case checkEpoch s w1 of
            (Some e, w2) \<Rightarrow> (Inl e, w2)
          | (None, w2) \<Rightarrow>
              (case checkRecoveryMode w2 of
                 (Some e, w3) \<Rightarrow> (Inl e, w3)
               | (None, w3) \<Rightarrow> (Inl (LeaseErr LeaseStateConflict), w3)))
     | (Inl e, w1) \<Rightarrow> (Inl e, w1)
     | (Inr rec, w1) \<Rightarrow>
         if er_request_digest rec \<noteq> digest then (Inr (outcome IdempotencyConflict rec), w1)
         else (case settled rec of
                 Some r \<Rightarrow> (Inr r, w1)
               | None \<Rightarrow> acquire_reclaim_stage s k token dur rec w1))"

definition AcquireWithAuthority ::
    "store \<Rightarrow> string \<Rightarrow> string \<Rightarrow> string \<Rightarrow> string \<Rightarrow> string \<Rightarrow> string \<Rightarrow> authority_binding \<Rightarrow> string \<Rightarrow> int
      \<Rightarrow> world \<Rightarrow> (store_error + acquire_result) \<times> world" where
  "AcquireWithAuthority s genID token key principalID capability digest authority klass dur w =
    (case Validate (st_leaseCfg s) dur of
       Some e \<Rightarrow> (Inl (LeaseErr e), w)
     | None \<Rightarrow>
         (case exec_tx (tx_insert s genID key principalID capability digest authority klass token dur) w of
            (Inl e, w1) \<Rightarrow> (Inl e, w1)
          | (Inr (Some createdAt), w1) \<Rightarrow>
              (Inr (leased LeaseAcquired token
                      (new_row genID key principalID capability digest authority klass (st_leaseOwner s) token
                         None None createdAt (st_epoch s))),
               bump acquires w1)
          | (Inr None, w1) \<Rightarrow> acquire_existing s (principalID, capability, key) digest token dur w1))"

definition Acquire ::
    "store \<Rightarrow> string \<Rightarrow> string \<Rightarrow> string \<Rightarrow> string \<Rightarrow> string \<Rightarrow> string \<Rightarrow> string \<Rightarrow> string \<Rightarrow> int
      \<Rightarrow> world \<Rightarrow> (store_error + acquire_result) \<times> world" where
  "Acquire s genID token key principalID capability digest grantID klass dur w =
    AcquireWithAuthority s genID token key principalID capability digest
      \<lparr> ab_Ref = grantID, ab_Generation = 0, ab_Digest = [] \<rparr> klass dur w"

section \<open>Lease-fenced transitions\<close>

text \<open>The token and generation part of every classification, with its contention hint.\<close>

definition classify_lease ::
    "string \<Rightarrow> string \<Rightarrow> int \<Rightarrow> string \<Rightarrow> string \<Rightarrow> Record \<Rightarrow> world \<Rightarrow> store_error \<times> world" where
  "classify_lease executionID token generation tokenNote generationNote rec w =
    (if str (er_lease_token rec) \<noteq> token then
       (LeaseErr LeaseTokenMismatch, noteContentionEvent executionID EventLeaseLost tokenNote w)
     else if er_lease_generation rec \<noteq> generation then
       (LeaseErr LeaseGenerationMismatch, noteContentionEvent executionID EventLeaseLost generationNote w)
     else (LeaseErr LeaseExpired, w))"

definition classifyTransitionFailure ::
    "store \<Rightarrow> string \<Rightarrow> string \<Rightarrow> int \<Rightarrow> state \<Rightarrow> world \<Rightarrow> store_error \<times> world" where
  "classifyTransitionFailure s executionID token generation expectedState w =
    (case checkEpoch s w of
       (Some e, w1) \<Rightarrow> (e, w1)
     | (None, w1) \<Rightarrow>
         (case Lookup executionID (bump fenceRejections w1) of
            (Inl e, w2) \<Rightarrow> (LeaseErr LeaseLost, w2)
          | (Inr rec, w2) \<Rightarrow>
              if er_state rec \<noteq> expectedState then (LeaseErr LeaseStateConflict, w2)
              else classify_lease executionID token generation
                     ''transition fenced: lease token held by another owner''
                     ''transition fenced: lease generation advanced'' rec w2))"

definition leaseFencedTransition ::
    "store \<Rightarrow> string \<Rightarrow> string \<Rightarrow> int \<Rightarrow> state \<Rightarrow> state \<Rightarrow> world \<Rightarrow> store_error option \<times> world" where
  "leaseFencedTransition s executionID token generation expectedState toState w =
    (if \<not> isLegalTransition expectedState toState then (Some (LeaseErr LeaseStateConflict), w)
     else
       (case exec_tx (tx_leaseFencedTransition s executionID token generation expectedState toState) w of
          (Inl e, w1) \<Rightarrow> (Some e, w1)
        | (Inr None, w1) \<Rightarrow>
            (case classifyTransitionFailure s executionID token generation expectedState w1 of
               (e, w2) \<Rightarrow> (Some e, w2))
        | (Inr (Some _), w1) \<Rightarrow> (None, w1)))"

definition BeginExecution :: "store \<Rightarrow> string \<Rightarrow> string \<Rightarrow> int \<Rightarrow> world \<Rightarrow> store_error option \<times> world" where
  "BeginExecution s executionID token generation w =
    (case leaseFencedTransition s executionID token generation StatePrepared StateExecuting w of
       (Some e, w1) \<Rightarrow> (Some e, w1)
     | (None, w1) \<Rightarrow> (None, bump executing w1))"

text \<open>Size bound, redactor, size bound again, denylist on the final representation.\<close>

definition prepare_locator :: "store \<Rightarrow> bytes \<Rightarrow> store_error + bytes" where
  "prepare_locator s loc =
    (if int (length loc) > MaxRecoveryLocatorBytes then Inl (LeaseErr LocatorTooLarge)
     else
       (case (case st_locatorRedactor s of
                Some f \<Rightarrow>
                  if length loc > 0 then
                    (case f loc of
                       None \<Rightarrow> Inl RedactionFailed
                     | Some redacted \<Rightarrow>
                         if int (length redacted) > MaxRecoveryLocatorBytes then Inl (LeaseErr LocatorTooLarge)
                         else Inr redacted)
                  else Inr loc
              | None \<Rightarrow> Inr loc) of
          Inl e \<Rightarrow> Inl e
        | Inr loc' \<Rightarrow>
            if forbiddenLocatorField (st_unicode s) loc' \<noteq> [] then Inl (LeaseErr LocatorContainsSecret)
            else Inr loc'))"

definition MarkInFlight ::
    "store \<Rightarrow> string \<Rightarrow> string \<Rightarrow> int \<Rightarrow> string \<Rightarrow> bytes \<Rightarrow> world \<Rightarrow> store_error option \<times> world" where
  "MarkInFlight s executionID token generation providerID recoveryLocator w =
    (case prepare_locator s recoveryLocator of
       Inl e \<Rightarrow> (Some e, w)
     | Inr loc \<Rightarrow>
         (case exec_tx (tx_MarkInFlight s executionID token generation providerID loc) w of
            (Inl e, w1) \<Rightarrow> (Some e, w1)
          | (Inr None, w1) \<Rightarrow>
              (case classifyTransitionFailure s executionID token generation StateExecuting w1 of
                 (e, w2) \<Rightarrow> (Some e, w2))
          | (Inr (Some _), w1) \<Rightarrow> (None, bump inFlight w1)))"

definition classifyRenewalFailure ::
    "store \<Rightarrow> string \<Rightarrow> string \<Rightarrow> int \<Rightarrow> world \<Rightarrow> store_error \<times> world" where
  "classifyRenewalFailure s executionID token generation w =
    (case checkEpoch s w of
       (Some e, w1) \<Rightarrow> (e, w1)
     | (None, w1) \<Rightarrow>
         (case Lookup executionID (bump fenceRejections w1) of
            (Inl e, w2) \<Rightarrow> (LeaseErr LeaseLost, w2)
          | (Inr rec, w2) \<Rightarrow>
              if IsDurablyFinal (er_state rec) \<or> er_state rec = StateUnknown
              then (LeaseErr LeaseStateConflict, w2)
              else classify_lease executionID token generation
                     ''renewal fenced: lease token held by another owner''
                     ''renewal fenced: lease generation advanced'' rec w2))"

definition RenewLease ::
    "store \<Rightarrow> string \<Rightarrow> string \<Rightarrow> int \<Rightarrow> int \<Rightarrow> world \<Rightarrow> store_error option \<times> world" where
  "RenewLease s executionID token generation dur w =
    (case Validate (st_leaseCfg s) dur of
       Some e \<Rightarrow> (Some (LeaseErr e), w)
     | None \<Rightarrow>
         (case exec_tx (tx_RenewLease s executionID token generation dur) w of
            (Inl e, w1) \<Rightarrow> (Some e, w1)
          | (Inr None, w1) \<Rightarrow>
              (case classifyRenewalFailure s executionID token generation w1 of (e, w2) \<Rightarrow> (Some e, w2))
          | (Inr (Some _), w1) \<Rightarrow> (None, bump leaseRenewals w1)))"

definition classifyAbandonFailure ::
    "store \<Rightarrow> string \<Rightarrow> string \<Rightarrow> int \<Rightarrow> world \<Rightarrow> store_error \<times> world" where
  "classifyAbandonFailure s executionID token generation w =
    (case checkEpoch s w of
       (Some e, w1) \<Rightarrow> (e, w1)
     | (None, w1) \<Rightarrow>
         (case Lookup executionID (bump fenceRejections w1) of
            (Inl e, w2) \<Rightarrow> (LeaseErr LeaseLost, w2)
          | (Inr rec, w2) \<Rightarrow>
              if er_state rec \<noteq> StatePrepared \<and> er_state rec \<noteq> StateExecuting
              then (LeaseErr LeaseStateConflict, w2)
              else classify_lease executionID token generation
                     ''abandon fenced: lease token held by another owner''
                     ''abandon fenced: lease generation advanced'' rec w2))"

definition AbandonPreDispatch :: "store \<Rightarrow> string \<Rightarrow> string \<Rightarrow> int \<Rightarrow> world \<Rightarrow> store_error option \<times> world" where
  "AbandonPreDispatch s executionID token generation w =
    (case exec_tx (tx_AbandonPreDispatch s executionID token generation) w of
       (Inl e, w1) \<Rightarrow> (Some e, w1)
     | (Inr None, w1) \<Rightarrow>
         (case classifyAbandonFailure s executionID token generation w1 of (e, w2) \<Rightarrow> (Some e, w2))
     | (Inr (Some _), w1) \<Rightarrow> (None, w1))"

section \<open>Finalize\<close>

definition identity_mismatch :: "string \<Rightarrow> Record \<Rightarrow> terminal_receipt \<Rightarrow> bool" where
  "identity_mismatch executionID existing receipt \<longleftrightarrow>
    tr_ExecutionID receipt \<noteq> [] \<and> tr_ExecutionID receipt \<noteq> executionID
    \<or> tr_Capability receipt \<noteq> [] \<and> tr_Capability receipt \<noteq> er_capability_id existing
    \<or> tr_Principal receipt \<noteq> [] \<and> tr_Principal receipt \<noteq> er_principal_id existing
    \<or> tr_RequestDigest receipt \<noteq> [] \<and> tr_RequestDigest receipt \<noteq> er_request_digest existing"

definition complete_receipt :: "string \<Rightarrow> Record \<Rightarrow> terminal_receipt \<Rightarrow> terminal_receipt" where
  "complete_receipt executionID existing receipt =
    receipt\<lparr>tr_ExecutionID := executionID, tr_Capability := er_capability_id existing,
            tr_Principal := er_principal_id existing, tr_RequestDigest := er_request_digest existing\<rparr>"

definition check_receipt :: "state \<Rightarrow> terminal_receipt \<Rightarrow> store_error option" where
  "check_receipt expectedState receipt =
    (if \<not> IsDurablyFinal (tr_TerminalStatus receipt) then Some InvalidTerminalStatus
     else if tr_ReceiptVersion receipt < 0 then Some InvalidReceiptVersion
     else if int (length (tr_CanonicalResult receipt)) > MaxResultBytes then Some (LeaseErr ResultTooLarge)
     else if int (length (tr_EvidenceReceipt receipt)) > MaxEvidenceReceiptBytes then Some (LeaseErr EvidenceReceiptTooLarge)
     else (case canonicalizeJSON (tr_CanonicalResult receipt) of
             Inl e \<Rightarrow> Some (MalformedResult e)
           | Inr _ \<Rightarrow>
               if \<not> isLegalTransition expectedState (tr_TerminalStatus receipt)
               then Some (LeaseErr LeaseStateConflict) else None))"

text \<open>The proof policy of a terminal decision; a \<open>CRITICAL\<close> record needs the verifier's attestation.\<close>

definition terminal_policy :: "store \<Rightarrow> Record \<Rightarrow> terminal_receipt \<Rightarrow> store_error option" where
  "terminal_policy s existing receipt =
    (if er_execution_class existing = ''CRITICAL'' then
       (case evidenceVerifier s existing receipt (tr_TerminalStatus receipt) of
          Inl e \<Rightarrow> Some (EvidenceRejected e)
        | Inr verified \<Rightarrow> ValidateTerminalTransition existing (tr_TerminalStatus receipt) receipt verified)
     else ValidateTerminalTransition existing (tr_TerminalStatus receipt) receipt None)"

definition replay_verdict :: "Record \<Rightarrow> string \<Rightarrow> store_error option" where
  "replay_verdict rec receiptDigest =
    (if str (er_terminal_receipt_digest rec) = receiptDigest then None else Some FinalizationConflict)"

definition finalize_failure ::
    "store \<Rightarrow> string \<Rightarrow> string \<Rightarrow> int \<Rightarrow> state \<Rightarrow> terminal_receipt \<Rightarrow> string \<Rightarrow> world \<Rightarrow> store_error option \<times> world" where
  "finalize_failure s executionID token generation expectedState receipt receiptDigest w =
    (case Lookup executionID w of
       (Inl e, w1) \<Rightarrow>
         (case classifyTransitionFailure s executionID token generation expectedState w1 of
            (e', w2) \<Rightarrow> (Some e', w2))
     | (Inr current, w1) \<Rightarrow>
         if IsDurablyFinal (er_state current) then (replay_verdict current receiptDigest, w1)
         else if er_state current = expectedState
              \<and> str (er_lease_token current) = token
              \<and> er_lease_generation current = generation
              \<and> providerIdentityContradicts (str (er_provider_id current)) (tr_ProviderID receipt)
                  (str (er_provider_run_id current)) (tr_ProviderRunID receipt)
         then (Some (LeaseErr ProviderObservationConflict), bump observationConflicts w1)
         else
           (case classifyTransitionFailure s executionID token generation expectedState w1 of
              (e', w2) \<Rightarrow> (Some e', w2)))"

definition Finalize ::
    "store \<Rightarrow> string \<Rightarrow> string \<Rightarrow> int \<Rightarrow> state \<Rightarrow> terminal_receipt \<Rightarrow> world \<Rightarrow> store_error option \<times> world" where
  "Finalize s executionID token generation expectedState receipt0 w =
    (case check_receipt expectedState receipt0 of
       Some e \<Rightarrow> (Some e, w)
     | None \<Rightarrow>
         (case Lookup executionID w of
            (Inl e, w1) \<Rightarrow> (Some e, w1)
          | (Inr existing, w1) \<Rightarrow>
              if identity_mismatch executionID existing receipt0 then (Some ReceiptIdentityMismatch, w1)
              else
                (let receipt = complete_receipt executionID existing receipt0 in
                 case receipt_digest (st_crypto s) receipt of
                   Inl e \<Rightarrow> (Some (MalformedResult e), w1)
                 | Inr receiptDigest \<Rightarrow>
                     if IsDurablyFinal (er_state existing) then (replay_verdict existing receiptDigest, w1)
                     else
                       (case terminal_policy s existing receipt of
                          Some e \<Rightarrow> (Some e, bump criticalEvidenceDenied w1)
                        | None \<Rightarrow>
                            (case exec_tx (tx_Finalize s executionID token generation expectedState receipt
                                             receiptDigest (er_version existing)) w1 of
                               (Inl e, w2) \<Rightarrow> (Some e, w2)
                             | (Inr None, w2) \<Rightarrow>
                                 finalize_failure s executionID token generation expectedState receipt
                                   receiptDigest w2
                             | (Inr (Some _), w2) \<Rightarrow>
                                 (None, bump (if tr_TerminalStatus receipt = StateCommitted then committed
                                              else failed) w2))))))"

section \<open>Recovery\<close>

definition EnterRecovery :: "store \<Rightarrow> string \<Rightarrow> state \<Rightarrow> int \<Rightarrow> world \<Rightarrow> store_error option \<times> world" where
  "EnterRecovery s executionID expectedState expectedVersion w =
    (if \<not> isLegalTransition expectedState StateUnknown then (Some (LeaseErr LeaseStateConflict), w)
     else
       (case exec_tx (tx_EnterRecovery s executionID expectedState expectedVersion) w of
          (Inl e, w1) \<Rightarrow> (Some e, w1)
        | (Inr None, w1) \<Rightarrow>
            (case checkEpoch s w1 of
               (Some e, w2) \<Rightarrow> (Some e, w2)
             | (None, w2) \<Rightarrow> (Some (LeaseErr LeaseStateConflict), w2))
        | (Inr (Some _), w1) \<Rightarrow> (None, bump unknownEntered w1)))"

definition classifyEnterRecoveryFailure ::
    "store \<Rightarrow> string \<Rightarrow> state \<Rightarrow> int \<Rightarrow> world \<Rightarrow> store_error \<times> world" where
  "classifyEnterRecoveryFailure s executionID expectedState expectedVersion w =
    (case checkEpoch s w of
       (Some e, w1) \<Rightarrow> (e, w1)
     | (None, w1) \<Rightarrow>
         (case Lookup executionID (bump fenceRejections w1) of
            (Inl e, w2) \<Rightarrow> (e, w2)
          | (Inr rec, w2) \<Rightarrow>
              if er_state rec \<noteq> expectedState \<or> er_version rec \<noteq> expectedVersion
              then (LeaseErr LeaseStateConflict, w2)
              else (LeaseErr ProviderObservationConflict, bump observationConflicts w2)))"

definition EnterRecoveryWithObservation ::
    "store \<Rightarrow> string \<Rightarrow> state \<Rightarrow> int \<Rightarrow> provider_observation \<Rightarrow> world \<Rightarrow> store_error option \<times> world" where
  "EnterRecoveryWithObservation s executionID expectedState expectedVersion obs0 w =
    (if \<not> isLegalTransition expectedState StateUnknown then (Some (LeaseErr LeaseStateConflict), w)
     else
       (case canonicalizeObservation (st_crypto s) obs0 of
          Inl e \<Rightarrow> (Some e, w)
        | Inr obs \<Rightarrow>
            (case exec_tx (tx_EnterRecoveryWithObservation s executionID expectedState expectedVersion
                             (po_Result obs0) obs) w of
               (Inl e, w1) \<Rightarrow> (Some e, w1)
             | (Inr None, w1) \<Rightarrow>
                 (case classifyEnterRecoveryFailure s executionID expectedState expectedVersion w1 of
                    (e, w2) \<Rightarrow> (Some e, w2))
             | (Inr (Some _), w1) \<Rightarrow> (None, bump unknownEntered w1))))"

definition classifyObservationFailure ::
    "store \<Rightarrow> string \<Rightarrow> string \<Rightarrow> int \<Rightarrow> world \<Rightarrow> store_error \<times> world" where
  "classifyObservationFailure s executionID token generation w =
    (case checkEpoch s w of
       (Some e, w1) \<Rightarrow> (e, w1)
     | (None, w1) \<Rightarrow>
         (case Lookup executionID (bump fenceRejections w1) of
            (Inl e, w2) \<Rightarrow> (e, w2)
          | (Inr rec, w2) \<Rightarrow>
              if er_state rec = StateInFlight
                 \<and> (str (er_lease_token rec) \<noteq> token \<or> er_lease_generation rec \<noteq> generation)
              then (LeaseErr LeaseStateConflict,
                    noteContentionEvent executionID EventLeaseLost
                      ''observation fenced: lease held by another owner'' w2)
              else if er_state rec \<noteq> StateInFlight \<and> er_state rec \<noteq> StateUnknown
              then (LeaseErr LeaseStateConflict, w2)
              else (LeaseErr ProviderObservationConflict, bump observationConflicts w2)))"

definition RecordProviderObservation ::
    "store \<Rightarrow> string \<Rightarrow> string \<Rightarrow> int \<Rightarrow> provider_observation \<Rightarrow> world \<Rightarrow> store_error option \<times> world" where
  "RecordProviderObservation s executionID token generation obs0 w =
    (case canonicalizeObservation (st_crypto s) obs0 of
       Inl e \<Rightarrow> (Some e, w)
     | Inr obs \<Rightarrow>
         (case exec_tx (tx_RecordProviderObservation s executionID token generation (po_Result obs0) obs) w of
            (Inl e, w1) \<Rightarrow> (Some e, w1)
          | (Inr None, w1) \<Rightarrow>
              (case classifyObservationFailure s executionID token generation w1 of (e, w2) \<Rightarrow> (Some e, w2))
          | (Inr (Some _), w1) \<Rightarrow> (None, bump observationWrites w1)))"

definition RecoverExpiredPreDispatch :: "store \<Rightarrow> string \<Rightarrow> int \<Rightarrow> world \<Rightarrow> store_error option \<times> world" where
  "RecoverExpiredPreDispatch s executionID expectedVersion w =
    (case exec_tx (tx_RecoverExpiredPreDispatch s executionID expectedVersion) w of
       (Inl e, w1) \<Rightarrow> (Some e, w1)
     | (Inr None, w1) \<Rightarrow>
         (case checkEpoch s w1 of
            (Some e, w2) \<Rightarrow> (Some e, w2)
          | (None, w2) \<Rightarrow> (Some (LeaseErr LeaseStateConflict), w2))
     | (Inr (Some _), w1) \<Rightarrow> (None, bump leaseLost w1))"

definition ScrubStaleRecoveryLocators :: "store \<Rightarrow> int \<Rightarrow> world \<Rightarrow> (store_error + nat) \<times> world" where
  "ScrubStaleRecoveryLocators s olderThan w =
    (if olderThan \<le> 0 then (Inl InvalidRetention, w)
     else
       (case checkEpoch s w of
          (Some e, w1) \<Rightarrow> (Inl e, w1)
        | (None, w1) \<Rightarrow>
            (case exec_tx (tx_ScrubStaleRecoveryLocators s olderThan) w1 of
               (Inl e, w2) \<Rightarrow> (Inl e, w2)
             | (Inr None, w2) \<Rightarrow> (Inr 0, w2)
             | (Inr (Some n), w2) \<Rightarrow> (Inr n, w2))))"

definition recovery_receipt :: "string \<Rightarrow> Record \<Rightarrow> state \<Rightarrow> recovery_result \<Rightarrow> terminal_receipt" where
  "recovery_receipt executionID existing toState res =
    \<lparr> tr_ExecutionID = executionID, tr_Capability = er_capability_id existing,
      tr_Principal = er_principal_id existing, tr_RequestDigest = er_request_digest existing,
      tr_TerminalStatus = toState, tr_CanonicalResult = rr_Result res,
      tr_ProviderID = rr_ProviderID res, tr_ProviderRunID = rr_ProviderRunID res,
      tr_EvidenceDigest = rr_EvidenceDigest res, tr_ReceiptVersion = rr_ReceiptVersion res,
      tr_EvidenceReceipt = rr_EvidenceReceipt res, tr_FinalizedAt = 0 \<rparr>"

definition recovery_observation :: "recovery_result \<Rightarrow> provider_observation" where
  "recovery_observation res =
    \<lparr> po_ProviderID = rr_ProviderID res, po_ProviderRunID = rr_ProviderRunID res, po_ProviderStatus = [],
      po_Result = rr_Result res, po_ResultDigest = [], po_EvidenceDigest = rr_EvidenceDigest res,
      po_ReceiptVersion = rr_ReceiptVersion res \<rparr>"

definition resolve_failure :: "store \<Rightarrow> string \<Rightarrow> int \<Rightarrow> world \<Rightarrow> store_error option \<times> world" where
  "resolve_failure s executionID expectedVersion w =
    (case checkEpoch s w of
       (Some e, w1) \<Rightarrow> (Some e, w1)
     | (None, w1) \<Rightarrow>
         (case Lookup executionID w1 of
            (Inl e, w2) \<Rightarrow> (Some e, w2)
          | (Inr rec, w2) \<Rightarrow>
              if er_state rec = StateUnknown \<and> er_version rec = expectedVersion
              then (Some (LeaseErr ProviderObservationConflict), bump observationConflicts w2)
              else (Some (LeaseErr LeaseStateConflict), w2)))"

definition resolve_definitive ::
    "store \<Rightarrow> string \<Rightarrow> int \<Rightarrow> state \<Rightarrow> recovery_result \<Rightarrow> world \<Rightarrow> store_error option \<times> world" where
  "resolve_definitive s executionID expectedVersion toState res w =
    (if int (length (rr_EvidenceReceipt res)) > MaxEvidenceReceiptBytes
     then (Some (LeaseErr EvidenceReceiptTooLarge), w)
     else
       (case canonicalizeObservation (st_crypto s) (recovery_observation res) of
          Inl e \<Rightarrow> (Some e, w)
        | Inr robs \<Rightarrow>
            (case Lookup executionID w of
               (Inl e, w1) \<Rightarrow> (Some e, w1)
             | (Inr existing, w1) \<Rightarrow>
                 (let receipt = recovery_receipt executionID existing toState res in
                  case terminal_policy s existing receipt of
                    Some (EvidenceRejected e) \<Rightarrow> (Some (EvidenceRejected e), w1)
                  | Some e \<Rightarrow> (Some e, bump criticalEvidenceDenied w1)
                  | None \<Rightarrow>
                      (case receipt_digest (st_crypto s) receipt of
                         Inl e \<Rightarrow> (Some (MalformedResult e), w1)
                       | Inr receiptDigest \<Rightarrow>
                           (case exec_tx (tx_ResolveRecovery s executionID expectedVersion toState res robs
                                            receiptDigest) w1 of
                              (Inl e, w2) \<Rightarrow> (Some e, w2)
                            | (Inr None, w2) \<Rightarrow> resolve_failure s executionID expectedVersion w2
                            | (Inr (Some _), w2) \<Rightarrow>
                                (None, bump (if toState = StateCommitted then committed else failed)
                                         (bump reconcileResolutions w2))))))))"

definition ResolveRecovery :: "store \<Rightarrow> string \<Rightarrow> int \<Rightarrow> recovery_result \<Rightarrow> world \<Rightarrow> store_error option \<times> world" where
  "ResolveRecovery s executionID expectedVersion res w =
    (case rr_Decision res of
       RecoveryCommitted \<Rightarrow> resolve_definitive s executionID expectedVersion StateCommitted res w
     | RecoveryFailed \<Rightarrow> resolve_definitive s executionID expectedVersion StateFailed res w
     | RecoveryUnknown \<Rightarrow>
         (case exec_tx (tx_ResolveUnknown s executionID expectedVersion) w of
            (Inl e, w1) \<Rightarrow> (Some e, w1)
          | (Inr None, w1) \<Rightarrow>
              (case checkEpoch s w1 of
                 (Some e, w2) \<Rightarrow> (Some e, w2)
               | (None, w2) \<Rightarrow> (Some (LeaseErr LeaseStateConflict), w2))
          | (Inr (Some _), w1) \<Rightarrow> (None, w1))
     | RecoveryRetryable \<Rightarrow> (Some (LeaseErr LeaseStateConflict), w)
     | RecoveryConflict \<Rightarrow> (Some (LeaseErr LeaseStateConflict), w))"

section \<open>Reconciliation work distribution\<close>

definition batch_size :: "int \<Rightarrow> nat" where
  "batch_size n = (if n \<le> 0 then 100 else nat n)"

definition claim_duration :: "int \<Rightarrow> int" where
  "claim_duration dur = (if dur \<le> 0 then 5 * 60 * 10 ^ 9 else dur)"

definition ClaimUnknownBatch ::
    "store \<Rightarrow> string \<Rightarrow> int \<Rightarrow> int \<Rightarrow> world \<Rightarrow> (store_error + Record list) \<times> world" where
  "ClaimUnknownBatch s owner batchSize claimDuration w =
    (case exec_tx (tx_ClaimUnknownBatch s owner (batch_size batchSize) (claim_duration claimDuration)) w of
       (Inl e, w1) \<Rightarrow> (Inl e, w1)
     | (Inr None, w1) \<Rightarrow>
         (case checkEpoch s w1 of (Some e, w2) \<Rightarrow> (Inl e, w2) | (None, w2) \<Rightarrow> (Inr [], w2))
     | (Inr (Some recs), w1) \<Rightarrow> (Inr recs, bump_by (int (length recs)) reconcileClaims w1))"

definition ClaimExpiredBatch ::
    "store \<Rightarrow> string \<Rightarrow> int \<Rightarrow> int \<Rightarrow> world \<Rightarrow> (store_error + Record list) \<times> world" where
  "ClaimExpiredBatch s owner batchSize claimDuration w =
    (case exec_tx (tx_ClaimExpiredBatch s owner (batch_size batchSize) (claim_duration claimDuration)) w of
       (Inl e, w1) \<Rightarrow> (Inl e, w1)
     | (Inr None, w1) \<Rightarrow>
         (case checkEpoch s w1 of (Some e, w2) \<Rightarrow> (Inl e, w2) | (None, w2) \<Rightarrow> (Inr [], w2))
     | (Inr (Some recs), w1) \<Rightarrow>
         (Inr recs, bump_by (int (length recs)) reconcileClaims (bump_by (int (length recs)) leaseLost w1)))"

text \<open>A lost claim: the epoch first, then a \<open>CLAIM_LOST\<close> hint and a state conflict.\<close>

definition claim_lost :: "store \<Rightarrow> string \<Rightarrow> string \<Rightarrow> world \<Rightarrow> store_error option \<times> world" where
  "claim_lost s executionID note w =
    (case checkEpoch s w of
       (Some e, w1) \<Rightarrow> (Some e, w1)
     | (None, w1) \<Rightarrow>
         (Some (LeaseErr LeaseStateConflict), noteContentionEvent executionID EventClaimLost note w1))"

definition ReleaseReconcileClaim ::
    "store \<Rightarrow> string \<Rightarrow> int \<Rightarrow> int \<Rightarrow> string \<Rightarrow> world \<Rightarrow> store_error option \<times> world" where
  "ReleaseReconcileClaim s executionID expectedVersion backoffDuration lastError w =
    (case exec_tx (tx_ReleaseReconcileClaim s executionID expectedVersion backoffDuration lastError) w of
       (Inl e, w1) \<Rightarrow> (Some e, w1)
     | (Inr None, w1) \<Rightarrow> claim_lost s executionID ''release reconcile claim CAS failed'' w1
     | (Inr (Some _), w1) \<Rightarrow> (None, w1))"

definition SuspendReconciliation ::
    "store \<Rightarrow> string \<Rightarrow> int \<Rightarrow> string \<Rightarrow> world \<Rightarrow> store_error option \<times> world" where
  "SuspendReconciliation s executionID expectedVersion reason w =
    (case exec_tx (tx_SuspendReconciliation s executionID expectedVersion reason) w of
       (Inl e, w1) \<Rightarrow> (Some e, w1)
     | (Inr None, w1) \<Rightarrow> claim_lost s executionID ''suspend reconciliation CAS failed'' w1
     | (Inr (Some _), w1) \<Rightarrow> (None, bump reconcileSuspended w1))"

definition RenewReconcileClaim ::
    "store \<Rightarrow> string \<Rightarrow> int \<Rightarrow> int \<Rightarrow> world \<Rightarrow> store_error option \<times> world" where
  "RenewReconcileClaim s executionID expectedVersion dur w =
    (case exec_tx (tx_RenewReconcileClaim s executionID expectedVersion dur) w of
       (Inl e, w1) \<Rightarrow> (Some e, w1)
     | (Inr None, w1) \<Rightarrow> claim_lost s executionID ''renew reconcile claim failed'' w1
     | (Inr (Some _), w1) \<Rightarrow> (None, w1))"

section \<open>Listings\<close>

definition by_updated_at :: "(exec_row \<Rightarrow> bool) \<Rightarrow> db \<Rightarrow> Record list" where
  "by_updated_at p d = sort_key er_updated_at (filter p (execution_requests d))"

definition lease_expired :: "int \<Rightarrow> exec_row \<Rightarrow> bool" where
  "lease_expired now er \<longleftrightarrow>
    er_state er \<in> {StatePrepared, StateExecuting, StateInFlight}
    \<and> er_lease_expires_at er \<noteq> None \<and> sql_lt (er_lease_expires_at er) now"

definition listByStates :: "state list \<Rightarrow> world \<Rightarrow> (store_error + Record list) \<times> world" where
  "listByStates states w = query (\<lambda>now. by_updated_at (\<lambda>er. er_state er \<in> set states)) w"

definition ListUnknown :: "world \<Rightarrow> (store_error + Record list) \<times> world" where
  "ListUnknown w = listByStates [StateUnknown] w"

definition ListExpiredLeases :: "world \<Rightarrow> (store_error + Record list) \<times> world" where
  "ListExpiredLeases w = query (\<lambda>now. by_updated_at (lease_expired now)) w"

definition ListStuck :: "world \<Rightarrow> (store_error + Record list) \<times> world" where
  "ListStuck w =
    (case ListExpiredLeases w of
       (Inl e, w1) \<Rightarrow> (Inl e, w1)
     | (Inr stuck, w1) \<Rightarrow>
         (case ListUnknown w1 of
            (Inl e, w2) \<Rightarrow> (Inl e, w2)
          | (Inr unknown, w2) \<Rightarrow> (Inr (stuck @ unknown), w2)))"

definition min_option :: "int option \<Rightarrow> int option \<Rightarrow> int option" where
  "min_option a b = (case (a, b) of (Some x, Some y) \<Rightarrow> Some (min x y) | (None, _) \<Rightarrow> b | (_, None) \<Rightarrow> a)"

definition ReconciliationBacklog :: "world \<Rightarrow> (store_error + nat \<times> int option) \<times> world" where
  "ReconciliationBacklog w =
    query (\<lambda>now d.
      let unknowns = filter (\<lambda>er. er_state er = StateUnknown) (execution_requests d) in
      (length unknowns, fold min_option (map er_entered_unknown_at unknowns) None)) w"

definition ListEffectEvents :: "string \<Rightarrow> world \<Rightarrow> (store_error + event_row list) \<times> world" where
  "ListEffectEvents executionID w =
    query (\<lambda>now d. sort_key ev_sequence (filter (\<lambda>e. ev_execution_id e = executionID) (effect_events d))) w"

definition ListProviderObservations :: "string \<Rightarrow> world \<Rightarrow> (store_error + observation_row list) \<times> world" where
  "ListProviderObservations executionID w =
    query (\<lambda>now d. sort_key ob_sequence
      (filter (\<lambda>o'. ob_execution_id o' = executionID) (effect_provider_observations d))) w"

end
