(* ===== verification/StoreSteps.thy ===== *)
theory StoreSteps
  imports SqliteStore
begin

text \<open>
  The store as a labelled transition system, and the abstract lifecycle of one record it refines.

  \<open>db_step OK l\<close> is one committed transaction of one of the stores that satisfy \<open>OK\<close>, run with
  arguments that passed the checks its method makes beforehand; stores of any epoch, owner and
  configuration may interleave in any order and at any clock.  The label is \<open>Some executionID\<close> for
  the transaction that crosses the dispatch boundary.

  \<open>row_step\<close> is the specification: eight ways in which a record may change, stated by the groups of
  columns that must stay and the ones that may move.  \<open>db_step_rows\<close> is the simulation: whatever
  transaction commits, every record either stays or makes one \<open>row_step\<close>, and at most one fresh
  record appears.
\<close>

section \<open>Column groups\<close>

definition identity_cols :: "exec_row \<Rightarrow> (string \<times> string \<times> string \<times> string \<times> string \<times> string) \<times>
    string option \<times> int \<times> int option \<times> string option \<times> int option" where
  "identity_cols er =
    ((er_execution_id er, er_idempotency_key er, er_principal_id er, er_capability_id er,
      er_request_digest er, er_execution_class er),
     er_grant_id er, er_created_at er, er_authority_generation er, er_authority_digest er,
     er_admitted_epoch er)"

definition terminal_cols :: "exec_row \<Rightarrow> int \<times> string option \<times> bytes option \<times> string option \<times> string option" where
  "terminal_cols er =
    (er_receipt_version er, er_terminal_receipt_digest er, er_evidence_receipt er,
     er_terminal_result_digest er, er_terminal_evidence_digest er)"

definition result_cols :: "exec_row \<Rightarrow> bytes option \<times> string option" where
  "result_cols er = (er_result er, er_evidence_digest er)"

definition provider_cols :: "exec_row \<Rightarrow> string option \<times> string option \<times> string option \<times> bytes option \<times>
    string option \<times> string option \<times> int" where
  "provider_cols er =
    (er_provider_id er, er_provider_run_id er, er_provider_status er, er_provider_result er,
     er_provider_result_digest er, er_provider_evidence_digest er, er_provider_receipt_version er)"

definition lease_cols :: "exec_row \<Rightarrow> string option \<times> string option \<times> int option \<times> int option" where
  "lease_cols er = (er_lease_owner er, er_lease_token er, er_lease_started_at er, er_lease_expires_at er)"

definition col_ext :: "'a option \<Rightarrow> 'a option \<Rightarrow> bool" where
  "col_ext c c' \<longleftrightarrow> c = None \<or> c' = c"

text \<open>Provider columns are write-once: a later row extends an earlier one.\<close>

definition provider_ext :: "exec_row \<Rightarrow> exec_row \<Rightarrow> bool" where
  "provider_ext er er' \<longleftrightarrow>
    col_ext (er_provider_id er) (er_provider_id er')
    \<and> col_ext (er_provider_run_id er) (er_provider_run_id er')
    \<and> col_ext (er_provider_status er) (er_provider_status er')
    \<and> col_ext (er_provider_result er) (er_provider_result er')
    \<and> col_ext (er_provider_result_digest er) (er_provider_result_digest er')
    \<and> col_ext (er_provider_evidence_digest er) (er_provider_evidence_digest er')
    \<and> (er_provider_receipt_version er = 0 \<or> er_provider_receipt_version er' = er_provider_receipt_version er)"

definition pre_dispatch :: "exec_row \<Rightarrow> bool" where
  "pre_dispatch er \<longleftrightarrow> er_state er = StatePrepared \<or> er_state er = StateExecuting"

definition terminal_row :: "exec_row \<Rightarrow> bool" where
  "terminal_row er \<longleftrightarrow> er_state er = StateCommitted \<or> er_state er = StateFailed"

section \<open>Terminal attestation\<close>

text \<open>
  The receipt by which a record became final: completed with the record's own identity, accepted by
  the proof policy of a participating store, and stored with its digest.
\<close>

definition attested_by :: "store \<Rightarrow> Record \<Rightarrow> terminal_receipt \<Rightarrow> exec_row \<Rightarrow> bool" where
  "attested_by s existing receipt er \<longleftrightarrow>
    identity_cols existing = identity_cols er
    \<and> tr_ExecutionID receipt = er_execution_id er
    \<and> tr_Capability receipt = er_capability_id er
    \<and> tr_Principal receipt = er_principal_id er
    \<and> tr_RequestDigest receipt = er_request_digest er
    \<and> tr_TerminalStatus receipt = er_state er
    \<and> terminal_policy s existing receipt = None
    \<and> (\<exists>rd. receipt_digest (st_crypto s) receipt = Inr rd \<and> er_terminal_receipt_digest er = Some rd)
    \<and> er_evidence_receipt er = nullableString (tr_EvidenceReceipt receipt)
    \<and> er_terminal_evidence_digest er = nullableString (tr_EvidenceDigest receipt)
    \<and> er_terminal_result_digest er = nullableString (sha256Hex (st_crypto s) (tr_CanonicalResult receipt))
    \<and> er_receipt_version er = tr_ReceiptVersion receipt
    \<and> (tr_ProviderID receipt \<noteq> [] \<longrightarrow> er_provider_id er = Some (tr_ProviderID receipt))
    \<and> (tr_ProviderRunID receipt \<noteq> [] \<longrightarrow> er_provider_run_id er = Some (tr_ProviderRunID receipt))"

section \<open>The abstract lifecycle of a record\<close>

inductive row_step :: "(store \<Rightarrow> bool) \<Rightarrow> bool \<Rightarrow> exec_row \<Rightarrow> exec_row \<Rightarrow> bool" for OK where
  pre:
    "\<lbrakk> pre_dispatch er; pre_dispatch er';
       er_state er' = er_state er \<or> isLegalTransition (er_state er) (er_state er');
       identity_cols er' = identity_cols er; provider_cols er' = provider_cols er;
       terminal_cols er' = terminal_cols er; result_cols er' = result_cols er;
       er_recovery_locator er' = er_recovery_locator er;
       er_entered_unknown_at er' = er_entered_unknown_at er;
       er_lease_generation er \<le> er_lease_generation er';
       er_lease_token er' = er_lease_token er \<or> er_lease_token er' = None
         \<or> er_lease_generation er < er_lease_generation er';
       er_version er < er_version er' \<rbrakk> \<Longrightarrow> row_step OK False er er'"
| dispatch:
    "\<lbrakk> er_state er = StateExecuting; er_state er' = StateInFlight; er_lease_token er \<noteq> None;
       er_lease_expires_at er \<noteq> None; OK s; prepare_locator s rawloc = Inr loc;
       identity_cols er' = identity_cols er;
       provider_cols er' = provider_cols (er\<lparr>er_provider_id := nullableString p\<rparr>);
       terminal_cols er' = terminal_cols er; result_cols er' = result_cols er;
       lease_cols er' = lease_cols er; er_lease_generation er' = er_lease_generation er;
       er_recovery_locator er' = nullableString loc;
       er_entered_unknown_at er' = er_entered_unknown_at er;
       er_version er < er_version er' \<rbrakk> \<Longrightarrow> row_step OK True er er'"
| admin:
    "\<lbrakk> er_state er' = er_state er; identity_cols er' = identity_cols er;
       provider_cols er' = provider_cols er; terminal_cols er' = terminal_cols er;
       result_cols er' = result_cols er; er_recovery_locator er' = er_recovery_locator er;
       er_entered_unknown_at er' = er_entered_unknown_at er;
       er_lease_owner er' = er_lease_owner er; er_lease_token er' = er_lease_token er;
       er_lease_started_at er' = er_lease_started_at er;
       er_lease_generation er' = er_lease_generation er;
       er_lease_expires_at er' = er_lease_expires_at er
         \<or> er_lease_expires_at er \<noteq> None \<and> er_lease_expires_at er' \<noteq> None
            \<and> \<not> IsCallerTerminal (er_state er);
       er_version er \<le> er_version er' \<rbrakk> \<Longrightarrow> row_step OK False er er'"
| scrub:
    "er_state er = StateUnknown \<Longrightarrow> row_step OK False er (er\<lparr>er_recovery_locator := None\<rparr>)"
| observe:
    "\<lbrakk> er_state er' = er_state er; er_state er = StateInFlight \<or> er_state er = StateUnknown;
       identity_cols er' = identity_cols er; terminal_cols er' = terminal_cols er;
       lease_cols er' = lease_cols er; er_lease_generation er' = er_lease_generation er;
       er_recovery_locator er' = er_recovery_locator er;
       er_entered_unknown_at er' = er_entered_unknown_at er;
       provider_ext er er'; col_ext (er_result er) (er_result er');
       col_ext (er_evidence_digest er) (er_evidence_digest er');
       er_version er' = er_version er \<rbrakk> \<Longrightarrow> row_step OK False er er'"
| uncertain:
    "\<lbrakk> er_state er = StateInFlight; er_state er' = StateUnknown;
       identity_cols er' = identity_cols er; terminal_cols er' = terminal_cols er;
       lease_cols er' = (None, None, None, None); er_lease_generation er' = er_lease_generation er;
       er_recovery_locator er' = er_recovery_locator er; er_entered_unknown_at er' \<noteq> None;
       provider_ext er er'; col_ext (er_result er) (er_result er');
       col_ext (er_evidence_digest er) (er_evidence_digest er');
       er_version er < er_version er' \<rbrakk> \<Longrightarrow> row_step OK False er er'"
| final:
    "\<lbrakk> er_state er = StateInFlight \<or> er_state er = StateUnknown;
       lease_cols er' = (None, None, None, None) \<or> er_state er = StateUnknown \<and> lease_cols er' = lease_cols er;
       terminal_row er'; identity_cols er' = identity_cols er;
       er_lease_generation er' = er_lease_generation er; er_recovery_locator er' = None;
       er_entered_unknown_at er' = er_entered_unknown_at er;
       provider_ext er er'; OK s; attested_by s existing receipt er';
       er_version er < er_version er' \<rbrakk> \<Longrightarrow> row_step OK False er er'"

text \<open>A record as admission creates it.\<close>

definition fresh_row :: "exec_row \<Rightarrow> bool" where
  "fresh_row er \<longleftrightarrow>
    er_state er = StatePrepared
    \<and> provider_cols er = (None, None, None, None, None, None, 0)
    \<and> terminal_cols er = (0, None, None, None, None)
    \<and> result_cols er = (None, None)
    \<and> er_recovery_locator er = None \<and> er_entered_unknown_at er = None
    \<and> er_lease_token er \<noteq> None \<and> er_lease_generation er = 1 \<and> er_version er = 1"

section \<open>Transactions of participating stores\<close>

text \<open>What \<open>Finalize\<close> and \<open>ResolveRecovery\<close> have established when they open their transaction.\<close>

definition decision_ready :: "store \<Rightarrow> string \<Rightarrow> Record \<Rightarrow> terminal_receipt \<Rightarrow> string \<Rightarrow> db \<Rightarrow> bool" where
  "decision_ready s executionID existing receipt rd d \<longleftrightarrow>
    er_execution_id existing = executionID
    \<and> (\<forall>er\<in>set (rows_of executionID d). identity_cols er = identity_cols existing)
    \<and> tr_ExecutionID receipt = executionID
    \<and> tr_Capability receipt = er_capability_id existing
    \<and> tr_Principal receipt = er_principal_id existing
    \<and> tr_RequestDigest receipt = er_request_digest existing
    \<and> terminal_policy s existing receipt = None
    \<and> receipt_digest (st_crypto s) receipt = Inr rd"

inductive db_step :: "(store \<Rightarrow> bool) \<Rightarrow> string option \<Rightarrow> db \<Rightarrow> db \<Rightarrow> bool" for OK where
  insert: "OK s \<Longrightarrow> tx_insert s g k p c dg a kl t dur now d = TxCommit d' x \<Longrightarrow> db_step OK None d d'"
| unleased: "OK s \<Longrightarrow> tx_acquireUnleased s rec t dur now d = TxCommit d' x \<Longrightarrow> db_step OK None d d'"
| reclaim: "OK s \<Longrightarrow> tx_reclaimExpiredLease s rec t dur now d = TxCommit d' x \<Longrightarrow> db_step OK None d d'"
| expire: "OK s \<Longrightarrow> tx_markInFlightExpiredAsUnknown s rec act now d = TxCommit d' x \<Longrightarrow> db_step OK None d d'"
| begin_execution:
    "OK s \<Longrightarrow> tx_leaseFencedTransition s eid t g StatePrepared StateExecuting now d = TxCommit d' x
      \<Longrightarrow> db_step OK None d d'"
| mark_in_flight:
    "OK s \<Longrightarrow> prepare_locator s rawloc = Inr loc \<Longrightarrow> tx_MarkInFlight s eid t g p loc now d = TxCommit d' x
      \<Longrightarrow> db_step OK (Some eid) d d'"
| renew: "OK s \<Longrightarrow> tx_RenewLease s eid t g dur now d = TxCommit d' x \<Longrightarrow> db_step OK None d d'"
| abandon: "OK s \<Longrightarrow> tx_AbandonPreDispatch s eid t g now d = TxCommit d' x \<Longrightarrow> db_step OK None d d'"
| finalize:
    "OK s \<Longrightarrow> check_receipt es receipt = None \<Longrightarrow> decision_ready s eid existing receipt rd d
      \<Longrightarrow> tx_Finalize s eid t g es receipt rd v now d = TxCommit d' x \<Longrightarrow> db_step OK None d d'"
| enter:
    "OK s \<Longrightarrow> isLegalTransition es StateUnknown \<Longrightarrow> tx_EnterRecovery s eid es v now d = TxCommit d' x
      \<Longrightarrow> db_step OK None d d'"
| enter_observed:
    "OK s \<Longrightarrow> isLegalTransition es StateUnknown \<Longrightarrow> canonicalizeObservation (st_crypto s) obs0 = Inr obs
      \<Longrightarrow> tx_EnterRecoveryWithObservation s eid es v (po_Result obs0) obs now d = TxCommit d' x
      \<Longrightarrow> db_step OK None d d'"
| record_observation:
    "OK s \<Longrightarrow> canonicalizeObservation (st_crypto s) obs0 = Inr obs
      \<Longrightarrow> tx_RecordProviderObservation s eid t g (po_Result obs0) obs now d = TxCommit d' x
      \<Longrightarrow> db_step OK None d d'"
| recover_expired:
    "OK s \<Longrightarrow> tx_RecoverExpiredPreDispatch s eid v now d = TxCommit d' x \<Longrightarrow> db_step OK None d d'"
| scrub_locators: "OK s \<Longrightarrow> tx_ScrubStaleRecoveryLocators s older now d = TxCommit d' n \<Longrightarrow> db_step OK None d d'"
| resolve_unknown: "OK s \<Longrightarrow> tx_ResolveUnknown s eid v now d = TxCommit d' x \<Longrightarrow> db_step OK None d d'"
| resolve:
    "OK s \<Longrightarrow> ns = StateCommitted \<or> ns = StateFailed
      \<Longrightarrow> canonicalizeObservation (st_crypto s) (recovery_observation res) = Inr robs
      \<Longrightarrow> decision_ready s eid existing (recovery_receipt eid existing ns res) rd d
      \<Longrightarrow> tx_ResolveRecovery s eid v ns res robs rd now d = TxCommit d' x \<Longrightarrow> db_step OK None d d'"
| claim_unknown: "OK s \<Longrightarrow> tx_ClaimUnknownBatch s owner n dur now d = TxCommit d' recs \<Longrightarrow> db_step OK None d d'"
| claim_expired: "OK s \<Longrightarrow> tx_ClaimExpiredBatch s owner n dur now d = TxCommit d' recs \<Longrightarrow> db_step OK None d d'"
| release: "OK s \<Longrightarrow> tx_ReleaseReconcileClaim s eid v bo le now d = TxCommit d' x \<Longrightarrow> db_step OK None d d'"
| suspend: "OK s \<Longrightarrow> tx_SuspendReconciliation s eid v reason now d = TxCommit d' x \<Longrightarrow> db_step OK None d d'"
| renew_claim: "OK s \<Longrightarrow> tx_RenewReconcileClaim s eid v dur now d = TxCommit d' x \<Longrightarrow> db_step OK None d d'"
| contention:
    "t = EventLeaseLost \<or> t = EventClaimLost \<Longrightarrow> tx_noteContentionEvent eid t meta now d = TxCommit d' x
      \<Longrightarrow> db_step OK None d d'"
| advance: "tx_AdvanceClusterEpoch e reason now d = TxCommit d' x \<Longrightarrow> db_step OK None d d'"
| complete: "tx_CompleteClusterRecovery e resolution now d = TxCommit d' x \<Longrightarrow> db_step OK None d d'"

inductive reachable :: "(store \<Rightarrow> bool) \<Rightarrow> db \<Rightarrow> bool" for OK where
  init: "reachable OK (initial_db now)"
| step: "reachable OK d \<Longrightarrow> db_step OK l d d' \<Longrightarrow> reachable OK d'"

definition db_steps :: "(store \<Rightarrow> bool) \<Rightarrow> db \<Rightarrow> db \<Rightarrow> bool" where
  "db_steps OK = (\<lambda>d d'. \<exists>l. db_step OK l d d')\<^sup>*\<^sup>*"

section \<open>Simulation\<close>

declare tx_acquireUnleased_def [tx_defs] tx_reclaimExpiredLease_def [tx_defs]
  tx_markInFlightExpiredAsUnknown_def [tx_defs] tx_leaseFencedTransition_def [tx_defs]
  tx_MarkInFlight_def [tx_defs] tx_RenewLease_def [tx_defs] tx_AbandonPreDispatch_def [tx_defs]
  tx_Finalize_def [tx_defs] tx_EnterRecovery_def [tx_defs] tx_EnterRecoveryWithObservation_def [tx_defs]
  tx_RecoverExpiredPreDispatch_def [tx_defs] tx_ResolveUnknown_def [tx_defs] tx_ResolveRecovery_def [tx_defs]
  tx_ReleaseReconcileClaim_def [tx_defs] tx_SuspendReconciliation_def [tx_defs]
  tx_RenewReconcileClaim_def [tx_defs]

lemma execution_requests_insert_event [simp]:
  "execution_requests (sqliteInsertEffectEvent now eid ev d) = execution_requests d"
  by (simp add: sqliteInsertEffectEvent_def)

lemma execution_requests_insert_observation [simp]:
  "execution_requests (sqliteInsertObservationRow C now eid kind raw obs d) = execution_requests d"
  by (simp add: sqliteInsertObservationRow_def)

lemma execution_requests_fold_events [simp]:
  "execution_requests (fold (\<lambda>r. sqliteInsertEffectEvent now (er_execution_id r) (ev r)) rs d) = execution_requests d"
  by (induction rs arbitrary: d) simp_all

definition rows_evolve :: "(store \<Rightarrow> bool) \<Rightarrow> string option \<Rightarrow> exec_row list \<Rightarrow> exec_row list \<Rightarrow> bool" where
  "rows_evolve OK l = list_all2 (\<lambda>er er'. er' = er \<or> row_step OK (l = Some (er_execution_id er)) er er')"

lemma rows_evolve_refl [simp]: "rows_evolve OK l rs rs"
  by (simp add: rows_evolve_def list_all2_same)

lemma rows_evolve_update:
  assumes "\<And>er. er \<in> set rs \<Longrightarrow> p er \<Longrightarrow> row_step OK (l = Some (er_execution_id er)) er (f er)"
  shows "rows_evolve OK l rs (update_where p f rs)"
  using assms by (auto simp: rows_evolve_def update_where_def list_all2_map2 list_all2_same)

lemma guarded_update_commit:
  assumes "guarded_update p f k d = TxCommit d' x"
  shows "k (d\<lparr>execution_requests := update_where p f (execution_requests d)\<rparr>) = TxCommit d' x"
  using assms by (simp add: guarded_update_def split: if_splits)

lemmas view_defs = identity_cols_def terminal_cols_def result_cols_def provider_cols_def lease_cols_def
  provider_ext_def col_ext_def pre_dispatch_def terminal_row_def


lemma evolve_guarded:
  assumes "guarded_update p f k d = TxCommit d' x"
    and "\<And>d1 d2 y. k d1 = TxCommit d2 y \<Longrightarrow> execution_requests d2 = execution_requests d1"
    and "\<And>er. er \<in> set (execution_requests d) \<Longrightarrow> p er \<Longrightarrow> row_step OK (l = Some (er_execution_id er)) er (f er)"
  shows "rows_evolve OK l (execution_requests d) (execution_requests d')"
proof -
  have "execution_requests d' = update_where p f (execution_requests d)"
    using assms(2) [OF guarded_update_commit [OF assms(1)]] by simp
  then show ?thesis
    using rows_evolve_update [of "execution_requests d" p OK l f] assms(3) by simp
qed

lemma commit_event_rows: "commit_event now eid ev d1 = TxCommit d2 y \<Longrightarrow> execution_requests d2 = execution_requests d1"
  by (auto simp: commit_event_def)

lemma evolve_event:
  assumes "guarded_update p f (commit_event now eid ev) d = TxCommit d' x"
    and "\<And>er. er \<in> set (execution_requests d) \<Longrightarrow> p er \<Longrightarrow> row_step OK (l = Some (er_execution_id er)) er (f er)"
  shows "rows_evolve OK l (execution_requests d) (execution_requests d')"
  using assms(1) commit_event_rows assms(2) by (rule evolve_guarded)

lemma evolve_unleased:
  assumes "tx_acquireUnleased s rec t dur now d = TxCommit d' x"
  shows "rows_evolve OK None (execution_requests d) (execution_requests d')"
  using assms unfolding tx_acquireUnleased_def
  by (rule evolve_event) (auto intro!: row_step.pre simp: view_defs)

lemma evolve_reclaim:
  assumes "tx_reclaimExpiredLease s rec t dur now d = TxCommit d' x"
  shows "rows_evolve OK None (execution_requests d) (execution_requests d')"
  using assms unfolding tx_reclaimExpiredLease_def
  by (rule evolve_event) (auto intro!: row_step.pre simp: view_defs isLegalTransition_iff)

lemma evolve_expire:
  assumes "tx_markInFlightExpiredAsUnknown s rec act now d = TxCommit d' x"
  shows "rows_evolve OK None (execution_requests d) (execution_requests d')"
  using assms unfolding tx_markInFlightExpiredAsUnknown_def
  by (rule evolve_event) (auto intro!: row_step.uncertain simp: view_defs to_unknown_def)

lemma evolve_begin:
  assumes "tx_leaseFencedTransition s eid t g StatePrepared StateExecuting now d = TxCommit d' x"
  shows "rows_evolve OK None (execution_requests d) (execution_requests d')"
  using assms unfolding tx_leaseFencedTransition_def
  by (rule evolve_event) (auto intro!: row_step.pre simp: view_defs isLegalTransition_iff)

lemma evolve_mark_in_flight:
  assumes "OK s" "prepare_locator s rawloc = Inr loc" "tx_MarkInFlight s eid t g p loc now d = TxCommit d' x"
  shows "rows_evolve OK (Some eid) (execution_requests d) (execution_requests d')"
  using assms(3) unfolding tx_MarkInFlight_def
  by (rule evolve_event)
    (auto intro!: row_step.dispatch [where OK = OK and s = s and rawloc = rawloc and loc = loc and p = p] assms(1,2)
      simp: view_defs lease_fence_def sql_simps)

lemma evolve_renew:
  assumes "tx_RenewLease s eid t g dur now d = TxCommit d' x"
  shows "rows_evolve OK None (execution_requests d) (execution_requests d')"
  using assms unfolding tx_RenewLease_def
  apply (rule evolve_event)
  subgoal for er
    by (cases "er_state er") (auto intro!: row_step.admin simp: view_defs lease_fence_def sql_simps)
  done

lemma evolve_abandon:
  assumes "tx_AbandonPreDispatch s eid t g now d = TxCommit d' x"
  shows "rows_evolve OK None (execution_requests d) (execution_requests d')"
  using assms unfolding tx_AbandonPreDispatch_def
  by (rule evolve_event) (auto intro!: row_step.pre simp: view_defs isLegalTransition_iff)

lemma evolve_enter:
  assumes "isLegalTransition es StateUnknown" "tx_EnterRecovery s eid es v now d = TxCommit d' x"
  shows "rows_evolve OK None (execution_requests d) (execution_requests d')"
  using assms(2) unfolding tx_EnterRecovery_def
  by (rule evolve_event)
    (insert assms(1), auto intro!: row_step.uncertain simp: view_defs to_unknown_def isLegalTransition_iff)

lemma coalesce_ext: "col_agrees c p \<Longrightarrow> c = None \<or> coalesce p c = c"
  by (cases c; cases p) (auto simp: col_agrees_def)

lemma set_observation_ext:
  assumes "observation_agrees obs er"
  shows "provider_ext er (set_observation now obs er)"
    and "col_ext (er_result er) (er_result (set_observation now obs er))"
    and "col_ext (er_evidence_digest er) (er_evidence_digest (set_observation now obs er))"
  using assms
  by (auto simp: observation_agrees_def set_observation_def provider_ext_def col_ext_def coalesce_to_def
      nullif_def dest: coalesce_ext split: if_splits)

lemma set_observation_frame [simp]:
  "er_state (set_observation now obs er) = er_state er"
  "er_version (set_observation now obs er) = er_version er"
  "identity_cols (set_observation now obs er) = identity_cols er"
  "terminal_cols (set_observation now obs er) = terminal_cols er"
  "lease_cols (set_observation now obs er) = lease_cols er"
  "er_lease_generation (set_observation now obs er) = er_lease_generation er"
  "er_recovery_locator (set_observation now obs er) = er_recovery_locator er"
  "er_entered_unknown_at (set_observation now obs er) = er_entered_unknown_at er"
  by (simp_all add: set_observation_def identity_cols_def terminal_cols_def lease_cols_def)

lemma to_unknown_frame [simp]:
  "er_state (to_unknown now er) = StateUnknown"
  "er_version (to_unknown now er) = er_version er + 1"
  "identity_cols (to_unknown now er) = identity_cols er"
  "terminal_cols (to_unknown now er) = terminal_cols er"
  "lease_cols (to_unknown now er) = (None, None, None, None)"
  "er_lease_generation (to_unknown now er) = er_lease_generation er"
  "er_recovery_locator (to_unknown now er) = er_recovery_locator er"
  "er_entered_unknown_at (to_unknown now er) = Some now"
  "er_result (to_unknown now er) = er_result er"
  "er_evidence_digest (to_unknown now er) = er_evidence_digest er"
  "provider_cols (to_unknown now er) = provider_cols er"
  by (simp_all add: to_unknown_def identity_cols_def terminal_cols_def lease_cols_def provider_cols_def)

lemma provider_ext_cong: "provider_cols a = provider_cols b \<Longrightarrow> provider_ext a er' = provider_ext b er'"
  by (simp add: provider_ext_def provider_cols_def)

lemma observation_agrees_to_unknown [simp]: "observation_agrees obs (to_unknown now er) = observation_agrees obs er"
  by (simp add: observation_agrees_def to_unknown_def)

lemma evolve_enter_observed:
  assumes legal: "isLegalTransition es StateUnknown"
    and tx: "tx_EnterRecoveryWithObservation s eid es v raw obs now d = TxCommit d' x"
  shows "rows_evolve OK None (execution_requests d) (execution_requests d')"
  using tx unfolding tx_EnterRecoveryWithObservation_def
proof (rule evolve_guarded)
  fix er assume "er_execution_id er = eid \<and> er_state er = es \<and> er_version er = v
      \<and> observation_agrees obs er \<and> epochGuard (st_epoch s) d"
  then show "row_step OK (None = Some (er_execution_id er)) er (set_observation now obs (to_unknown now er))"
    using legal set_observation_ext [of obs "to_unknown now er" now]
    by (auto intro!: row_step.uncertain simp: isLegalTransition_iff
        provider_ext_cong [of "to_unknown now er" er])
qed (auto simp: commit_event_def)

lemma evolve_record_observation:
  assumes "tx_RecordProviderObservation s eid t g raw obs now d = TxCommit d' x"
  shows "rows_evolve OK None (execution_requests d) (execution_requests d')"
  using assms unfolding tx_RecordProviderObservation_def
  by (rule evolve_guarded)
    (auto intro!: row_step.observe simp: commit_event_def set_observation_ext split: list.splits)

lemma evolve_recover_expired:
  assumes "tx_RecoverExpiredPreDispatch s eid v now d = TxCommit d' x"
  shows "rows_evolve OK None (execution_requests d) (execution_requests d')"
  using assms unfolding tx_RecoverExpiredPreDispatch_def
  by (rule evolve_event) (auto intro!: row_step.pre simp: view_defs isLegalTransition_iff)

lemma evolve_scrub:
  assumes "tx_ScrubStaleRecoveryLocators s older now d = TxCommit d' n"
  shows "rows_evolve OK None (execution_requests d) (execution_requests d')"
  using assms
  by (auto simp: tx_ScrubStaleRecoveryLocators_def scrub_due_def intro!: rows_evolve_update row_step.scrub)

lemma evolve_resolve_unknown:
  assumes "tx_ResolveUnknown s eid v now d = TxCommit d' x"
  shows "rows_evolve OK None (execution_requests d) (execution_requests d')"
  using assms unfolding tx_ResolveUnknown_def
  by (rule evolve_guarded) (auto intro!: row_step.admin simp: view_defs)

lemma coalesce_provider:
  "col_agrees c (nullableString p) \<Longrightarrow> col_ext c (coalesce (nullableString p) c)"
  "p \<noteq> [] \<Longrightarrow> coalesce (nullableString p) c = Some p"
  by (auto simp: col_ext_def nullableString_def dest: coalesce_ext)

lemma evolve_finalize:
  assumes OK: "OK s" and chk: "check_receipt es receipt = None"
    and ready: "decision_ready s eid existing receipt rd d"
    and tx: "tx_Finalize s eid t g es receipt rd v now d = TxCommit d' x"
  shows "rows_evolve OK None (execution_requests d) (execution_requests d')"
  using tx unfolding tx_Finalize_def Let_def
proof (rule evolve_event)
  let ?st = "tr_TerminalStatus receipt"
  have st: "?st = StateCommitted \<or> ?st = StateFailed" and es: "es = StateInFlight \<or> es = StateUnknown"
    using chk by (auto simp: check_receipt_def isLegalTransition_iff IsDurablyFinal_iff split: if_splits sum.splits)
  fix er assume er: "er \<in> set (execution_requests d)"
  assume p: "er_execution_id er = eid \<and> er_state er = es \<and> lease_fence t g now er \<and> er_version er = v
      \<and> col_agrees (er_provider_id er) (nullableString (tr_ProviderID receipt))
      \<and> col_agrees (er_provider_run_id er) (nullableString (tr_ProviderRunID receipt))
      \<and> epochGuard (st_epoch s) d"
  have id: "identity_cols existing = identity_cols er"
    using ready er p by (auto simp: decision_ready_def rows_of_def)
  let ?er' = "er\<lparr>er_state := ?st, er_result := nullableString (tr_CanonicalResult receipt),
      er_evidence_digest := nullableString (tr_EvidenceDigest receipt),
      er_receipt_version := tr_ReceiptVersion receipt,
      er_provider_id := coalesce (nullableString (tr_ProviderID receipt)) (er_provider_id er),
      er_provider_run_id := coalesce (nullableString (tr_ProviderRunID receipt)) (er_provider_run_id er),
      er_terminal_receipt_digest := Some rd,
      er_evidence_receipt := nullableString (tr_EvidenceReceipt receipt),
      er_terminal_result_digest := nullableString (sha256Hex (st_crypto s) (tr_CanonicalResult receipt)),
      er_terminal_evidence_digest := nullableString (tr_EvidenceDigest receipt),
      er_lease_owner := None, er_lease_token := None, er_lease_started_at := None,
      er_lease_expires_at := None, er_recovery_locator := None,
      er_version := er_version er + 1, er_updated_at := now\<rparr>"
  have "attested_by s existing receipt ?er'"
    using ready p id by (auto simp: attested_by_def decision_ready_def identity_cols_def coalesce_provider)
  then show "row_step OK (None = Some (er_execution_id er)) er ?er'"
    using p st es OK
    by (auto intro!: row_step.final simp: view_defs coalesce_provider [unfolded col_ext_def])
qed

lemma evolve_resolve:
  assumes OK: "OK s" and ns: "ns = StateCommitted \<or> ns = StateFailed"
    and ready: "decision_ready s eid existing (recovery_receipt eid existing ns res) rd d"
    and tx: "tx_ResolveRecovery s eid v ns res robs rd now d = TxCommit d' x"
  shows "rows_evolve OK None (execution_requests d) (execution_requests d')"
  using tx unfolding tx_ResolveRecovery_def Let_def
proof (rule evolve_guarded)
  fix er assume er: "er \<in> set (execution_requests d)"
  assume p: "er_execution_id er = eid \<and> er_state er = StateUnknown \<and> er_version er = v
      \<and> col_agrees (er_provider_id er) (nullableString (rr_ProviderID res))
      \<and> col_agrees (er_provider_run_id er) (nullableString (rr_ProviderRunID res))
      \<and> epochGuard (st_epoch s) d"
  have id: "identity_cols existing = identity_cols er"
    using ready er p by (auto simp: decision_ready_def rows_of_def)
  let ?er' = "er\<lparr>er_state := ns,
      er_result := coalesce (nullableString (rr_Result res)) (er_result er),
      er_evidence_digest := coalesce (nullableString (rr_EvidenceDigest res)) (er_evidence_digest er),
      er_receipt_version := rr_ReceiptVersion res,
      er_provider_id := coalesce (nullableString (rr_ProviderID res)) (er_provider_id er),
      er_provider_run_id := coalesce (nullableString (rr_ProviderRunID res)) (er_provider_run_id er),
      er_terminal_receipt_digest := Some rd,
      er_evidence_receipt := nullableString (rr_EvidenceReceipt res),
      er_terminal_result_digest := nullableString (sha256Hex (st_crypto s) (rr_Result res)),
      er_terminal_evidence_digest := nullableString (rr_EvidenceDigest res),
      er_reconcile_owner := None, er_reconcile_lease_expires_at := None,
      er_next_reconcile_at := None, er_last_reconcile_error := None, er_recovery_locator := None,
      er_version := er_version er + 1, er_updated_at := now\<rparr>"
  have "attested_by s existing (recovery_receipt eid existing ns res) ?er'"
    using ready p id
    by (auto simp: attested_by_def decision_ready_def recovery_receipt_def identity_cols_def coalesce_provider)
  then show "row_step OK (None = Some (er_execution_id er)) er ?er'"
    using p ns OK
    by (auto intro!: row_step.final simp: view_defs coalesce_provider [unfolded col_ext_def])
qed (auto simp: commit_event_def)

lemma claim_batch_commit:
  assumes "claim_batch s p f ev n now d = TxCommit d' recs"
  defines "hit \<equiv> \<lambda>er. er_execution_id er \<in> set (claim_candidates p n d) \<and> epochGuard (st_epoch s) d"
  shows "recs = map f (filter hit (execution_requests d))" and "recs \<noteq> []"
    and "d' = fold (\<lambda>r. sqliteInsertEffectEvent now (er_execution_id r) (ev r)) recs
                (d\<lparr>execution_requests := update_where hit f (execution_requests d)\<rparr>)"
  using assms by (auto simp: claim_batch_def Let_def split: if_splits)

lemma evolve_claim:
  assumes "claim_batch s p f ev n now d = TxCommit d' recs"
    and "\<And>er. row_step OK False er (f er)"
  shows "rows_evolve OK None (execution_requests d) (execution_requests d')"
  by (simp add: claim_batch_commit(3) [OF assms(1)] rows_evolve_update assms(2))

lemma evolve_claim_unknown:
  assumes "tx_ClaimUnknownBatch s owner n dur now d = TxCommit d' recs"
  shows "rows_evolve OK None (execution_requests d) (execution_requests d')"
  using assms unfolding tx_ClaimUnknownBatch_def
  by (rule evolve_claim) (rule row_step.admin, simp_all add: view_defs)

lemma evolve_claim_expired:
  assumes "tx_ClaimExpiredBatch s owner n dur now d = TxCommit d' recs"
  shows "rows_evolve OK None (execution_requests d) (execution_requests d')"
  using assms unfolding tx_ClaimExpiredBatch_def
  by (rule evolve_claim) (rule row_step.admin, simp_all add: view_defs)

lemma evolve_release:
  assumes "tx_ReleaseReconcileClaim s eid v bo le now d = TxCommit d' x"
  shows "rows_evolve OK None (execution_requests d) (execution_requests d')"
  using assms unfolding tx_ReleaseReconcileClaim_def
  by (rule evolve_event) (auto intro!: row_step.admin simp: view_defs)

lemma evolve_suspend:
  assumes "tx_SuspendReconciliation s eid v reason now d = TxCommit d' x"
  shows "rows_evolve OK None (execution_requests d) (execution_requests d')"
  using assms unfolding tx_SuspendReconciliation_def
  by (rule evolve_event) (auto intro!: row_step.admin simp: view_defs)

lemma evolve_renew_claim:
  assumes "tx_RenewReconcileClaim s eid v dur now d = TxCommit d' x"
  shows "rows_evolve OK None (execution_requests d) (execution_requests d')"
  using assms unfolding tx_RenewReconcileClaim_def
  by (rule evolve_event) (auto intro!: row_step.admin simp: view_defs)

lemma evolve_cluster:
  "tx_noteContentionEvent eid t meta now d = TxCommit d' x \<Longrightarrow> execution_requests d' = execution_requests d"
  "tx_AdvanceClusterEpoch e reason now d = TxCommit d' x \<Longrightarrow> execution_requests d' = execution_requests d"
  "tx_CompleteClusterRecovery e resolution now d = TxCommit d' x \<Longrightarrow> execution_requests d' = execution_requests d"
  by (auto simp: tx_noteContentionEvent_def commit_event_def tx_AdvanceClusterEpoch_def
      tx_CompleteClusterRecovery_def split: if_splits)

lemma insert_rows:
  assumes "tx_insert s g k p c dg a kl t dur now d = TxCommit d' x"
  shows "\<exists>er. execution_requests d' = execution_requests d @ [er] \<and> fresh_row er
      \<and> er_execution_id er \<notin> set (map er_execution_id (execution_requests d))
      \<and> key_of er \<notin> set (map key_of (execution_requests d))
      \<and> \<not> cm_recovery_required d \<and> er_admitted_epoch er = Some (cm_epoch d)"
  using assms
  by (auto simp: tx_insert_def Let_def fresh_row_def view_defs new_row_def key_of_def split: if_splits)

text \<open>The simulation.\<close>

definition evolves :: "(store \<Rightarrow> bool) \<Rightarrow> string option \<Rightarrow> exec_row list \<Rightarrow> exec_row list \<Rightarrow> bool" where
  "evolves OK l rs rs' \<longleftrightarrow>
    (\<exists>old new. rs' = old @ new \<and> rows_evolve OK l rs old
      \<and> (new = [] \<or> (\<exists>er. new = [er] \<and> fresh_row er
           \<and> er_execution_id er \<notin> set (map er_execution_id rs)
           \<and> key_of er \<notin> set (map key_of rs))))"

lemma evolves_kept: "rows_evolve OK l rs rs' \<Longrightarrow> evolves OK l rs rs'"
  unfolding evolves_def by (rule exI [of _ rs'], rule exI [of _ "[]"]) simp

lemma evolves_same: "rs' = rs \<Longrightarrow> evolves OK l rs rs'"
  by (simp add: evolves_kept)

lemma db_step_rows:
  assumes "db_step OK l d d'"
  shows "evolves OK l (execution_requests d) (execution_requests d')"
  using assms
proof (cases rule: db_step.cases)
  case (insert s g k p c dg a kl t dur now x)
  then show ?thesis
    using insert_rows [of s g k p c dg a kl t dur now d d' x] rows_evolve_refl
    unfolding evolves_def by metis
qed (blast intro: evolves_kept evolves_same evolve_unleased evolve_reclaim evolve_expire evolve_begin
    evolve_mark_in_flight evolve_renew evolve_abandon evolve_finalize evolve_enter evolve_enter_observed
    evolve_record_observation evolve_recover_expired evolve_scrub evolve_resolve_unknown evolve_resolve
    evolve_claim_unknown evolve_claim_expired evolve_release evolve_suspend evolve_renew_claim
    evolve_cluster)+

end
