(* ===== verification/StoreInvariants.thy ===== *)
theory StoreInvariants
  imports StoreSteps
begin

text \<open>
  Invariants of every reachable database and monotonicity along every execution.

  \<^item> \<open>row_inv\<close>: what the columns of a record look like in each lifecycle state.
  \<^item> \<open>unique_rows\<close>: execution identifiers and idempotency keys are unique.
  \<^item> \<open>lifecycle_preorder\<close>: the interface of a relation between an earlier and a later version of a
    record; a preorder that \<open>row_step\<close> respects holds between any two databases of an execution.
    It is interpreted for identity, progress through the stages, write-once provider columns, lease
    generations and frozen outcomes.
  \<^item> \<open>dispatch_inv\<close>: the ledger holds one \<open>DISPATCH_STARTED\<close> event for a record that has crossed the
    dispatch boundary and none for a record that has not.
  \<^item> \<open>event_sequences_ok\<close>, \<open>observation_sequences_ok\<close>: the ledgers number their entries
    consecutively from one for each execution.
\<close>

section \<open>Rows\<close>

definition no_outcome :: "exec_row \<Rightarrow> bool" where
  "no_outcome er \<longleftrightarrow> terminal_cols er = (0, None, None, None, None)"

definition no_provider :: "exec_row \<Rightarrow> bool" where
  "no_provider er \<longleftrightarrow> provider_cols er = (None, None, None, None, None, None, 0) \<and> result_cols er = (None, None)"

definition locator_sound :: "(store \<Rightarrow> bool) \<Rightarrow> exec_row \<Rightarrow> bool" where
  "locator_sound OK er \<longleftrightarrow>
    (\<forall>loc. er_recovery_locator er = Some loc \<longrightarrow> (\<exists>s raw. OK s \<and> prepare_locator s raw = Inr loc))"

definition row_inv :: "(store \<Rightarrow> bool) \<Rightarrow> exec_row \<Rightarrow> bool" where
  "row_inv OK er \<longleftrightarrow>
    (case er_state er of
       StatePrepared \<Rightarrow> no_provider er \<and> no_outcome er \<and> er_recovery_locator er = None
     | StateExecuting \<Rightarrow> no_provider er \<and> no_outcome er \<and> er_recovery_locator er = None
     | StateInFlight \<Rightarrow> no_outcome er \<and> er_lease_token er \<noteq> None \<and> er_lease_expires_at er \<noteq> None
     | StateUnknown \<Rightarrow>
         no_outcome er \<and> lease_cols er = (None, None, None, None) \<and> er_entered_unknown_at er \<noteq> None
     | StateDenied \<Rightarrow> False
     | _ \<Rightarrow>
         lease_cols er = (None, None, None, None) \<and> er_recovery_locator er = None
         \<and> (\<exists>s existing receipt. OK s \<and> attested_by s existing receipt er))
    \<and> locator_sound OK er \<and> 1 \<le> er_lease_generation er \<and> 1 \<le> er_version er"

lemma attested_by_frame:
  assumes "attested_by s existing receipt er"
    and "er_state er' = er_state er" "identity_cols er' = identity_cols er"
    and "terminal_cols er' = terminal_cols er" "provider_cols er' = provider_cols er"
  shows "attested_by s existing receipt er'"
  using assms by (auto simp: attested_by_def identity_cols_def terminal_cols_def provider_cols_def)

definition counters_ok :: "exec_row \<Rightarrow> bool" where
  "counters_ok er \<longleftrightarrow> 1 \<le> er_lease_generation er \<and> 1 \<le> er_version er"

lemma row_inv_pre:
  "pre_dispatch er \<Longrightarrow> row_inv OK er \<longleftrightarrow> no_provider er \<and> no_outcome er \<and> er_recovery_locator er = None \<and> counters_ok er"
  unfolding pre_dispatch_def row_inv_def counters_ok_def locator_sound_def by (elim disjE) auto

lemma row_inv_in_flight:
  "er_state er = StateInFlight \<Longrightarrow> row_inv OK er \<longleftrightarrow>
    no_outcome er \<and> er_lease_token er \<noteq> None \<and> er_lease_expires_at er \<noteq> None \<and> locator_sound OK er \<and> counters_ok er"
  by (auto simp: row_inv_def counters_ok_def)

lemma row_inv_unknown:
  "er_state er = StateUnknown \<Longrightarrow> row_inv OK er \<longleftrightarrow>
    no_outcome er \<and> lease_cols er = (None, None, None, None) \<and> er_entered_unknown_at er \<noteq> None
    \<and> locator_sound OK er \<and> counters_ok er"
  by (auto simp: row_inv_def counters_ok_def)

lemma row_inv_terminal:
  "terminal_row er \<Longrightarrow> row_inv OK er \<longleftrightarrow>
    lease_cols er = (None, None, None, None) \<and> er_recovery_locator er = None
    \<and> (\<exists>s existing receipt. OK s \<and> attested_by s existing receipt er) \<and> counters_ok er"
  unfolding terminal_row_def row_inv_def counters_ok_def locator_sound_def by (elim disjE) auto

lemma row_inv_not_denied: "row_inv OK er \<Longrightarrow> er_state er \<noteq> StateDenied"
  by (auto simp: row_inv_def)

lemma row_inv_stages:
  assumes "row_inv OK er"
  obtains "pre_dispatch er" | "er_state er = StateInFlight" | "er_state er = StateUnknown" | "terminal_row er"
  using row_inv_not_denied [OF assms] by (cases "er_state er") (auto simp: pre_dispatch_def terminal_row_def)

lemma fresh_row_inv: "fresh_row er \<Longrightarrow> row_inv OK er"
  by (simp add: row_inv_pre pre_dispatch_def fresh_row_def no_provider_def no_outcome_def counters_ok_def)

lemma row_step_identity: "row_step OK b er er' \<Longrightarrow> identity_cols er' = identity_cols er"
  by (induction rule: row_step.induct) (simp_all add: identity_cols_def)

lemma identity_key: "identity_cols er' = identity_cols er \<Longrightarrow> key_of er' = key_of er \<and> er_execution_id er' = er_execution_id er"
  by (simp add: identity_cols_def key_of_def)

lemma row_inv_step:
  assumes "row_step OK b er er'" "row_inv OK er"
  shows "row_inv OK er'"
  using assms
proof (induction rule: row_step.induct)
  case (pre er er')
  then show ?case
    by (simp add: row_inv_pre no_provider_def no_outcome_def counters_ok_def)
next
  case (dispatch er er' s rawloc loc p)
  then have "row_inv OK er \<longleftrightarrow> no_provider er \<and> no_outcome er \<and> er_recovery_locator er = None \<and> counters_ok er"
    by (simp add: row_inv_pre pre_dispatch_def)
  then show ?case
    using dispatch by (auto simp: row_inv_in_flight no_outcome_def locator_sound_def counters_ok_def lease_cols_def)
next
  case (admin er' er)
  have att: "attested_by s existing receipt er' = attested_by s existing receipt er" for s existing receipt
    using attested_by_frame admin.hyps by metis
  have frame: "no_provider er' = no_provider er" "no_outcome er' = no_outcome er"
      "locator_sound OK er' = locator_sound OK er" "counters_ok er \<longrightarrow> counters_ok er'"
      "pre_dispatch er' = pre_dispatch er" "terminal_row er' = terminal_row er"
    using admin.hyps
    by (auto simp: no_provider_def no_outcome_def locator_sound_def counters_ok_def pre_dispatch_def terminal_row_def)
  show ?case
    using admin.prems
  proof (cases rule: row_inv_stages)
    case 1
    then show ?thesis using admin frame by (simp add: row_inv_pre)
  next
    case 2
    then show ?thesis using admin frame by (auto simp: row_inv_in_flight)
  next
    case 3
    then show ?thesis using admin frame by (auto simp: row_inv_unknown lease_cols_def)
  next
    case 4
    then show ?thesis using admin frame att by (auto simp: row_inv_terminal lease_cols_def terminal_row_def)
  qed
next
  case (scrub er)
  then show ?case
    by (simp add: row_inv_unknown no_outcome_def terminal_cols_def lease_cols_def locator_sound_def counters_ok_def)
next
  case (observe er' er)
  from observe(2) show ?case
    using observe
    by (elim disjE) (auto simp: row_inv_in_flight row_inv_unknown no_outcome_def locator_sound_def counters_ok_def lease_cols_def)
next
  case (uncertain er er')
  then show ?case
    by (auto simp: row_inv_in_flight row_inv_unknown no_outcome_def locator_sound_def counters_ok_def)
next
  case (final er er' s existing receipt)
  have "lease_cols er' = (None, None, None, None)"
    using final.hyps(2) final.prems by (auto simp: row_inv_unknown)
  moreover have "\<exists>s existing receipt. OK s \<and> attested_by s existing receipt er'"
    using final by blast
  moreover have "counters_ok er'"
    using final by (auto simp: row_inv_def counters_ok_def)
  ultimately show ?case
    using final by (simp add: row_inv_terminal)
qed

section \<open>Tables\<close>

definition unique_rows :: "exec_row list \<Rightarrow> bool" where
  "unique_rows rs \<longleftrightarrow> distinct (map er_execution_id rs) \<and> distinct (map key_of rs)"

lemma rows_evolve_identity: "rows_evolve OK l rs rs' \<Longrightarrow> map identity_cols rs' = map identity_cols rs"
  unfolding rows_evolve_def by (induction rule: list_all2_induct) (auto dest: row_step_identity)

lemma map_identity_key:
  assumes "map identity_cols rs' = map identity_cols rs"
  shows "map er_execution_id rs' = map er_execution_id rs" "map key_of rs' = map key_of rs"
proof -
  have "map er_execution_id rs = map (\<lambda>c. fst (fst c)) (map identity_cols rs)"
    and "map key_of rs = map (\<lambda>((e, i, p, c, q, k), x). (p, c, i)) (map identity_cols rs)" for rs
    by (simp_all add: identity_cols_def key_of_def)
  with assms show "map er_execution_id rs' = map er_execution_id rs" "map key_of rs' = map key_of rs"
    by metis+
qed

lemmas rows_evolve_keys = map_identity_key [OF rows_evolve_identity]

lemma evolvesE:
  assumes "evolves OK l rs rs'"
  obtains (kept) "rows_evolve OK l rs rs'"
  | (added) old er where "rs' = old @ [er]" "rows_evolve OK l rs old" "fresh_row er"
      "er_execution_id er \<notin> set (map er_execution_id rs)" "key_of er \<notin> set (map key_of rs)"
  using assms unfolding evolves_def by auto

lemma unique_rows_evolves: "evolves OK l rs rs' \<Longrightarrow> unique_rows rs \<Longrightarrow> unique_rows rs'"
  by (erule evolvesE) (auto simp: unique_rows_def rows_evolve_keys simp flip: set_map)

lemma rows_evolve_inv:
  "rows_evolve OK l rs rs' \<Longrightarrow> list_all (row_inv OK) rs \<Longrightarrow> list_all (row_inv OK) rs'"
  unfolding rows_evolve_def by (induction rule: list_all2_induct) (auto intro: row_inv_step)

lemma inv_evolves: "evolves OK l rs rs' \<Longrightarrow> list_all (row_inv OK) rs \<Longrightarrow> list_all (row_inv OK) rs'"
  by (erule evolvesE) (auto intro: rows_evolve_inv fresh_row_inv)

definition db_inv :: "(store \<Rightarrow> bool) \<Rightarrow> db \<Rightarrow> bool" where
  "db_inv OK d \<longleftrightarrow> unique_rows (execution_requests d) \<and> list_all (row_inv OK) (execution_requests d)"

lemma db_inv_step: "db_step OK l d d' \<Longrightarrow> db_inv OK d \<Longrightarrow> db_inv OK d'"
  by (auto simp: db_inv_def dest: db_step_rows intro: unique_rows_evolves inv_evolves)

lemma db_inv_initial: "db_inv OK (initial_db now)"
  by (simp add: db_inv_def unique_rows_def initial_db_def)

lemma reachable_inv: "reachable OK d \<Longrightarrow> db_inv OK d"
  by (induction rule: reachable.induct) (auto intro: db_inv_initial db_inv_step)

lemma reachable_row_inv: "reachable OK d \<Longrightarrow> er \<in> set (execution_requests d) \<Longrightarrow> row_inv OK er"
  by (auto dest!: reachable_inv simp: db_inv_def list_all_iff)

lemma reachable_unique: "reachable OK d \<Longrightarrow> unique_rows (execution_requests d)"
  by (auto dest!: reachable_inv simp: db_inv_def)

lemma db_steps_refl [simp]: "db_steps OK d d"
  by (simp add: db_steps_def)

lemma db_steps_trans: "db_steps OK a b \<Longrightarrow> db_steps OK b c \<Longrightarrow> db_steps OK a c"
  by (simp add: db_steps_def)

lemma db_step_steps: "db_step OK l d d' \<Longrightarrow> db_steps OK d d'"
  by (auto simp: db_steps_def)

lemma reachable_steps: "db_steps OK d d' \<Longrightarrow> reachable OK d \<Longrightarrow> reachable OK d'"
  unfolding db_steps_def by (induction rule: rtranclp_induct) (auto intro: reachable.step)

section \<open>Relations along an execution\<close>

locale lifecycle_preorder =
  fixes R :: "exec_row \<Rightarrow> exec_row \<Rightarrow> bool"
  assumes refl: "R er er"
    and trans: "R a b \<Longrightarrow> R b c \<Longrightarrow> R a c"
    and step: "row_inv OK er \<Longrightarrow> row_step OK dispatching er er' \<Longrightarrow> R er er'"
begin

lemma rows_evolve_related:
  assumes "rows_evolve OK l rs rs'" "list_all (row_inv OK) rs" "er \<in> set rs"
  shows "\<exists>er'\<in>set rs'. er_execution_id er' = er_execution_id er \<and> R er er'"
  using assms unfolding rows_evolve_def
proof (induction rule: list_all2_induct)
  case (Cons r rs r' rs')
  have "R r r'"
    using Cons.hyps(1) Cons.prems(1) refl step by auto
  moreover have "er_execution_id r' = er_execution_id r"
    using Cons.hyps(1) row_step_identity identity_key by blast
  ultimately show ?case
    using Cons by auto
qed simp

lemma step_related:
  assumes "db_step OK l d d'" "db_inv OK d" "er \<in> set (execution_requests d)"
  shows "\<exists>er'\<in>set (execution_requests d'). er_execution_id er' = er_execution_id er \<and> R er er'"
  using db_step_rows [OF assms(1)]
proof (cases rule: evolvesE)
  case kept
  then show ?thesis
    using rows_evolve_related assms(2,3) by (auto simp: db_inv_def)
next
  case (added old new)
  then show ?thesis
    using rows_evolve_related [of OK l "execution_requests d" old er] assms(2,3) by (auto simp: db_inv_def)
qed

lemma steps_related:
  assumes "db_steps OK d d'" "reachable OK d" "er \<in> set (execution_requests d)"
  shows "\<exists>er'\<in>set (execution_requests d'). er_execution_id er' = er_execution_id er \<and> R er er'"
  using assms(1) unfolding db_steps_def
proof (induction rule: rtranclp_induct)
  case base
  then show ?case using assms(3) refl by auto
next
  case (step d1 d2)
  then obtain er1 l where er1: "er1 \<in> set (execution_requests d1)" "er_execution_id er1 = er_execution_id er"
      "R er er1" and l: "db_step OK l d1 d2"
    by auto
  have "reachable OK d1"
    using reachable_steps step.hyps(1) assms(2) unfolding db_steps_def by blast
  then show ?case
    using step_related [OF l reachable_inv er1(1)] er1 trans by metis
qed

end

definition same_identity :: "exec_row \<Rightarrow> exec_row \<Rightarrow> bool" where
  "same_identity er er' \<longleftrightarrow> identity_cols er' = identity_cols er"

fun stage :: "state \<Rightarrow> nat" where
  "stage StatePrepared = 0"
| "stage StateExecuting = 0"
| "stage StateInFlight = 1"
| "stage StateUnknown = 2"
| "stage _ = 3"

definition progress :: "exec_row \<Rightarrow> exec_row \<Rightarrow> bool" where
  "progress er er' \<longleftrightarrow> stage (er_state er) \<le> stage (er_state er')"

definition lease_order :: "exec_row \<Rightarrow> exec_row \<Rightarrow> bool" where
  "lease_order er er' \<longleftrightarrow>
    er_version er \<le> er_version er' \<and> er_lease_generation er \<le> er_lease_generation er'
    \<and> (er_lease_token er' = er_lease_token er \<or> er_lease_token er' = None
       \<or> er_lease_generation er < er_lease_generation er')"

definition outcome_cols :: "exec_row \<Rightarrow> state \<times> (bytes option \<times> string option)
    \<times> (int \<times> string option \<times> bytes option \<times> string option \<times> string option)
    \<times> (string option \<times> string option \<times> string option \<times> bytes option \<times> string option \<times> string option \<times> int)
    \<times> bytes option \<times> (string option \<times> string option \<times> int option \<times> int option)" where
  "outcome_cols er =
    (er_state er, result_cols er, terminal_cols er, provider_cols er, er_recovery_locator er, lease_cols er)"

definition frozen :: "exec_row \<Rightarrow> exec_row \<Rightarrow> bool" where
  "frozen er er' \<longleftrightarrow> (terminal_row er \<longrightarrow> outcome_cols er' = outcome_cols er)"

lemma provider_ext_refl [simp]: "provider_ext er er"
  by (simp add: provider_ext_def col_ext_def)

lemma provider_ext_cols: "provider_cols er' = provider_cols er \<Longrightarrow> provider_ext er er'"
  by (simp add: provider_ext_def col_ext_def provider_cols_def)

lemma row_step_provider_ext:
  assumes "row_inv OK er" "row_step OK b er er'"
  shows "provider_ext er er'"
  using assms(2,1)
proof (induction rule: row_step.induct)
  case (dispatch er er' s rawloc loc p)
  then show ?case
    by (simp add: row_inv_pre pre_dispatch_def no_provider_def provider_ext_def col_ext_def provider_cols_def)
qed (auto intro: provider_ext_cols simp: provider_cols_def)

lemma row_step_progress: "row_step OK b er er' \<Longrightarrow> progress er er'"
  by (induction rule: row_step.induct) (auto simp: progress_def pre_dispatch_def terminal_row_def)

lemma row_step_lease_order: "row_step OK b er er' \<Longrightarrow> lease_order er er'"
  by (induction rule: row_step.induct) (auto simp: lease_order_def lease_cols_def)

lemma row_step_frozen: "row_step OK b er er' \<Longrightarrow> frozen er er'"
  by (induction rule: row_step.induct)
    (auto simp: frozen_def terminal_row_def pre_dispatch_def outcome_cols_def lease_cols_def)

lemma col_ext_trans: "col_ext a b \<Longrightarrow> col_ext b c \<Longrightarrow> col_ext a c"
  by (auto simp: col_ext_def)

lemma provider_ext_trans: "provider_ext a b \<Longrightarrow> provider_ext b c \<Longrightarrow> provider_ext a c"
  unfolding provider_ext_def by (metis col_ext_trans)

interpretation identity_history: lifecycle_preorder same_identity
proof (unfold_locales, goal_cases)
  case (3 OK er dispatching er')
  then show ?case by (simp add: same_identity_def row_step_identity)
qed (simp_all add: same_identity_def)

interpretation progress_history: lifecycle_preorder progress
proof (unfold_locales, goal_cases)
  case (3 OK er dispatching er')
  then show ?case by (blast intro: row_step_progress)
qed (simp_all add: progress_def)

interpretation provider_history: lifecycle_preorder provider_ext
proof (unfold_locales, goal_cases)
  case (2 a b c)
  then show ?case by (rule provider_ext_trans)
next
  case (3 OK er dispatching er')
  then show ?case by (rule row_step_provider_ext)
qed simp

interpretation lease_history: lifecycle_preorder lease_order
proof (unfold_locales, goal_cases)
  case (2 a b c)
  then show ?case by (auto simp: lease_order_def)
next
  case (3 OK er dispatching er')
  then show ?case by (blast intro: row_step_lease_order)
qed (simp add: lease_order_def)

interpretation outcome_history: lifecycle_preorder frozen
proof (unfold_locales, goal_cases)
  case (2 a b c)
  then show ?case by (auto simp: frozen_def terminal_row_def outcome_cols_def)
next
  case (3 OK er dispatching er')
  then show ?case by (blast intro: row_step_frozen)
qed (simp add: frozen_def)

section \<open>Dispatch events\<close>

definition dispatches :: "string \<Rightarrow> event_row list \<Rightarrow> nat" where
  "dispatches eid es =
    length (filter (\<lambda>e. ev_event_type e = EventDispatchStarted \<and> ev_execution_id e = eid) es)"

definition dispatched :: "string \<Rightarrow> exec_row list \<Rightarrow> bool" where
  "dispatched eid rs \<longleftrightarrow> (\<exists>er\<in>set rs. er_execution_id er = eid \<and> \<not> pre_dispatch er)"

definition dispatch_inv :: "db \<Rightarrow> bool" where
  "dispatch_inv d \<longleftrightarrow>
    (\<forall>eid. dispatches eid (effect_events d) = (if dispatched eid (execution_requests d) then 1 else 0))"

lemma rows_of_execution_requests [simp]:
  "rows_of eid (d\<lparr>execution_requests := rs\<rparr>) = filter (\<lambda>er. er_execution_id er = eid) rs"
  by (simp add: rows_of_def)

lemma event_row_for_fields [simp]:
  "ev_event_type (event_row_for now d ev er) = eventType ev"
  "ev_execution_id (event_row_for now d ev er) = er_execution_id er"
  "ev_sequence (event_row_for now d ev er) = max_event_sequence (er_execution_id er) (effect_events d) + 1"
  by (simp_all add: event_row_for_def)

lemma filter_rows_of [simp]:
  "filter (\<lambda>er. er_execution_id er = eid) (rows_of eid' d) = (if eid = eid' then rows_of eid' d else [])"
  by (simp add: rows_of_def)

lemma dispatches_insert_event:
  "dispatches eid (effect_events (sqliteInsertEffectEvent now eid' ev d)) =
    dispatches eid (effect_events d)
    + (if eventType ev = EventDispatchStarted \<and> eid = eid' then length (rows_of eid' d) else 0)"
proof -
  have "dispatches eid (map (event_row_for now d ev) rs) =
      (if eventType ev = EventDispatchStarted then length (filter (\<lambda>er. er_execution_id er = eid) rs) else 0)" for rs
    by (induction rs) (auto simp: dispatches_def)
  moreover have "dispatches eid (xs @ ys) = dispatches eid xs + dispatches eid ys" for xs ys
    by (simp add: dispatches_def)
  ultimately show ?thesis
    by (simp add: sqliteInsertEffectEvent_def)
qed

lemma effect_events_insert_observation [simp]:
  "effect_events (sqliteInsertObservationRow C now eid kind raw obs d) = effect_events d"
  by (simp add: sqliteInsertObservationRow_def)

lemma dispatches_fold:
  assumes "\<And>r. eventType (ev r) \<noteq> EventDispatchStarted"
  shows "dispatches eid (effect_events (fold (\<lambda>r. sqliteInsertEffectEvent now (er_execution_id r) (ev r)) rs d))
    = dispatches eid (effect_events d)"
  by (induction rs arbitrary: d) (simp_all add: dispatches_insert_event assms)

lemma guarded_quiet:
  assumes "guarded_update p f k d = TxCommit d' x"
    and "\<And>d1 d2 y. k d1 = TxCommit d2 y \<Longrightarrow> dispatches eid (effect_events d2) = dispatches eid (effect_events d1)"
  shows "dispatches eid (effect_events d') = dispatches eid (effect_events d)"
  using assms(2) [OF guarded_update_commit [OF assms(1)]] by simp

lemma commit_event_quiet:
  "commit_event now eid' ev d1 = TxCommit d2 y \<Longrightarrow> eventType ev \<noteq> EventDispatchStarted
    \<Longrightarrow> dispatches eid (effect_events d2) = dispatches eid (effect_events d1)"
  by (auto simp: commit_event_def dispatches_insert_event)

lemma claim_quiet:
  assumes "claim_batch s p f ev n now d = TxCommit d' recs" "\<And>r. eventType (ev r) \<noteq> EventDispatchStarted"
  shows "dispatches eid (effect_events d') = dispatches eid (effect_events d)"
  unfolding claim_batch_commit(3) [OF assms(1)] by (simp add: dispatches_fold assms(2))

lemmas payload_defs = effectEvent_def

lemma tx_quiet:
  assumes "db_step OK None d d'"
  shows "dispatches eid (effect_events d') = dispatches eid (effect_events d)"
  using assms
proof (cases rule: db_step.cases)
  case (claim_unknown s owner n dur now recs)
  from claim_unknown(2) show ?thesis
    unfolding tx_ClaimUnknownBatch_def by (rule claim_quiet) (simp add: payload_defs)
next
  case (claim_expired s owner n dur now recs)
  from claim_expired(2) show ?thesis
    unfolding tx_ClaimExpiredBatch_def by (rule claim_quiet) (simp add: payload_defs)
next
  case (insert s g k p c dg a kl t dur now x)
  then show ?thesis
    by (auto simp: tx_insert_def Let_def dispatches_insert_event payload_defs split: if_splits)
next
  case (scrub_locators s older now n)
  then show ?thesis
    by (auto simp: tx_ScrubStaleRecoveryLocators_def)
next
  case (record_observation s obs0 obs eid' t g now x)
  from record_observation(3) show ?thesis
    unfolding tx_RecordProviderObservation_def
    by (rule guarded_quiet) (auto simp: commit_event_def dispatches_insert_event payload_defs split: list.splits)
next
  case (advance e reason now x)
  then show ?thesis
    by (auto simp: tx_AdvanceClusterEpoch_def split: if_splits)
next
  case (complete e resolution now x)
  then show ?thesis
    by (auto simp: tx_CompleteClusterRecovery_def split: if_splits)
next
  case (contention t eid' meta now x)
  then show ?thesis
    by (auto simp: tx_noteContentionEvent_def commit_event_def dispatches_insert_event payload_defs)
qed (unfold tx_defs Let_def,
    (erule guarded_quiet, auto simp: commit_event_def dispatches_insert_event payload_defs)+)

lemma unique_rows_of:
  assumes "unique_rows (execution_requests d)" "er \<in> set (execution_requests d)"
  shows "rows_of (er_execution_id er) d = [er]"
proof -
  have "filter (\<lambda>r. er_execution_id r = er_execution_id er) rs = [er]"
    if "distinct (map er_execution_id rs)" "er \<in> set rs" for rs
    using that by (induction rs) (auto simp: filter_empty_conv image_iff)
  then show ?thesis
    using assms by (simp add: unique_rows_def rows_of_def)
qed

lemma dispatched_in_flight:
  assumes uniq: "unique_rows (execution_requests d)"
    and tx: "tx_MarkInFlight s eid t g p loc now d = TxCommit d' x"
  shows "\<not> dispatched eid (execution_requests d)" "dispatched eid (execution_requests d')"
    and "dispatches eid' (effect_events d') = dispatches eid' (effect_events d) + (if eid' = eid then 1 else 0)"
proof -
  let ?p = "\<lambda>er. er_execution_id er = eid \<and> er_state er = StateExecuting \<and> lease_fence t g now er
      \<and> epochGuard (st_epoch s) d"
  let ?f = "\<lambda>er. er\<lparr>er_state := StateInFlight, er_version := er_version er + 1,
      er_provider_id := nullableString p, er_recovery_locator := nullableString loc, er_updated_at := now\<rparr>"
  have "0 < rows_affected ?p (execution_requests d)"
    using tx by (auto simp: tx_MarkInFlight_def guarded_update_def split: if_splits)
  then obtain er where er: "er \<in> set (execution_requests d)" "?p er"
    by (auto simp: rows_affected_pos)
  have rows: "rows_of eid d = [er]"
    using unique_rows_of [OF uniq er(1)] er(2) by simp
  have d': "d' = sqliteInsertEffectEvent now eid
      ((effectEvent EventDispatchStarted)\<lparr>previousState := Some StateExecuting,
         newState := Some StateInFlight, claimGeneration := g\<rparr>)
      (d\<lparr>execution_requests := update_where ?p ?f (execution_requests d)\<rparr>)"
    using guarded_update_commit [OF tx [unfolded tx_MarkInFlight_def]] by (simp add: commit_event_def)
  show "\<not> dispatched eid (execution_requests d)"
  proof
    assume "dispatched eid (execution_requests d)"
    then obtain r where "r \<in> set (rows_of eid d)" "\<not> pre_dispatch r"
      by (auto simp: dispatched_def rows_of_def)
    then show False
      using rows er(2) by (simp add: pre_dispatch_def)
  qed
  have "?f er \<in> set (execution_requests d')"
    using er by (auto simp: d' set_update_where image_iff intro: bexI [of _ er])
  then show "dispatched eid (execution_requests d')"
    using er(2) by (auto simp: dispatched_def pre_dispatch_def intro!: bexI [of _ "?f er"])
  have "length (filter (\<lambda>er. er_execution_id er = eid) (update_where ?p ?f rs))
      = length (filter (\<lambda>er. er_execution_id er = eid) rs)" for rs
    by (induction rs) auto
  then show "dispatches eid' (effect_events d') = dispatches eid' (effect_events d) + (if eid' = eid then 1 else 0)"
    using rows by (simp add: d' dispatches_insert_event payload_defs rows_of_def)
qed

lemma row_step_pre_dispatch: "row_step OK False er er' \<Longrightarrow> pre_dispatch er' = pre_dispatch er"
  by (erule row_step.cases) (auto simp: pre_dispatch_def terminal_row_def)

lemma rows_evolve_dispatched:
  "rows_evolve OK l rs rs' \<Longrightarrow> l \<noteq> Some eid \<Longrightarrow> dispatched eid rs' = dispatched eid rs"
  unfolding rows_evolve_def
proof (induction rule: list_all2_induct)
  case (Cons r rs r' rs')
  have "er_execution_id r' = er_execution_id r"
    using Cons.hyps(1) row_step_identity identity_key by blast
  moreover have "er_execution_id r = eid \<Longrightarrow> pre_dispatch r' = pre_dispatch r"
    using Cons.hyps(1) Cons.prems row_step_pre_dispatch by auto
  ultimately show ?case
    using Cons by (auto simp: dispatched_def)
qed (simp add: dispatched_def)

lemma evolves_dispatched:
  assumes "evolves OK l rs rs'" "l \<noteq> Some eid"
  shows "dispatched eid rs' = dispatched eid rs"
  using assms(1)
proof (cases rule: evolvesE)
  case (added old er)
  then have "dispatched eid rs' = dispatched eid old"
    by (auto simp: dispatched_def fresh_row_def pre_dispatch_def)
  then show ?thesis
    using rows_evolve_dispatched added assms(2) by blast
qed (use rows_evolve_dispatched assms(2) in blast)

lemma dispatch_inv_step:
  assumes step: "db_step OK l d d'" and inv: "db_inv OK d" "dispatch_inv d"
  shows "dispatch_inv d'"
proof (cases l)
  case None
  then show ?thesis
    using tx_quiet evolves_dispatched [OF db_step_rows [OF step]] step inv(2)
    by (simp add: dispatch_inv_def)
next
  case (Some eid)
  from step Some obtain s t g p loc now x where tx: "tx_MarkInFlight s eid t g p loc now d = TxCommit d' x"
    by (cases rule: db_step.cases) auto
  have uniq: "unique_rows (execution_requests d)"
    using inv(1) by (simp add: db_inv_def)
  note facts = dispatched_in_flight [OF uniq tx]
  show ?thesis
    unfolding dispatch_inv_def
  proof
    fix eid'
    show "dispatches eid' (effect_events d') = (if dispatched eid' (execution_requests d') then 1 else 0)"
    proof (cases "eid' = eid")
      case True
      then show ?thesis
        using facts inv(2) by (simp add: dispatch_inv_def)
    next
      case False
      then show ?thesis
        using facts(3) inv(2) evolves_dispatched [OF db_step_rows [OF step]] Some
        by (simp add: dispatch_inv_def)
    qed
  qed
qed

lemma reachable_dispatch_inv: "reachable OK d \<Longrightarrow> dispatch_inv d"
proof (induction rule: reachable.induct)
  case (init now)
  then show ?case
    by (simp add: dispatch_inv_def dispatches_def dispatched_def initial_db_def)
qed (blast intro: dispatch_inv_step reachable_inv)

end
