(* ===== verification/StoreLedger.thy ===== *)
theory StoreLedger
  imports StoreInvariants
begin

text \<open>
  The forensic ledgers: both number the entries of an execution consecutively from one, in the order
  in which the transactions committed, and neither ever loses or rewrites an entry.
\<close>

definition events_of :: "string \<Rightarrow> event_row list \<Rightarrow> event_row list" where
  "events_of eid es = filter (\<lambda>e. ev_execution_id e = eid) es"

definition observations_of :: "string \<Rightarrow> observation_row list \<Rightarrow> observation_row list" where
  "observations_of eid os = filter (\<lambda>x. ob_execution_id x = eid) os"

definition consecutive :: "nat list \<Rightarrow> bool" where
  "consecutive ns \<longleftrightarrow> ns = [1..<Suc (length ns)]"

definition ledgers_ok :: "db \<Rightarrow> bool" where
  "ledgers_ok d \<longleftrightarrow>
    (\<forall>eid. consecutive (map ev_sequence (events_of eid (effect_events d))))
    \<and> (\<forall>eid. consecutive (map ob_sequence (observations_of eid (effect_provider_observations d))))"

lemma fold_max_consecutive: "consecutive ns \<Longrightarrow> fold max ns 0 = length ns"
proof -
  have "fold max [1..<Suc n] 0 = n" for n :: nat
    by (induction n) auto
  then show "consecutive ns \<Longrightarrow> fold max ns 0 = length ns"
    unfolding consecutive_def by metis
qed

lemma consecutive_append: "consecutive ns \<Longrightarrow> consecutive (ns @ [Suc (length ns)])"
  by (simp add: consecutive_def)

lemma max_event_sequence_length:
  "consecutive (map ev_sequence (events_of eid es)) \<Longrightarrow> max_event_sequence eid es = length (events_of eid es)"
  using fold_max_consecutive [of "map ev_sequence (events_of eid es)"]
  by (simp add: max_event_sequence_def events_of_def)

lemma max_observation_sequence_length:
  "consecutive (map ob_sequence (observations_of eid os))
    \<Longrightarrow> max_observation_sequence eid os = length (observations_of eid os)"
  using fold_max_consecutive [of "map ob_sequence (observations_of eid os)"]
  by (simp add: max_observation_sequence_def observations_of_def)

lemma unique_rows_of_cases:
  assumes "unique_rows (execution_requests d)"
  obtains "rows_of eid d = []" | er where "rows_of eid d = [er]" "er_execution_id er = eid"
proof (cases "rows_of eid d")
  case (Cons er ers)
  then have "er \<in> set (rows_of eid d)"
    by simp
  then have "er \<in> set (execution_requests d)" "er_execution_id er = eid"
    by (simp_all add: rows_of_def)
  then show thesis
    using unique_rows_of [OF assms] that(2) by blast
qed (use that(1) in blast)

lemma ledgers_ok_execution_requests [simp]:
  "ledgers_ok (d\<lparr>execution_requests := rs\<rparr>) = ledgers_ok d"
  by (simp add: ledgers_ok_def)

lemma ledgers_ok_insert_event:
  assumes "unique_rows (execution_requests d)" "ledgers_ok d"
  shows "ledgers_ok (sqliteInsertEffectEvent now eid ev d)"
  using assms(1)
proof (cases rule: unique_rows_of_cases [of d eid])
  case 1
  then show ?thesis
    using assms(2) by (simp add: sqliteInsertEffectEvent_def ledgers_ok_def)
next
  case (2 er)
  let ?es = "effect_events d"
  have seq: "consecutive (map ev_sequence (events_of eid' ?es))" for eid'
    using assms(2) by (simp add: ledgers_ok_def)
  have new: "ev_sequence (event_row_for now d ev er) = Suc (length (events_of eid ?es))"
    using max_event_sequence_length [OF seq] 2 by simp
  have "consecutive (map ev_sequence (events_of eid' (?es @ [event_row_for now d ev er])))" for eid'
    using seq [of eid'] consecutive_append [OF seq [of eid]] new 2
    by (cases "eid' = eid") (simp_all add: events_of_def)
  then show ?thesis
    using assms(2) 2 by (simp add: ledgers_ok_def sqliteInsertEffectEvent_def)
qed

lemma ledgers_ok_insert_observation:
  assumes "unique_rows (execution_requests d)" "ledgers_ok d"
  shows "ledgers_ok (sqliteInsertObservationRow C now eid kind raw obs d)"
  using assms(1)
proof (cases rule: unique_rows_of_cases [of d eid])
  case 1
  then show ?thesis
    using assms(2) by (simp add: sqliteInsertObservationRow_def ledgers_ok_def)
next
  case (2 er)
  let ?os = "effect_provider_observations d"
  let ?o = "observation_row_for C now d kind raw obs er"
  have seq: "consecutive (map ob_sequence (observations_of eid' ?os))" for eid'
    using assms(2) by (simp add: ledgers_ok_def)
  have new: "ob_sequence ?o = Suc (length (observations_of eid ?os))" "ob_execution_id ?o = eid"
    using max_observation_sequence_length [OF seq] 2 by (simp_all add: observation_row_for_def)
  have "consecutive (map ob_sequence (observations_of eid' (?os @ [?o])))" for eid'
    using seq [of eid'] consecutive_append [OF seq [of eid]] new 2
    by (cases "eid' = eid") (simp_all add: observations_of_def)
  then show ?thesis
    using assms(2) 2 by (simp add: ledgers_ok_def sqliteInsertObservationRow_def)
qed

lemma ledgers_ok_fold:
  "unique_rows (execution_requests d) \<Longrightarrow> ledgers_ok d
    \<Longrightarrow> ledgers_ok (fold (\<lambda>r. sqliteInsertEffectEvent now (er_execution_id r) (ev r)) rs d)"
  by (induction rs arbitrary: d) (simp_all add: ledgers_ok_insert_event)

text \<open>How a transaction extends the ledgers, given that its rows stay unique.\<close>

definition extends_ledgers :: "db \<Rightarrow> db \<Rightarrow> bool" where
  "extends_ledgers d d' \<longleftrightarrow>
    prefix (effect_events d) (effect_events d')
    \<and> prefix (effect_provider_observations d) (effect_provider_observations d')
    \<and> (ledgers_ok d \<longrightarrow> unique_rows (execution_requests d') \<longrightarrow> ledgers_ok d')"

lemma extends_refl [simp]: "extends_ledgers d d"
  by (simp add: extends_ledgers_def)

lemma extends_rows [simp]: "extends_ledgers (d\<lparr>execution_requests := rs\<rparr>) d' = extends_ledgers d d'"
  by (simp add: extends_ledgers_def)

lemma extends_rows_right [simp]: "extends_ledgers d (d\<lparr>execution_requests := rs\<rparr>)"
  by (simp add: extends_ledgers_def)

lemma extends_event [simp]: "extends_ledgers d (sqliteInsertEffectEvent now eid ev d)"
  unfolding extends_ledgers_def
  by (auto intro: ledgers_ok_insert_event) (simp_all add: sqliteInsertEffectEvent_def)

lemma extends_observation [simp]: "extends_ledgers d (sqliteInsertObservationRow C now eid kind raw obs d)"
  unfolding extends_ledgers_def
  by (auto intro: ledgers_ok_insert_observation) (simp_all add: sqliteInsertObservationRow_def)

lemma extends_observation_event [simp]:
  "extends_ledgers d (sqliteInsertEffectEvent now eid ev (sqliteInsertObservationRow C now' eid' kind raw obs d))"
  unfolding extends_ledgers_def
  by (auto intro: ledgers_ok_insert_observation ledgers_ok_insert_event)
    (simp_all add: sqliteInsertObservationRow_def sqliteInsertEffectEvent_def)

lemma extends_event_rows [simp]:
  "extends_ledgers d (sqliteInsertEffectEvent now eid ev (d\<lparr>execution_requests := rs\<rparr>))"
  using extends_rows extends_event by metis

lemma prefix_insert_event: "prefix (effect_events d) (effect_events (sqliteInsertEffectEvent now eid ev d))"
  by (simp add: sqliteInsertEffectEvent_def)

lemma observations_insert_event [simp]:
  "effect_provider_observations (sqliteInsertEffectEvent now eid ev d) = effect_provider_observations d"
  by (simp add: sqliteInsertEffectEvent_def)

lemma extends_fold:
  "extends_ledgers d (fold (\<lambda>r. sqliteInsertEffectEvent now (er_execution_id r) (ev r)) rs d)"
proof -
  have "prefix (effect_events d) (effect_events (fold (\<lambda>r. sqliteInsertEffectEvent now (er_execution_id r) (ev r)) rs d))
     \<and> effect_provider_observations (fold (\<lambda>r. sqliteInsertEffectEvent now (er_execution_id r) (ev r)) rs d)
        = effect_provider_observations d" for d
    by (induction rs arbitrary: d) (auto intro: prefix_order.trans [OF prefix_insert_event])
  then show ?thesis
    by (simp add: extends_ledgers_def ledgers_ok_fold)
qed

lemma guarded_extends:
  assumes "guarded_update p f k d = TxCommit d' x"
    and "\<And>d1 d2 y. k d1 = TxCommit d2 y \<Longrightarrow> extends_ledgers d1 d2"
  shows "extends_ledgers d d'"
  using assms(2) [OF guarded_update_commit [OF assms(1)]] by simp

lemma claim_extends:
  assumes "claim_batch s p f ev n now d = TxCommit d' recs"
  shows "extends_ledgers d d'"
  unfolding claim_batch_commit(3) [OF assms] using extends_rows extends_fold by blast

lemma db_step_extends:
  assumes "db_step OK l d d'"
  shows "extends_ledgers d d'"
  using assms
proof (cases rule: db_step.cases)
  case (claim_unknown s owner n dur now recs)
  then show ?thesis
    unfolding tx_ClaimUnknownBatch_def by (blast intro: claim_extends)
next
  case (claim_expired s owner n dur now recs)
  then show ?thesis
    unfolding tx_ClaimExpiredBatch_def by (blast intro: claim_extends)
next
  case (insert s g k p c dg a kl t dur now x)
  then show ?thesis
    by (auto simp: tx_insert_def Let_def split: if_splits)
next
  case (scrub_locators s older now n)
  then show ?thesis
    by (auto simp: tx_ScrubStaleRecoveryLocators_def)
next
  case (record_observation s obs0 obs eid' t g now x)
  from record_observation(4) show ?thesis
    unfolding tx_RecordProviderObservation_def
    by (rule guarded_extends) (auto simp: commit_event_def split: list.splits)
next
  case (advance e reason now x)
  then show ?thesis
    by (auto simp: tx_AdvanceClusterEpoch_def extends_ledgers_def ledgers_ok_def split: if_splits)
next
  case (complete e resolution now x)
  then show ?thesis
    by (auto simp: tx_CompleteClusterRecovery_def extends_ledgers_def ledgers_ok_def split: if_splits)
next
  case (contention t eid' meta now x)
  then show ?thesis
    by (auto simp: tx_noteContentionEvent_def commit_event_def)
qed (unfold tx_defs Let_def, (erule guarded_extends, auto simp: commit_event_def split: if_splits)+)

lemma reachable_ledgers_ok: "reachable OK d \<Longrightarrow> ledgers_ok d"
proof (induction rule: reachable.induct)
  case (init now)
  then show ?case
    by (simp add: ledgers_ok_def initial_db_def events_of_def observations_of_def consecutive_def)
next
  case (step d l d')
  then have "unique_rows (execution_requests d')"
    using reachable.step reachable_unique by blast
  then show ?case
    using db_step_extends [OF step.hyps(2)] step.IH by (simp add: extends_ledgers_def)
qed

lemma db_steps_prefix:
  assumes "db_steps OK d d'"
  shows "prefix (effect_events d) (effect_events d')"
    and "prefix (effect_provider_observations d) (effect_provider_observations d')"
  using assms unfolding db_steps_def
  by (induction rule: rtranclp_induct)
    (auto dest!: db_step_extends simp: extends_ledgers_def intro: prefix_order.trans)

end
