(* ===== verification/StoreMethods.thy ===== *)
theory StoreMethods
  imports StoreLedger
begin

text \<open>
  From transactions to method calls.  A \<open>call\<close> is one call of a method of \<open>SQLiteStore\<close> with its
  arguments; \<open>run_call\<close> runs it in a world.  Under any interference that is itself made of committed
  transactions, and under any faults, a call moves the database along \<open>db_steps\<close>: the invariants of
  reachable databases hold whatever the methods do.
\<close>

section \<open>Calls\<close>

datatype call =
    CallAcquire string string string string string string authority_binding string int
  | CallBeginExecution string string int
  | CallMarkInFlight string string int string bytes
  | CallRenewLease string string int int
  | CallAbandonPreDispatch string string int
  | CallFinalize string string int state terminal_receipt
  | CallEnterRecovery string state int
  | CallEnterRecoveryWithObservation string state int provider_observation
  | CallRecordProviderObservation string string int provider_observation
  | CallRecoverExpiredPreDispatch string int
  | CallScrubStaleRecoveryLocators int
  | CallResolveRecovery string int recovery_result
  | CallClaimUnknownBatch string int int
  | CallClaimExpiredBatch string int int
  | CallReleaseReconcileClaim string int int string
  | CallSuspendReconciliation string int string
  | CallRenewReconcileClaim string int int
  | CallAdvanceClusterEpoch int string
  | CallCompleteClusterRecovery int string

fun run_call :: "store \<Rightarrow> call \<Rightarrow> world \<Rightarrow> world" where
  "run_call s (CallAcquire g t k p c dg a kl dur) w = snd (AcquireWithAuthority s g t k p c dg a kl dur w)"
| "run_call s (CallBeginExecution eid t g) w = snd (BeginExecution s eid t g w)"
| "run_call s (CallMarkInFlight eid t g p loc) w = snd (MarkInFlight s eid t g p loc w)"
| "run_call s (CallRenewLease eid t g dur) w = snd (RenewLease s eid t g dur w)"
| "run_call s (CallAbandonPreDispatch eid t g) w = snd (AbandonPreDispatch s eid t g w)"
| "run_call s (CallFinalize eid t g es r) w = snd (Finalize s eid t g es r w)"
| "run_call s (CallEnterRecovery eid es v) w = snd (EnterRecovery s eid es v w)"
| "run_call s (CallEnterRecoveryWithObservation eid es v obs) w = snd (EnterRecoveryWithObservation s eid es v obs w)"
| "run_call s (CallRecordProviderObservation eid t g obs) w = snd (RecordProviderObservation s eid t g obs w)"
| "run_call s (CallRecoverExpiredPreDispatch eid v) w = snd (RecoverExpiredPreDispatch s eid v w)"
| "run_call s (CallScrubStaleRecoveryLocators older) w = snd (ScrubStaleRecoveryLocators s older w)"
| "run_call s (CallResolveRecovery eid v res) w = snd (ResolveRecovery s eid v res w)"
| "run_call s (CallClaimUnknownBatch owner n dur) w = snd (ClaimUnknownBatch s owner n dur w)"
| "run_call s (CallClaimExpiredBatch owner n dur) w = snd (ClaimExpiredBatch s owner n dur w)"
| "run_call s (CallReleaseReconcileClaim eid v bo le) w = snd (ReleaseReconcileClaim s eid v bo le w)"
| "run_call s (CallSuspendReconciliation eid v reason) w = snd (SuspendReconciliation s eid v reason w)"
| "run_call s (CallRenewReconcileClaim eid v dur) w = snd (RenewReconcileClaim s eid v dur w)"
| "run_call s (CallAdvanceClusterEpoch e reason) w = snd (AdvanceClusterEpoch e reason w)"
| "run_call s (CallCompleteClusterRecovery e resolution) w = snd (CompleteClusterRecovery e resolution w)"

section \<open>Safe worlds\<close>

text \<open>The database is reachable and other writers only commit transactions.\<close>

definition safe :: "(store \<Rightarrow> bool) \<Rightarrow> world \<Rightarrow> bool" where
  "safe OK w \<longleftrightarrow>
    reachable OK (w_db w)
    \<and> (\<forall>t\<in>set (w_ticks w). \<forall>d. reachable OK d \<longrightarrow> db_steps OK d (tk_others t d))"

definition follows :: "(store \<Rightarrow> bool) \<Rightarrow> world \<Rightarrow> world \<Rightarrow> bool" where
  "follows OK w w' \<longleftrightarrow> (safe OK w \<longrightarrow> safe OK w' \<and> db_steps OK (w_db w) (w_db w'))"

lemma follows_refl [simp]: "follows OK w w"
  by (simp add: follows_def)

lemma follows_trans: "follows OK a b \<Longrightarrow> follows OK b c \<Longrightarrow> follows OK a c"
  by (auto simp: follows_def intro: db_steps_trans)

lemma w_db_bump [simp]: "w_db (bump_by n c w) = w_db w" "w_ticks (bump_by n c w) = w_ticks w"
  by (simp_all add: bump_by_def)

lemma follows_bump [simp]:
  "follows OK (bump_by n c w) w' = follows OK w w'" "follows OK w (bump_by n c w') = follows OK w w'"
  by (simp_all add: follows_def safe_def)

lemma follows_next_tick:
  assumes "next_tick w = (f, w1)"
  shows "follows OK w w1"
proof (cases "w_ticks w")
  case (Cons t ts)
  then show ?thesis
    using assms reachable_steps [of OK "w_db w" "tk_others t (w_db w)"]
    by (auto simp: follows_def safe_def next_tick_def)
qed (use assms in \<open>simp add: next_tick_def\<close>)

lemma follows_query:
  assumes "query q w = (r, w1)"
  shows "follows OK w w1"
  using assms by (auto simp: query_def intro: follows_next_tick split: prod.splits fault.splits)

lemma follows_exec:
  assumes run: "exec_tx body w = (r, w2)"
    and body: "\<And>now d d' x. safe OK w \<Longrightarrow> db_steps OK (w_db w) d \<Longrightarrow> reachable OK d \<Longrightarrow> body now d = TxCommit d' x
      \<Longrightarrow> \<exists>l. db_step OK l d d'"
  shows "follows OK w w2"
proof -
  obtain f w1 where tick: "next_tick w = (f, w1)"
    by (cases "next_tick w")
  note tick_follows = follows_next_tick [OF tick]
  show ?thesis
  proof (cases "w2 = w1")
    case False
    then obtain d x where commit: "body (w_now w1) (w_db w1) = TxCommit d x" and w2: "w2 = w1\<lparr>w_db := d\<rparr>"
      using run tick by (auto simp: exec_tx_def split: fault.splits tx.splits if_splits)
    have "safe OK w2 \<and> db_steps OK (w_db w) (w_db w2)" if sw: "safe OK w"
    proof -
      have w1: "safe OK w1" "db_steps OK (w_db w) (w_db w1)"
        using tick_follows sw by (simp_all add: follows_def)
      then obtain l where "db_step OK l (w_db w1) d"
        using body [OF sw w1(2) _ commit] by (auto simp: safe_def)
      then show ?thesis
        using w1 by (auto simp: safe_def w2 intro: db_step_steps db_steps_trans reachable_steps)
    qed
    then show ?thesis
      by (simp add: follows_def)
  qed (use tick_follows in simp)
qed

section \<open>Reads and hints\<close>

lemma first_row_world: "first_row r = (x, w1) \<Longrightarrow> snd r = w1"
  by (auto simp: first_row_def split: prod.splits sum.splits list.splits)

lemma follows_Lookup: "Lookup eid w = (r, w1) \<Longrightarrow> follows OK w w1"
  unfolding Lookup_def by (drule first_row_world, drule sym [of "snd _"]) (metis follows_query prod.collapse)

lemma follows_LookupByKey: "LookupByKey p c k w = (r, w1) \<Longrightarrow> follows OK w w1"
  unfolding LookupByKey_def by (drule first_row_world, drule sym [of "snd _"]) (metis follows_query prod.collapse)

lemma Lookup_found:
  assumes "Lookup eid w = (Inr er, w1)"
  shows "er \<in> set (execution_requests (w_db w1))" "er_execution_id er = eid"
proof -
  obtain ers where "query (\<lambda>now d. rows_of eid d) w = (Inr (er # ers), w1)"
    using assms by (auto simp: Lookup_def first_row_def split: prod.splits sum.splits list.splits)
  then have "rows_of eid (w_db w1) = er # ers"
    by (auto simp: query_def split: prod.splits fault.splits)
  then have "er \<in> set (rows_of eid (w_db w1))"
    by simp
  then show "er \<in> set (execution_requests (w_db w1))" "er_execution_id er = eid"
    by (simp_all add: rows_of_def)
qed

lemma LookupByKey_found:
  assumes "LookupByKey p c k w = (Inr er, w1)"
  shows "er \<in> set (execution_requests (w_db w1))" "key_of er = (p, c, k)"
proof -
  obtain ers where "query (\<lambda>now d. filter (\<lambda>er. key_of er = (p, c, k)) (execution_requests d)) w = (Inr (er # ers), w1)"
    using assms by (auto simp: LookupByKey_def first_row_def split: prod.splits sum.splits list.splits)
  then have "filter (\<lambda>er. key_of er = (p, c, k)) (execution_requests (w_db w1)) = er # ers"
    by (auto simp: query_def split: prod.splits fault.splits)
  then have "er \<in> set (filter (\<lambda>er. key_of er = (p, c, k)) (execution_requests (w_db w1)))"
    by simp
  then show "er \<in> set (execution_requests (w_db w1))" "key_of er = (p, c, k)"
    by simp_all
qed

lemma follows_checkEpoch: "checkEpoch s w = (r, w1) \<Longrightarrow> follows OK w w1"
  by (auto simp: checkEpoch_def split: prod.splits sum.splits if_splits dest: follows_query)

lemma follows_checkRecoveryMode: "checkRecoveryMode w = (r, w1) \<Longrightarrow> follows OK w w1"
  by (auto simp: checkRecoveryMode_def split: prod.splits sum.splits if_splits dest: follows_query)

lemma follows_note:
  assumes "t = EventLeaseLost \<or> t = EventClaimLost"
  shows "follows OK w (noteContentionEvent eid t meta w)"
proof -
  let ?w = "if t = EventLeaseLost then bump leaseLost w else w"
  obtain r w1 where run: "exec_tx (tx_noteContentionEvent eid t meta) ?w = (r, w1)"
    by (cases "exec_tx (tx_noteContentionEvent eid t meta) ?w")
  have "follows OK ?w w1"
    using run by (rule follows_exec) (blast intro: db_step.contention [OF assms])
  then show ?thesis
    using run by (simp add: noteContentionEvent_def split: if_splits)
qed

lemmas follows_reads = follows_checkEpoch follows_checkRecoveryMode follows_Lookup follows_LookupByKey follows_query

lemma follows_classify_lease:
  "classify_lease eid t g m1 m2 rec w = (e, w1) \<Longrightarrow> follows OK w w1"
  by (auto simp: classify_lease_def follows_note split: if_splits)

lemma follows_classifyTransitionFailure:
  "classifyTransitionFailure s eid t g es w = (e, w1) \<Longrightarrow> follows OK w w1"
  by (auto simp: classifyTransitionFailure_def split: prod.splits sum.splits option.splits if_splits
      dest!: follows_reads [where OK = OK] follows_classify_lease [where OK = OK])
    (blast intro: follows_trans)+

lemma follows_classifyRenewalFailure:
  "classifyRenewalFailure s eid t g w = (e, w1) \<Longrightarrow> follows OK w w1"
  by (auto simp: classifyRenewalFailure_def split: prod.splits sum.splits option.splits if_splits
      dest!: follows_reads [where OK = OK] follows_classify_lease [where OK = OK])
    (blast intro: follows_trans)+

lemma follows_classifyAbandonFailure:
  "classifyAbandonFailure s eid t g w = (e, w1) \<Longrightarrow> follows OK w w1"
  by (auto simp: classifyAbandonFailure_def split: prod.splits sum.splits option.splits if_splits
      dest!: follows_reads [where OK = OK] follows_classify_lease [where OK = OK])
    (blast intro: follows_trans)+

lemma follows_classifyEnterRecoveryFailure:
  "classifyEnterRecoveryFailure s eid es v w = (e, w1) \<Longrightarrow> follows OK w w1"
  by (auto simp: classifyEnterRecoveryFailure_def split: prod.splits sum.splits option.splits if_splits
      dest!: follows_reads [where OK = OK] intro: follows_trans)

lemma follows_classifyObservationFailure:
  "classifyObservationFailure s eid t g w = (e, w1) \<Longrightarrow> follows OK w w1"
  by (auto simp: classifyObservationFailure_def split: prod.splits sum.splits option.splits if_splits
      dest!: follows_reads [where OK = OK])
    (blast intro: follows_trans follows_note)+

lemma follows_claim_lost: "claim_lost s eid m w = (e, w1) \<Longrightarrow> follows OK w w1"
  by (auto simp: claim_lost_def split: prod.splits option.splits
      dest!: follows_reads [where OK = OK] intro: follows_trans [OF _ follows_note])

lemma follows_resolve_failure: "resolve_failure s eid v w = (e, w1) \<Longrightarrow> follows OK w w1"
  by (auto simp: resolve_failure_def split: prod.splits sum.splits option.splits if_splits
      dest!: follows_reads [where OK = OK] intro: follows_trans)

lemma follows_finalize_failure:
  "finalize_failure s eid t g es receipt rd w = (e, w1) \<Longrightarrow> follows OK w w1"
  by (auto simp: finalize_failure_def split: prod.splits sum.splits if_splits
      dest!: follows_reads [where OK = OK] follows_classifyTransitionFailure [where OK = OK] intro: follows_trans)

lemmas follows_failures = follows_classifyTransitionFailure follows_classifyRenewalFailure
  follows_classifyAbandonFailure follows_classifyEnterRecoveryFailure follows_classifyObservationFailure
  follows_claim_lost follows_resolve_failure follows_finalize_failure

section \<open>Methods\<close>

text \<open>A call that opens one transaction: the world after it follows the world before it.\<close>

lemma follows_case_tx:
  assumes run: "\<And>now d d' x. reachable OK d \<Longrightarrow> body now d = TxCommit d' x \<Longrightarrow> \<exists>l. db_step OK l d d'"
    and err: "\<And>e w1. follows OK w1 (snd (err e w1))"
    and none: "\<And>w1. follows OK w1 (snd (none w1))"
    and some: "\<And>x w1. follows OK w1 (snd (some x w1))"
  shows "follows OK w (snd (case exec_tx body w of
      (Inl e, w1) \<Rightarrow> err e w1 | (Inr None, w1) \<Rightarrow> none w1 | (Inr (Some x), w1) \<Rightarrow> some x w1))"
proof -
  obtain r w1 where tx: "exec_tx body w = (r, w1)"
    by (cases "exec_tx body w")
  have "follows OK w w1"
    using tx by (rule follows_exec) (use run in blast)
  then show ?thesis
    using err none some tx by (auto split: sum.splits option.splits intro: follows_trans)
qed

lemma follows_if:
  "(b \<Longrightarrow> follows OK w (snd x)) \<Longrightarrow> (\<not> b \<Longrightarrow> follows OK w (snd y)) \<Longrightarrow> follows OK w (snd (if b then x else y))"
  by simp

lemma follows_sum_case:
  "(\<And>e. m = Inl e \<Longrightarrow> follows OK w (snd (f e))) \<Longrightarrow> (\<And>x. m = Inr x \<Longrightarrow> follows OK w (snd (g x)))
    \<Longrightarrow> follows OK w (snd (case m of Inl e \<Rightarrow> f e | Inr x \<Rightarrow> g x))"
  by (simp split: sum.split)

lemma follows_option_case:
  "(m = None \<Longrightarrow> follows OK w (snd f)) \<Longrightarrow> (\<And>x. m = Some x \<Longrightarrow> follows OK w (snd (g x)))
    \<Longrightarrow> follows OK w (snd (case m of None \<Rightarrow> f | Some x \<Rightarrow> g x))"
  by (simp split: option.split)

lemma follows_pair_case:
  "follows OK w (snd m) \<Longrightarrow> (\<And>x w1. m = (x, w1) \<Longrightarrow> follows OK w1 (snd (f x w1)))
    \<Longrightarrow> follows OK w (snd (case m of (x, w1) \<Rightarrow> f x w1))"
  by (cases m) (auto intro: follows_trans)

lemmas follows_cases = follows_if follows_sum_case follows_option_case

lemma follows_snd:
  "(\<And>r w1. m w = (r, w1) \<Longrightarrow> follows OK w w1) \<Longrightarrow> follows OK w (snd (m w))"
  by (metis prod.collapse)

lemma legal_begin: "isLegalTransition StatePrepared StateExecuting = True"
  by (simp add: isLegalTransition_iff)

lemma follows_leaseFencedTransition:
  assumes "OK s"
  shows "follows OK w (snd (leaseFencedTransition s eid t g StatePrepared StateExecuting w))"
  unfolding leaseFencedTransition_def legal_begin not_True_eq_False if_False
  by (rule follows_case_tx)
    (auto intro: db_step.begin_execution [of OK s, OF assms] dest: follows_failures split: prod.splits)

lemma follows_BeginExecution: "OK s \<Longrightarrow> follows OK w (snd (BeginExecution s eid t g w))"
  using follows_leaseFencedTransition [of OK s w eid t g]
  by (auto simp: BeginExecution_def split: prod.splits option.splits)

lemma follows_MarkInFlight:
  assumes "OK s"
  shows "follows OK w (snd (MarkInFlight s eid t g p loc w))"
proof (cases "prepare_locator s loc")
  case (Inr loc')
  show ?thesis
    unfolding MarkInFlight_def Inr sum.case
    by (rule follows_case_tx)
      (auto intro: db_step.mark_in_flight [of OK s, OF assms Inr] dest: follows_failures split: prod.splits)
qed (simp add: MarkInFlight_def)

lemma follows_RenewLease:
  assumes "OK s"
  shows "follows OK w (snd (RenewLease s eid t g dur w))"
proof (cases "Validate (st_leaseCfg s) dur")
  case None
  show ?thesis
    unfolding RenewLease_def None option.case
    by (rule follows_case_tx)
      (auto intro: db_step.renew [of OK s, OF assms] dest: follows_failures split: prod.splits)
qed (simp add: RenewLease_def)

lemma follows_AbandonPreDispatch:
  assumes "OK s"
  shows "follows OK w (snd (AbandonPreDispatch s eid t g w))"
  unfolding AbandonPreDispatch_def
  by (rule follows_case_tx)
    (auto intro: db_step.abandon [of OK s, OF assms] dest: follows_failures split: prod.splits)

lemma follows_EnterRecovery:
  assumes "OK s"
  shows "follows OK w (snd (EnterRecovery s eid es v w))"
proof (cases "isLegalTransition es StateUnknown")
  case True
  then have eq: "isLegalTransition es StateUnknown = True"
    by simp
  show ?thesis
    unfolding EnterRecovery_def eq not_True_eq_False if_False
    by (rule follows_case_tx)
      (auto intro: db_step.enter [of OK s, OF assms True] dest: follows_reads split: prod.splits option.splits)
qed (simp add: EnterRecovery_def)

lemma follows_EnterRecoveryWithObservation:
  assumes "OK s"
  shows "follows OK w (snd (EnterRecoveryWithObservation s eid es v obs w))"
proof (cases "isLegalTransition es StateUnknown")
  case True
  then have eq: "isLegalTransition es StateUnknown = True"
    by simp
  show ?thesis
  proof (cases "canonicalizeObservation (st_crypto s) obs")
    case (Inr obs')
    show ?thesis
      unfolding EnterRecoveryWithObservation_def eq not_True_eq_False if_False Inr sum.case
      by (rule follows_case_tx)
        (auto intro: db_step.enter_observed [of OK s, OF assms True Inr] dest: follows_failures split: prod.splits)
  qed (simp add: EnterRecoveryWithObservation_def)
qed (simp add: EnterRecoveryWithObservation_def)

lemma follows_RecordProviderObservation:
  assumes "OK s"
  shows "follows OK w (snd (RecordProviderObservation s eid t g obs w))"
proof (cases "canonicalizeObservation (st_crypto s) obs")
  case (Inr obs')
  show ?thesis
    unfolding RecordProviderObservation_def Inr sum.case
    by (intro follows_case_tx)
      (auto intro: db_step.record_observation [of OK s, OF assms Inr] dest: follows_failures split: prod.splits)
qed (simp add: RecordProviderObservation_def)

lemma follows_RecoverExpiredPreDispatch:
  assumes "OK s"
  shows "follows OK w (snd (RecoverExpiredPreDispatch s eid v w))"
  unfolding RecoverExpiredPreDispatch_def
  by (rule follows_case_tx)
    (auto intro: db_step.recover_expired [of OK s, OF assms] dest: follows_reads split: prod.splits option.splits)

lemma follows_ScrubStaleRecoveryLocators:
  assumes "OK s"
  shows "follows OK w (snd (ScrubStaleRecoveryLocators s older w))"
proof -
  obtain r w1 where ep: "checkEpoch s w = (r, w1)"
    by (cases "checkEpoch s w")
  have "follows OK w1 (snd (case exec_tx (tx_ScrubStaleRecoveryLocators s older) w1 of
      (Inl e, w2) \<Rightarrow> (Inl e, w2) | (Inr None, w2) \<Rightarrow> (Inr 0, w2) | (Inr (Some n), w2) \<Rightarrow> (Inr n, w2)))"
    by (rule follows_case_tx) (auto intro: db_step.scrub_locators [of OK s, OF assms])
  with follows_checkEpoch [OF ep] show ?thesis
    by (auto simp: ScrubStaleRecoveryLocators_def ep split: option.splits intro: follows_trans)
qed

lemma follows_claims:
  assumes "OK s"
  shows "follows OK w (snd (ClaimUnknownBatch s owner n dur w))" "follows OK w (snd (ClaimExpiredBatch s owner n dur w))"
  unfolding ClaimUnknownBatch_def ClaimExpiredBatch_def
   apply (rule follows_case_tx)
      apply (auto intro: db_step.claim_unknown [of OK s, OF assms] dest: follows_reads split: prod.splits option.splits)[4]
  apply (rule follows_case_tx)
     apply (auto intro: db_step.claim_expired [of OK s, OF assms] dest: follows_reads split: prod.splits option.splits)[4]
  done

lemma follows_ReleaseReconcileClaim:
  assumes "OK s"
  shows "follows OK w (snd (ReleaseReconcileClaim s eid v bo le w))"
  unfolding ReleaseReconcileClaim_def
  by (rule follows_case_tx) (auto intro: db_step.release [of OK s, OF assms] follows_snd dest: follows_failures)

lemma follows_SuspendReconciliation:
  assumes "OK s"
  shows "follows OK w (snd (SuspendReconciliation s eid v reason w))"
  unfolding SuspendReconciliation_def
  by (rule follows_case_tx) (auto intro: db_step.suspend [of OK s, OF assms] follows_snd dest: follows_failures)

lemma follows_RenewReconcileClaim:
  assumes "OK s"
  shows "follows OK w (snd (RenewReconcileClaim s eid v dur w))"
  unfolding RenewReconcileClaim_def
  by (rule follows_case_tx) (auto intro: db_step.renew_claim [of OK s, OF assms] follows_snd dest: follows_failures)

lemma follows_cluster:
  "follows OK w (snd (AdvanceClusterEpoch e reason w))"
  "follows OK w (snd (CompleteClusterRecovery e resolution w))"
  unfolding AdvanceClusterEpoch_def CompleteClusterRecovery_def
   apply (rule follows_case_tx)
      apply (auto intro: db_step.advance dest: follows_reads split: prod.splits sum.splits)[4]
  apply (rule follows_case_tx)
     apply (auto intro: db_step.complete dest: follows_reads split: prod.splits sum.splits)[4]
  done

lemma identity_later:
  assumes "reachable OK d0" "db_steps OK d0 d" "existing \<in> set (execution_requests d0)"
    and "er \<in> set (rows_of (er_execution_id existing) d)"
  shows "identity_cols er = identity_cols existing"
proof -
  obtain er' where er': "er' \<in> set (execution_requests d)" "er_execution_id er' = er_execution_id existing"
      "identity_cols er' = identity_cols existing"
    using identity_history.steps_related [OF assms(2,1,3)] by (auto simp: same_identity_def)
  have "unique_rows (execution_requests d)"
    using reachable_unique reachable_steps assms(1,2) by blast
  then have "rows_of (er_execution_id existing) d = [er']"
    using unique_rows_of er' by metis
  then show ?thesis
    using assms(4) er'(3) by simp
qed

lemma decision_ready_later:
  assumes "safe OK w1" "existing \<in> set (execution_requests (w_db w1))" "er_execution_id existing = eid"
    and "db_steps OK (w_db w1) d"
    and "tr_ExecutionID receipt = eid" "tr_Capability receipt = er_capability_id existing"
    and "tr_Principal receipt = er_principal_id existing" "tr_RequestDigest receipt = er_request_digest existing"
    and "terminal_policy s existing receipt = None" "receipt_digest (st_crypto s) receipt = Inr rd"
  shows "decision_ready s eid existing receipt rd d"
  using assms identity_later [of OK "w_db w1" d existing] by (auto simp: decision_ready_def safe_def)

lemma check_receipt_complete [simp]:
  "check_receipt es (complete_receipt eid existing receipt) = check_receipt es receipt"
  by (simp add: check_receipt_def complete_receipt_def)

lemma complete_receipt_fields [simp]:
  "tr_ExecutionID (complete_receipt eid existing receipt) = eid"
  "tr_Capability (complete_receipt eid existing receipt) = er_capability_id existing"
  "tr_Principal (complete_receipt eid existing receipt) = er_principal_id existing"
  "tr_RequestDigest (complete_receipt eid existing receipt) = er_request_digest existing"
  by (simp_all add: complete_receipt_def)

lemma follows_finalize_tx:
  assumes OK: "OK s" and chk: "check_receipt es receipt = None"
    and found: "existing \<in> set (execution_requests (w_db w1))" "er_execution_id existing = eid"
    and receipt: "tr_ExecutionID receipt = eid" "tr_Capability receipt = er_capability_id existing"
      "tr_Principal receipt = er_principal_id existing" "tr_RequestDigest receipt = er_request_digest existing"
    and policy: "terminal_policy s existing receipt = None" and rd: "receipt_digest (st_crypto s) receipt = Inr rd"
    and run: "exec_tx (tx_Finalize s eid t g es receipt rd v) w1 = (r, w2)"
  shows "follows OK w1 w2"
  using run
proof (rule follows_exec)
  fix now d d' x
  assume "safe OK w1" "db_steps OK (w_db w1) d" "tx_Finalize s eid t g es receipt rd v now d = TxCommit d' x"
  then show "\<exists>l. db_step OK l d d'"
    using db_step.finalize [of OK s, OF OK chk]
      decision_ready_later [OF _ found _ receipt policy rd] by blast
qed

lemma follows_Finalize:
  assumes OK: "OK s"
  shows "follows OK w (snd (Finalize s eid t g es receipt0 w))"
proof -
  have tx: "follows OK w1 (snd (exec_tx (tx_Finalize s eid t g es (complete_receipt eid existing receipt0) rd v) w1))"
    if "check_receipt es receipt0 = None" "Lookup eid w = (Inr existing, w1)"
      "terminal_policy s existing (complete_receipt eid existing receipt0) = None"
      "receipt_digest (st_crypto s) (complete_receipt eid existing receipt0) = Inr rd" for existing w1 rd v
    by (rule follows_snd, erule follows_finalize_tx [of OK s, rotated -1])
      (use OK that Lookup_found [OF that(2)] in simp_all)
  show ?thesis
    unfolding Finalize_def Let_def
    by (intro follows_cases follows_pair_case)
      (auto intro: tx follows_snd dest: follows_failures follows_reads)
qed

lemma follows_resolve_tx:
  assumes OK: "OK s" and ns: "ns = StateCommitted \<or> ns = StateFailed"
    and canon: "canonicalizeObservation (st_crypto s) (recovery_observation res) = Inr robs"
    and found: "existing \<in> set (execution_requests (w_db w1))" "er_execution_id existing = eid"
    and policy: "terminal_policy s existing (recovery_receipt eid existing ns res) = None"
    and rd: "receipt_digest (st_crypto s) (recovery_receipt eid existing ns res) = Inr rd"
    and run: "exec_tx (tx_ResolveRecovery s eid v ns res robs rd) w1 = (r, w2)"
  shows "follows OK w1 w2"
  using run
proof (rule follows_exec)
  fix now d d' x
  assume a: "safe OK w1" "db_steps OK (w_db w1) d" "tx_ResolveRecovery s eid v ns res robs rd now d = TxCommit d' x"
  have "decision_ready s eid existing (recovery_receipt eid existing ns res) rd d"
    by (rule decision_ready_later [OF a(1) found a(2) _ _ _ _ policy rd]) (simp_all add: recovery_receipt_def)
  then show "\<exists>l. db_step OK l d d'"
    using db_step.resolve [of OK s, OF OK ns canon] a(3) by blast
qed

lemma follows_resolve_definitive:
  assumes OK: "OK s" and ns: "ns = StateCommitted \<or> ns = StateFailed"
  shows "follows OK w (snd (resolve_definitive s eid v ns res w))"
proof -
  have tx: "follows OK w1 (snd (exec_tx (tx_ResolveRecovery s eid v ns res robs rd) w1))"
    if "canonicalizeObservation (st_crypto s) (recovery_observation res) = Inr robs"
      "Lookup eid w = (Inr existing, w1)" "terminal_policy s existing (recovery_receipt eid existing ns res) = None"
      "receipt_digest (st_crypto s) (recovery_receipt eid existing ns res) = Inr rd" for existing w1 robs rd
    by (rule follows_snd, erule follows_resolve_tx [of OK s, OF OK ns that(1) Lookup_found [OF that(2)] that(3,4)])
  show ?thesis
    unfolding resolve_definitive_def Let_def
    by (intro follows_cases follows_pair_case)
      (auto intro: tx follows_snd dest: follows_failures follows_reads split: store_error.split)
qed

lemma follows_ResolveRecovery:
  assumes "OK s"
  shows "follows OK w (snd (ResolveRecovery s eid v res w))"
proof -
  have "follows OK w (snd (case exec_tx (tx_ResolveUnknown s eid v) w of
      (Inl e, w1) \<Rightarrow> (Some e, w1)
    | (Inr None, w1) \<Rightarrow>
        (case checkEpoch s w1 of
           (Some e, w2) \<Rightarrow> (Some e, w2) | (None, w2) \<Rightarrow> (Some (LeaseErr LeaseStateConflict), w2))
    | (Inr (Some _), w1) \<Rightarrow> (None, w1)))"
    by (rule follows_case_tx; (intro follows_cases follows_pair_case)?)
      (auto intro: db_step.resolve_unknown [of OK s, OF assms] follows_snd dest: follows_reads)
  then show ?thesis
    using follows_resolve_definitive [of OK s, OF assms]
    by (cases "rr_Decision res") (simp_all add: ResolveRecovery_def)
qed

subsection \<open>Acquire\<close>

lemma follows_refetch:
  assumes "\<And>rec w1. follows OK w1 (snd (next rec w1))"
  shows "follows OK w (snd (refetch k next w))"
  unfolding refetch_def
  by (intro follows_cases follows_pair_case) (auto intro: follows_snd assms dest: follows_reads)

lemma follows_acquireUnleased:
  assumes "OK s"
  shows "follows OK w (snd (acquireUnleased s rec t dur w))"
  unfolding acquireUnleased_def
  by (rule follows_case_tx)
    (auto intro: db_step.unleased [of OK s, OF assms] dest: follows_reads split: prod.splits option.splits)

lemma follows_reclaimExpiredLease:
  assumes "OK s"
  shows "follows OK w (snd (reclaimExpiredLease s rec t dur w))"
  unfolding reclaimExpiredLease_def
  by (rule follows_case_tx; (intro follows_cases follows_pair_case)?)
    (auto intro: db_step.reclaim [of OK s, OF assms] follows_snd dest: follows_reads)

lemma follows_markInFlightExpiredAsUnknown:
  assumes "OK s"
  shows "follows OK w (snd (markInFlightExpiredAsUnknown s rec act w))"
  unfolding markInFlightExpiredAsUnknown_def
  by (rule follows_case_tx)
    (auto intro: db_step.expire [of OK s, OF assms] dest: follows_reads split: prod.splits option.splits)

lemma follows_unleased_stage:
  assumes "OK s"
  shows "follows OK w (snd (acquire_unleased_stage s k t dur rec w))"
  unfolding acquire_unleased_stage_def
  by (intro follows_cases follows_pair_case)
    (auto simp: acquire_held_def intro: follows_refetch follows_acquireUnleased [of OK s, OF assms])

lemma follows_in_flight_stage:
  assumes "OK s"
  shows "follows OK w (snd (acquire_in_flight_stage s k t dur rec w))"
  unfolding acquire_in_flight_stage_def
  by (intro follows_cases follows_pair_case)
    (auto intro: follows_refetch follows_markInFlightExpiredAsUnknown [of OK s, OF assms]
      follows_unleased_stage [of OK s, OF assms])

lemma follows_reclaim_stage:
  assumes "OK s"
  shows "follows OK w (snd (acquire_reclaim_stage s k t dur rec w))"
  unfolding acquire_reclaim_stage_def
  by (intro follows_cases follows_pair_case)
    (auto intro: follows_refetch follows_reclaimExpiredLease [of OK s, OF assms]
      follows_in_flight_stage [of OK s, OF assms])

lemma follows_acquire_existing:
  assumes "OK s"
  shows "follows OK w (snd (acquire_existing s k dg t dur w))"
proof -
  have gone: "follows OK w1 (snd (case checkEpoch s w1 of
      (Some e, w2) \<Rightarrow> (Inl e, w2)
    | (None, w2) \<Rightarrow>
        (case checkRecoveryMode w2 of
           (Some e, w3) \<Rightarrow> (Inl e, w3) | (None, w3) \<Rightarrow> (Inl (LeaseErr LeaseStateConflict), w3))))" for w1
    by (intro follows_cases follows_pair_case) (auto intro: follows_snd dest: follows_reads)
  show ?thesis
    unfolding acquire_existing_def
    by (intro follows_cases follows_pair_case)
      (auto intro: follows_snd gone follows_reclaim_stage [of OK s, OF assms] dest: follows_reads
        split: store_error.split)
qed

lemma follows_AcquireWithAuthority:
  assumes "OK s"
  shows "follows OK w (snd (AcquireWithAuthority s g t k p c dg a kl dur w))"
proof (cases "Validate (st_leaseCfg s) dur")
  case None
  show ?thesis
    unfolding AcquireWithAuthority_def None option.case
    by (rule follows_case_tx)
      (auto intro: db_step.insert [of OK s, OF assms] follows_acquire_existing [of OK s, OF assms])
qed (simp add: AcquireWithAuthority_def)

section \<open>Every call is a sequence of transactions\<close>

lemma run_call_follows: "OK s \<Longrightarrow> follows OK w (run_call s c w)"
  by (cases c)
    (simp_all add: follows_AcquireWithAuthority follows_BeginExecution follows_MarkInFlight follows_RenewLease
      follows_AbandonPreDispatch follows_Finalize follows_EnterRecovery follows_EnterRecoveryWithObservation
      follows_RecordProviderObservation follows_RecoverExpiredPreDispatch follows_ScrubStaleRecoveryLocators
      follows_ResolveRecovery follows_claims follows_ReleaseReconcileClaim follows_SuspendReconciliation
      follows_RenewReconcileClaim follows_cluster)

end
