(* ===== verification/StoreProperties.thy ===== *)
theory StoreProperties
  imports StoreMethods
begin

text \<open>
  What the durable store promises of every run: safety of the effect lifecycle under arbitrary
  interleavings of method calls by arbitrarily many stores, with arbitrary faults and with arbitrary
  interference by other writers that are stores themselves.

  The sample values at the end of the first section are concrete inputs for the witnesses: a store
  whose hash is the identity and whose clock stands still.
\<close>

section \<open>Runs\<close>

abbreviation any_store :: "store \<Rightarrow> bool" where
  "any_store \<equiv> \<lambda>_. True"

definition run_calls :: "(store \<times> call) list \<Rightarrow> world \<Rightarrow> world" where
  "run_calls calls w = fold (\<lambda>(s, c). run_call s c) calls w"

lemma run_calls_follows: "\<forall>(s, c)\<in>set calls. OK s \<Longrightarrow> follows OK w (run_calls calls w)"
  unfolding run_calls_def
proof (induction calls arbitrary: w)
  case (Cons sc calls)
  then have "follows OK w (run_call (fst sc) (snd sc) w)"
    using run_call_follows [of OK "fst sc"] by auto
  then show ?case
    using Cons follows_trans by (auto simp: case_prod_unfold)
qed simp

lemma run_calls_reachable:
  assumes "\<forall>(s, c)\<in>set calls. OK s" "safe OK w"
  shows "reachable OK (w_db (run_calls calls w))" "db_steps OK (w_db w) (w_db (run_calls calls w))"
  using run_calls_follows [OF assms(1), of w] assms(2) by (simp_all add: follows_def safe_def)

definition sample_crypto :: crypto where
  "sample_crypto = \<lparr> sha256 = (\<lambda>b. b), ed25519_verify = (\<lambda>pub msg sig. True) \<rparr>"

definition sample_unicode :: unicode where
  "sample_unicode = \<lparr> uc_letter = (\<lambda>r. False), uc_digit = (\<lambda>r. False), uc_lower = (\<lambda>r. r) \<rparr>"

definition sample_store :: store where
  "sample_store =
    \<lparr> st_leaseCfg = DefaultLeaseConfig, st_epoch = 1, st_trustedSigners = [], st_verifier = None,
      st_locatorRedactor = None, st_leaseOwner = ''pid-1'', st_crypto = sample_crypto,
      st_unicode = sample_unicode \<rparr>"

definition sample_world :: world where
  "sample_world = \<lparr> w_db = initial_db 0, w_now = 0, w_metrics = (\<lambda>c. 0), w_ticks = [] \<rparr>"

definition sample_authority :: authority_binding where
  "sample_authority = \<lparr> ab_Ref = [], ab_Generation = 0, ab_Digest = [] \<rparr>"

text \<open>One minute, in nanoseconds.\<close>

definition minute :: int where
  "minute = 60 * 10 ^ 9"

definition acquire_call :: call where
  "acquire_call = CallAcquire ''x1'' ''t1'' ''k'' ''p'' ''c'' ''dg'' sample_authority ''STANDARD'' minute"

definition dispatch_calls :: "(store \<times> call) list" where
  "dispatch_calls =
    [(sample_store, acquire_call),
     (sample_store, CallBeginExecution ''x1'' ''t1'' 1),
     (sample_store, CallMarkInFlight ''x1'' ''t1'' 1 ''prov'' [])]"

lemma safe_sample_world: "safe OK sample_world"
  by (simp add: safe_def sample_world_def reachable.init)

lemma run_reachable: "safe any_store w \<Longrightarrow> reachable any_store (w_db (run_calls calls w))"
  using run_calls_reachable(1) [of calls any_store w] by simp

lemma safe_run_calls: "safe any_store w \<Longrightarrow> safe any_store (run_calls calls w)"
  using run_calls_follows [of calls any_store w] by (simp add: follows_def)

text \<open>The sample record at each stage of its life.\<close>

definition prepared_world :: world where
  "prepared_world = run_calls (take 1 dispatch_calls) sample_world"

definition in_flight_world :: world where
  "in_flight_world = run_calls dispatch_calls sample_world"

definition sample_receipt :: terminal_receipt where
  "sample_receipt =
    \<lparr> tr_ExecutionID = [], tr_Capability = [], tr_Principal = [], tr_RequestDigest = [],
      tr_TerminalStatus = StateCommitted, tr_CanonicalResult = ''{}'', tr_ProviderID = ''prov'',
      tr_ProviderRunID = ''run'', tr_EvidenceDigest = [], tr_ReceiptVersion = 0,
      tr_EvidenceReceipt = [], tr_FinalizedAt = 0 \<rparr>"

definition finalize_calls :: "(store \<times> call) list" where
  "finalize_calls = [(sample_store, CallFinalize ''x1'' ''t1'' 1 StateInFlight sample_receipt)]"

definition committed_world :: world where
  "committed_world = run_calls finalize_calls in_flight_world"

definition sample_row :: "world \<Rightarrow> exec_row" where
  "sample_row w = hd (execution_requests (w_db w))"

lemma sample_row_in: "execution_requests (w_db w) \<noteq> [] \<Longrightarrow> sample_row w \<in> set (execution_requests (w_db w))"
  by (simp add: sample_row_def)

lemma safe_sample_worlds:
  "safe any_store prepared_world" "safe any_store in_flight_world" "safe any_store committed_world"
  by (simp_all add: prepared_world_def in_flight_world_def committed_world_def safe_run_calls safe_sample_world)

lemma in_flight_from_prepared: "run_calls (drop 1 dispatch_calls) prepared_world = in_flight_world"
  by (simp add: prepared_world_def in_flight_world_def run_calls_def dispatch_calls_def)

lemma sample_rows:
  "execution_requests (w_db prepared_world) \<noteq> []"
  "execution_requests (w_db in_flight_world) \<noteq> []"
  "execution_requests (w_db committed_world) \<noteq> []"
  "er_execution_id (sample_row prepared_world) = ''x1''"
  "er_execution_id (sample_row in_flight_world) = ''x1''"
  "er_execution_id (sample_row committed_world) = ''x1''"
  "er_state (sample_row prepared_world) = StatePrepared"
  "er_state (sample_row in_flight_world) = StateInFlight"
  "er_state (sample_row committed_world) = StateCommitted"
  by code_simp+

lemmas sample_members = sample_rows(1-3) [THEN sample_row_in]

section \<open>Histories\<close>

context lifecycle_preorder
begin

lemma run_successor:
  assumes "safe any_store w" "er \<in> set (execution_requests (w_db w))"
  shows "\<exists>er'\<in>set (execution_requests (w_db (run_calls calls w))). er_execution_id er' = er_execution_id er \<and> R er er'"
  using steps_related [of any_store] run_calls_reachable(2) [of calls any_store w] assms by (simp add: safe_def)

lemma steps_related_row:
  assumes "db_steps OK d d'" "reachable OK d" "er \<in> set (execution_requests d)"
    and "er' \<in> set (execution_requests d')" "er_execution_id er' = er_execution_id er"
  shows "R er er'"
proof -
  obtain er1 where er1: "er1 \<in> set (execution_requests d')" "er_execution_id er1 = er_execution_id er" "R er er1"
    using steps_related assms(1-3) by blast
  have "inj_on er_execution_id (set (execution_requests d'))"
    using reachable_unique [OF reachable_steps [OF assms(1,2)]] by (simp add: unique_rows_def distinct_map)
  then have "er' = er1"
    using er1(1,2) assms(4,5) by (simp add: inj_onD)
  with er1(3) show ?thesis
    by simp
qed

lemma run_related:
  assumes "safe any_store w" "er \<in> set (execution_requests (w_db w))"
    and "er' \<in> set (execution_requests (w_db (run_calls calls w)))" "er_execution_id er' = er_execution_id er"
  shows "R er er'"
  using steps_related_row [of any_store] run_calls_reachable(2) [of calls any_store w] assms by (simp add: safe_def)

end

text \<open>The paths of the abstract lifecycle, and of the state graph the code keeps.\<close>

definition lifecycle :: "exec_row \<Rightarrow> exec_row \<Rightarrow> bool" where
  "lifecycle = (\<lambda>er er'. \<exists>b. row_step any_store b er er')\<^sup>*\<^sup>*"

definition legal_path :: "exec_row \<Rightarrow> exec_row \<Rightarrow> bool" where
  "legal_path er er' \<longleftrightarrow> isLegalTransition\<^sup>*\<^sup>* (er_state er) (er_state er')"

definition version_guards :: "exec_row \<Rightarrow> exec_row \<Rightarrow> bool" where
  "version_guards er er' \<longleftrightarrow>
    er_version er \<le> er_version er'
    \<and> (er_version er' = er_version er \<longrightarrow>
         er_state er' = er_state er \<and> er_lease_token er' = er_lease_token er
         \<and> er_lease_generation er' = er_lease_generation er \<and> terminal_cols er' = terminal_cols er)"

lemma row_step_any: "row_step OK b er er' \<Longrightarrow> row_step any_store b er er'"
proof (induction rule: row_step.induct)
  case (dispatch er er' s rawloc loc p)
  then show ?case
    using row_step.dispatch [of er er' any_store s] by simp
next
  case (final er er' s existing receipt)
  then show ?case
    using row_step.final [of er er' any_store s existing receipt] by simp
qed (auto intro: row_step.intros)

lemma row_step_legal:
  "row_step OK b er er' \<Longrightarrow> er_state er' = er_state er \<or> isLegalTransition (er_state er) (er_state er')"
  by (induction rule: row_step.induct) (auto simp: terminal_row_def isLegalTransition_iff)

lemma row_step_version: "row_step OK b er er' \<Longrightarrow> version_guards er er'"
  by (induction rule: row_step.induct) (auto simp: version_guards_def lease_cols_def terminal_cols_def)

interpretation lifecycle_history: lifecycle_preorder lifecycle
proof (unfold_locales, goal_cases)
  case (2 a b c)
  then show ?case by (simp add: lifecycle_def)
next
  case (3 OK er dispatching er')
  then show ?case unfolding lifecycle_def by (blast intro: row_step_any)
qed (simp add: lifecycle_def)

interpretation state_history: lifecycle_preorder legal_path
proof (unfold_locales, goal_cases)
  case (2 a b c)
  then show ?case by (simp add: legal_path_def)
next
  case (3 OK er dispatching er')
  then show ?case using row_step_legal [of OK dispatching er er'] by (auto simp: legal_path_def)
qed (simp add: legal_path_def)

interpretation version_history: lifecycle_preorder version_guards
proof (unfold_locales, goal_cases)
  case (2 a b c)
  then show ?case by (auto simp: version_guards_def)
next
  case (3 OK er dispatching er')
  then show ?case by (blast intro: row_step_version)
qed (simp add: version_guards_def)

section \<open>At most one dispatch\<close>

definition dispatches_of_key :: "string \<times> string \<times> string \<Rightarrow> db \<Rightarrow> event_row list" where
  "dispatches_of_key k d = filter (\<lambda>e. ev_event_type e = EventDispatchStarted
      \<and> list_ex (\<lambda>er. er_execution_id er = ev_execution_id e \<and> key_of er = k) (execution_requests d)) (effect_events d)"

lemma one_dispatch:
  assumes "dispatch_inv d" "unique_rows (execution_requests d)"
  shows "length (dispatches_of_key k d) \<le> 1"
proof (cases "\<exists>er\<in>set (execution_requests d). key_of er = k")
  case True
  then obtain er where er: "er \<in> set (execution_requests d)" "key_of er = k"
    by blast
  have only: "er' = er" if "er' \<in> set (execution_requests d)" "key_of er' = k" for er'
    using assms(2) er that by (auto simp: unique_rows_def distinct_map inj_on_def)
  have "list_ex (\<lambda>er. er_execution_id er = i \<and> key_of er = k) (execution_requests d) \<longleftrightarrow> i = er_execution_id er" for i
    unfolding list_ex_iff using er only by metis
  then have "length (dispatches_of_key k d) = dispatches (er_execution_id er) (effect_events d)"
    by (simp add: dispatches_of_key_def dispatches_def)
  then show ?thesis
    using assms(1) by (simp add: dispatch_inv_def)
next
  case False
  then have "dispatches_of_key k d = []"
    unfolding dispatches_of_key_def filter_empty_conv list_ex_iff by blast
  then show ?thesis
    by simp
qed

text \<open>
  C1. The dispatch boundary is crossed at most once for an idempotency key: whatever calls any
  number of stores make, in whatever order, with whatever interference and faults, the ledger never
  holds two \<open>DISPATCH_STARTED\<close> events for the executions of one (principal, capability, key).
\<close>

theorem at_most_one_dispatch_per_key:
  assumes "safe any_store w"
  shows "length (dispatches_of_key k (w_db (run_calls calls w))) \<le> 1"
proof -
  have "reachable any_store (w_db (run_calls calls w))"
    using run_calls_reachable(1) [of calls any_store w] assms by simp
  then show ?thesis
    by (intro one_dispatch reachable_dispatch_inv reachable_unique)
qed

theorem at_most_one_dispatch_per_key_witness:
  "length (dispatches_of_key (''p'', ''c'', ''k'') (w_db (run_calls dispatch_calls sample_world))) = 1"
proof -
  have "length (dispatches_of_key (''p'', ''c'', ''k'') (w_db (run_calls dispatch_calls sample_world))) \<noteq> 0"
    by code_simp
  then show ?thesis
    using at_most_one_dispatch_per_key [OF safe_sample_world, of "(''p'', ''c'', ''k'')" dispatch_calls] by linarith
qed

section \<open>The lifecycle\<close>

text \<open>
  C2. The store refines the abstract lifecycle: in any run, a record is never deleted, and its later
  version is reached from its earlier one by lifecycle steps only.
\<close>

theorem records_follow_the_lifecycle:
  assumes "safe any_store w" "er \<in> set (execution_requests (w_db w))"
  shows "\<exists>er'\<in>set (execution_requests (w_db (run_calls calls w))).
    er_execution_id er' = er_execution_id er \<and> lifecycle er er'"
  using assms by (rule lifecycle_history.run_successor)

theorem records_follow_the_lifecycle_witness:
  "\<exists>er'\<in>set (execution_requests (w_db in_flight_world)).
    er_execution_id er' = ''x1'' \<and> lifecycle (sample_row prepared_world) er'"
  using records_follow_the_lifecycle [OF safe_sample_worlds(1) sample_members(1), of "drop 1 dispatch_calls"]
  by (simp only: in_flight_from_prepared sample_rows(4))



text \<open>
  C4. A terminal outcome is frozen: once a record is \<open>COMMITTED\<close> or \<open>FAILED\<close>, its state, result,
  evidence, receipt, provider columns, locator and (empty) lease never change again.
\<close>

theorem terminal_outcome_is_frozen:
  assumes "safe any_store w" "er \<in> set (execution_requests (w_db w))" "terminal_row er"
    and "er' \<in> set (execution_requests (w_db (run_calls calls w)))" "er_execution_id er' = er_execution_id er"
  shows "outcome_cols er' = outcome_cols er"
  using outcome_history.run_related [OF assms(1,2,4,5)] assms(3) by (simp add: frozen_def)

definition late_calls :: "(store \<times> call) list" where
  "late_calls =
    [(sample_store, CallFinalize ''x1'' ''t1'' 1 StateInFlight (sample_receipt\<lparr>tr_TerminalStatus := StateFailed\<rparr>)),
     (sample_store, CallEnterRecovery ''x1'' StateInFlight 4),
     (sample_store, CallReleaseReconcileClaim ''x1'' 4 0 ''late'')]"

theorem terminal_outcome_is_frozen_witness:
  "er_version (sample_row (run_calls late_calls committed_world)) = er_version (sample_row committed_world) + 1
   \<and> outcome_cols (sample_row (run_calls late_calls committed_world)) = outcome_cols (sample_row committed_world)"
proof -
  have rows: "execution_requests (w_db (run_calls late_calls committed_world)) \<noteq> []"
      "er_execution_id (sample_row (run_calls late_calls committed_world)) = ''x1''"
      "er_version (sample_row (run_calls late_calls committed_world)) = er_version (sample_row committed_world) + 1"
    by code_simp+
  then show ?thesis
    using terminal_outcome_is_frozen [OF safe_sample_worlds(3) sample_members(3) _ sample_row_in [OF rows(1)]]
    by (simp add: terminal_row_def sample_rows)
qed

text \<open>
  C5. The columns of a record fit its state: nothing about a provider or an outcome before dispatch;
  a lease in flight; no lease, no outcome and the time of entry while uncertain; no lease, no locator
  and a receipt that passed the proof policy once terminal; and never the state \<open>DENIED\<close>.
\<close>

theorem records_fit_their_state:
  assumes "safe any_store w" "er \<in> set (execution_requests (w_db (run_calls calls w)))"
  shows "row_inv any_store er"
  by (rule reachable_row_inv [OF run_reachable [OF assms(1)] assms(2)])

theorem records_fit_their_state_witness: "row_inv any_store (sample_row in_flight_world)"
  using records_fit_their_state [OF safe_sample_worlds(1), of "sample_row in_flight_world" "drop 1 dispatch_calls"]
  by (simp only: in_flight_from_prepared sample_members)



text \<open>
  C7. Provider columns are write-once: an operation identity, status, result, digest or receipt
  version, once stored, is kept by every later observation, recovery and finalisation.
\<close>

theorem provider_columns_are_write_once:
  assumes "safe any_store w" "er \<in> set (execution_requests (w_db w))"
    and "er' \<in> set (execution_requests (w_db (run_calls calls w)))" "er_execution_id er' = er_execution_id er"
  shows "provider_ext er er'"
  using assms by (rule provider_history.run_related)

theorem provider_columns_are_write_once_witness:
  "er_provider_id (sample_row in_flight_world) = Some ''prov''
   \<and> provider_ext (sample_row in_flight_world) (sample_row committed_world)"
proof
  show "er_provider_id (sample_row in_flight_world) = Some ''prov''"
    by code_simp
  show "provider_ext (sample_row in_flight_world) (sample_row committed_world)"
    using provider_columns_are_write_once
      [OF safe_sample_worlds(2) sample_members(2), of "sample_row committed_world" finalize_calls]
      sample_members(3)
    by (simp only: committed_world_def [symmetric] sample_rows simp_thms)
qed



text \<open>
  C9. Admission is idempotent: the table never holds two records with the same execution identifier
  or the same (principal, capability, idempotency key).
\<close>

theorem keys_are_unique:
  assumes "safe any_store w"
  shows "distinct (map er_execution_id (execution_requests (w_db (run_calls calls w))))
    \<and> distinct (map key_of (execution_requests (w_db (run_calls calls w))))"
  using reachable_unique [OF run_reachable [OF assms]] by (simp add: unique_rows_def)

theorem keys_are_unique_witness:
  "distinct (map er_execution_id (execution_requests (w_db (run_calls (dispatch_calls @ dispatch_calls) sample_world))))
   \<and> distinct (map key_of (execution_requests (w_db (run_calls (dispatch_calls @ dispatch_calls) sample_world))))"
  by (rule keys_are_unique [OF safe_sample_world])

text \<open>
  C10. The forensic ledgers are append-only, and number the events and the observations of each
  execution consecutively from one.
\<close>

theorem ledgers_are_append_only:
  assumes "safe any_store w"
  shows "prefix (effect_events (w_db w)) (effect_events (w_db (run_calls calls w)))
    \<and> prefix (effect_provider_observations (w_db w)) (effect_provider_observations (w_db (run_calls calls w)))
    \<and> map ev_sequence (events_of eid (effect_events (w_db (run_calls calls w))))
        = [1..<Suc (length (events_of eid (effect_events (w_db (run_calls calls w)))))]
    \<and> map ob_sequence (observations_of eid (effect_provider_observations (w_db (run_calls calls w))))
        = [1..<Suc (length (observations_of eid (effect_provider_observations (w_db (run_calls calls w)))))]"
  using db_steps_prefix [OF run_calls_reachable(2) [of calls any_store w]] reachable_ledgers_ok [OF run_reachable [OF assms]]
    assms by (simp add: ledgers_ok_def consecutive_def)

theorem ledgers_are_append_only_witness:
  "length (events_of ''x1'' (effect_events (w_db in_flight_world))) = 3
   \<and> map ev_sequence (events_of ''x1'' (effect_events (w_db in_flight_world)))
        = [1..<Suc (length (events_of ''x1'' (effect_events (w_db in_flight_world))))]"
proof
  show "length (events_of ''x1'' (effect_events (w_db in_flight_world))) = 3"
    by code_simp
  show "map ev_sequence (events_of ''x1'' (effect_events (w_db in_flight_world)))
      = [1..<Suc (length (events_of ''x1'' (effect_events (w_db in_flight_world))))]"
    using ledgers_are_append_only [OF safe_sample_worlds(1), of "drop 1 dispatch_calls" "''x1''"]
    by (simp only: in_flight_from_prepared simp_thms)
qed

end
