(* ===== verification/StoreAttestation.thy ===== *)
theory StoreAttestation
  imports StoreProperties
begin

text \<open>
  What the records of a run say about the outside world: a \<open>CRITICAL\<close> outcome carries a signed receipt
  that verifies against the record itself, and a stored recovery locator is bounded and passed the
  credential scan.  Both follow from the invariant of reachable rows for the stores of one
  deployment, which share their cryptography, their trusted signers and their Unicode tables.
\<close>

section \<open>Deployments\<close>

text \<open>A store that uses the default evidence verifier with the given trusted signers.\<close>

definition default_verified :: "crypto \<Rightarrow> string list \<Rightarrow> store \<Rightarrow> bool" where
  "default_verified C signers s \<longleftrightarrow> st_crypto s = C \<and> st_trustedSigners s = signers \<and> st_verifier s = None"

text \<open>The binding the stored columns of a terminal record determine.\<close>

definition row_binding :: "exec_row \<Rightarrow> string \<Rightarrow> string \<Rightarrow> string \<Rightarrow> binding" where
  "row_binding er providerID runID digest =
    \<lparr> bd_ExecutionID = er_execution_id er, bd_Capability = er_capability_id er,
      bd_Principal = er_principal_id er, bd_RequestDigest = er_request_digest er,
      bd_ProviderID = providerID, bd_ProviderRunID = runID,
      bd_Outcome = (if er_state er = StateFailed then OutcomeNoEffect else OutcomeCompleted),
      bd_EvidenceSHA256 = digest \<rparr>"

definition signed_outcome :: "crypto \<Rightarrow> string list \<Rightarrow> exec_row \<Rightarrow> bool" where
  "signed_outcome C signers er \<longleftrightarrow>
    (\<exists>ev providerID runID digest.
       er_evidence_receipt er = Some ev
       \<and> er_provider_id er = Some providerID
       \<and> er_terminal_evidence_digest er = Some digest
       \<and> (runID = [] \<and> er_state er = StateFailed \<or> er_provider_run_id er = Some runID)
       \<and> VerifyReceipt C ev (row_binding er providerID runID digest) signers = None)"

section \<open>Signed outcomes\<close>

lemma VerifyReceipt_nonempty: "VerifyReceipt C data b signers = None \<Longrightarrow> data \<noteq> []"
  by (auto simp: VerifyReceipt_def ParseReceipt_def)

lemma signedReceiptVerifier_accepts:
  assumes "signedReceiptVerifier C signers rec receipt target = Inr v"
  shows "tr_EvidenceDigest receipt \<noteq> []" "tr_ProviderID receipt \<noteq> []"
    and "tr_ProviderRunID receipt \<noteq> [] \<or> target = StateFailed"
    and "VerifyReceipt C (tr_EvidenceReceipt receipt)
      (receipt_binding rec receipt (if target = StateFailed then OutcomeNoEffect else OutcomeCompleted)) signers = None"
  using assms by (auto simp: signedReceiptVerifier_def Let_def split: if_splits option.splits)

lemma attested_signed:
  assumes att: "attested_by s existing receipt er" and s: "default_verified C signers s"
    and er: "er_execution_class er = ''CRITICAL''" "terminal_row er"
  shows "signed_outcome C signers er"
proof -
  have ids: "er_execution_id existing = er_execution_id er" "er_capability_id existing = er_capability_id er"
      "er_principal_id existing = er_principal_id er" "er_request_digest existing = er_request_digest er"
      "er_execution_class existing = ''CRITICAL''"
    using att er(1) by (simp_all add: attested_by_def identity_cols_def)
  have cols: "tr_TerminalStatus receipt = er_state er"
      "er_evidence_receipt er = nullableString (tr_EvidenceReceipt receipt)"
      "er_terminal_evidence_digest er = nullableString (tr_EvidenceDigest receipt)"
      "tr_ProviderID receipt \<noteq> [] \<longrightarrow> er_provider_id er = Some (tr_ProviderID receipt)"
      "tr_ProviderRunID receipt \<noteq> [] \<longrightarrow> er_provider_run_id er = Some (tr_ProviderRunID receipt)"
    using att by (simp_all add: attested_by_def)
  have "evidenceVerifier s = signedReceiptVerifier C signers"
    using s by (simp add: default_verified_def evidenceVerifier_def)
  moreover have "terminal_policy s existing receipt = None"
    using att by (simp add: attested_by_def)
  ultimately obtain v where v: "signedReceiptVerifier C signers existing receipt (er_state er) = Inr v"
    using ids cols(1) by (auto simp: terminal_policy_def split: sum.splits)
  note acc = signedReceiptVerifier_accepts [OF v]
  have "receipt_binding existing receipt (if er_state er = StateFailed then OutcomeNoEffect else OutcomeCompleted)
      = row_binding er (tr_ProviderID receipt) (tr_ProviderRunID receipt) (tr_EvidenceDigest receipt)"
    by (simp add: receipt_binding_def row_binding_def ids)
  then have "VerifyReceipt C (tr_EvidenceReceipt receipt)
      (row_binding er (tr_ProviderID receipt) (tr_ProviderRunID receipt) (tr_EvidenceDigest receipt)) signers = None"
    using acc(4) by simp
  then show ?thesis
    unfolding signed_outcome_def
    using cols acc(1-3) VerifyReceipt_nonempty by (metis nullableString_def)
qed

text \<open>
  C11. In a deployment that uses the default verifier, every \<open>COMMITTED\<close> or \<open>FAILED\<close> record of class
  \<open>CRITICAL\<close> stores a receipt that verifies, under a trusted signer, against the record's own identity,
  its stored provider identity and evidence digest, and the outcome its state claims.
\<close>

theorem critical_outcomes_are_signed:
  assumes "safe (default_verified C signers) w" "list_all (default_verified C signers \<circ> fst) calls"
    and "er \<in> set (execution_requests (w_db (run_calls calls w)))"
    and "er_execution_class er = ''CRITICAL''" "terminal_row er"
  shows "signed_outcome C signers er"
proof -
  have "reachable (default_verified C signers) (w_db (run_calls calls w))"
    using run_calls_reachable(1) [of calls "default_verified C signers" w] assms(1,2)
    by (simp add: list_all_iff case_prod_unfold)
  then have "row_inv (default_verified C signers) er"
    using assms(3) by (rule reachable_row_inv)
  then show ?thesis
    using attested_signed assms(4,5) by (auto simp: row_inv_terminal)
qed

definition sample_key :: bytes where
  "sample_key = replicate 32 (CHR ''k'')"

definition sample_digest :: string where
  "sample_digest = replicate 64 (CHR ''a'')"

definition signing_store :: store where
  "signing_store = sample_store\<lparr>st_trustedSigners := [Fingerprint sample_crypto sample_key]\<rparr>"

definition sample_binding :: binding where
  "sample_binding =
    \<lparr> bd_ExecutionID = ''x1'', bd_Capability = ''c'', bd_Principal = ''p'', bd_RequestDigest = ''dg'',
      bd_ProviderID = ''prov'', bd_ProviderRunID = ''run'', bd_Outcome = OutcomeCompleted,
      bd_EvidenceSHA256 = sample_digest \<rparr>"

definition signed_sample :: bytes where
  "signed_sample =
    (case Sign sample_crypto sample_key (\<lambda>m. replicate 64 (CHR ''s'')) ''2026-01-02T03:04:05Z'' sample_binding of
       Inl e \<Rightarrow> [] | Inr b \<Rightarrow> b)"

definition critical_calls :: "(store \<times> call) list" where
  "critical_calls =
    [(signing_store, CallAcquire ''x1'' ''t1'' ''k'' ''p'' ''c'' ''dg'' sample_authority ''CRITICAL'' minute),
     (signing_store, CallBeginExecution ''x1'' ''t1'' 1),
     (signing_store, CallMarkInFlight ''x1'' ''t1'' 1 ''prov'' []),
     (signing_store, CallFinalize ''x1'' ''t1'' 1 StateInFlight
        (sample_receipt\<lparr>tr_EvidenceDigest := sample_digest, tr_ReceiptVersion := 3,
                        tr_EvidenceReceipt := signed_sample\<rparr>))]"

lemma critical_sample:
  "list_all (default_verified sample_crypto [Fingerprint sample_crypto sample_key] \<circ> fst) critical_calls"
  by (simp add: critical_calls_def default_verified_def signing_store_def sample_store_def)

definition critical_committed :: "world \<Rightarrow> bool" where
  "critical_committed w \<longleftrightarrow>
    list_all (\<lambda>er. er_execution_class er = ''CRITICAL'' \<and> terminal_row er) (execution_requests (w_db w))
    \<and> execution_requests (w_db w) \<noteq> []"

lemma critical_sample_committed: "critical_committed (run_calls critical_calls sample_world)"
  by code_simp

lemma critical_sample_row:
  "execution_requests (w_db (run_calls critical_calls sample_world)) \<noteq> []"
  "er_execution_class (sample_row (run_calls critical_calls sample_world)) = ''CRITICAL''"
  "terminal_row (sample_row (run_calls critical_calls sample_world))"
  using critical_sample_committed by (auto simp: critical_committed_def sample_row_def list_all_iff neq_Nil_conv)

theorem critical_outcomes_are_signed_witness:
  "signed_outcome sample_crypto [Fingerprint sample_crypto sample_key] (sample_row (run_calls critical_calls sample_world))"
  by (rule critical_outcomes_are_signed
        [OF safe_sample_world critical_sample sample_row_in [OF critical_sample_row(1)] critical_sample_row(2,3)])

section \<open>Recovery locators\<close>

lemma prepare_locator_sound:
  assumes "prepare_locator s raw = Inr loc"
  shows "int (length loc) \<le> MaxRecoveryLocatorBytes" "forbiddenLocatorField (st_unicode s) loc = []"
  using assms by (auto simp: prepare_locator_def split: if_splits option.splits sum.splits)

text \<open>
  C12. A recovery locator a record holds is at most 8192 bytes long and the credential scan finds no
  denied key in it, whatever redaction a store was configured with.
\<close>

theorem stored_locators_are_scanned:
  assumes "safe (\<lambda>s. st_unicode s = U) w" "list_all (\<lambda>(s, c). st_unicode s = U) calls"
    and "er \<in> set (execution_requests (w_db (run_calls calls w)))" "er_recovery_locator er = Some loc"
  shows "int (length loc) \<le> MaxRecoveryLocatorBytes \<and> forbiddenLocatorField U loc = []"
proof -
  have "reachable (\<lambda>s. st_unicode s = U) (w_db (run_calls calls w))"
    using run_calls_reachable(1) [of calls "\<lambda>s. st_unicode s = U" w] assms(1,2) by (simp add: list_all_iff)
  then have "row_inv (\<lambda>s. st_unicode s = U) er"
    using assms(3) by (rule reachable_row_inv)
  then show ?thesis
    using assms(4) prepare_locator_sound by (auto simp: row_inv_def locator_sound_def)
qed

definition locator_calls :: "(store \<times> call) list" where
  "locator_calls =
    take 2 dispatch_calls @ [(sample_store, CallMarkInFlight ''x1'' ''t1'' 1 ''prov'' ''{\"run\":1}'')]"

theorem stored_locators_are_scanned_witness:
  "er_recovery_locator (sample_row (run_calls locator_calls sample_world)) = Some ''{\"run\":1}''
   \<and> forbiddenLocatorField sample_unicode ''{\"run\":1}'' = []"
proof -
  have rows: "execution_requests (w_db (run_calls locator_calls sample_world)) \<noteq> []"
      "er_recovery_locator (sample_row (run_calls locator_calls sample_world)) = Some ''{\"run\":1}''"
    by code_simp+
  have "list_all (\<lambda>(s, c). st_unicode s = sample_unicode) locator_calls"
    by (simp add: locator_calls_def dispatch_calls_def sample_store_def)
  then show ?thesis
    using stored_locators_are_scanned [OF safe_sample_world _ sample_row_in [OF rows(1)] rows(2)] rows(2) by simp
qed

end
