(* ===== verification/Registry.thy ===== *)
theory Registry
  imports Digest
begin

text \<open>
  The capability registry (\<^verbatim>\<open>internal/capability/registry.go\<close>) and the availability view of a
  deployment (\<^verbatim>\<open>internal/capability/availability.go\<close>).  A capability is pinned along three dimensions
  (execution class, assurance profile, execution route); registration resolves the unspecified ones
  and refuses combinations the route cannot honour.

  The dimensions are Go strings, so any string may reach the functions; the registry's map is its
  association list sorted by key, as for every Go map of the library.  Texts of error messages are
  not modelled, their kinds are.
\<close>

section \<open>Dimensions\<close>

definition ClassPure :: string where "ClassPure = ''PURE''"
definition ClassRead :: string where "ClassRead = ''READ''"
definition ClassMutation :: string where "ClassMutation = ''MUTATION''"
definition ClassCritical :: string where "ClassCritical = ''CRITICAL''"

definition ExecutionClass_Valid :: "string \<Rightarrow> bool" where
  "ExecutionClass_Valid c \<longleftrightarrow> c = ClassPure \<or> c = ClassRead \<or> c = ClassMutation \<or> c = ClassCritical"

definition RequiresIdempotencyKey :: "string \<Rightarrow> bool" where
  "RequiresIdempotencyKey c \<longleftrightarrow> c = ClassMutation \<or> c = ClassCritical"

definition ExecutionClass_RequiresEvidence :: "string \<Rightarrow> bool" where
  "ExecutionClass_RequiresEvidence c \<longleftrightarrow> c = ClassCritical"

definition AssuranceNone :: string where "AssuranceNone = ''NONE''"
definition AssuranceStandard :: string where "AssuranceStandard = ''STANDARD''"
definition AssuranceDurable :: string where "AssuranceDurable = ''DURABLE''"
definition AssuranceHighAssurance :: string where "AssuranceHighAssurance = ''HIGH_ASSURANCE''"

definition AssuranceProfile_Valid :: "string \<Rightarrow> bool" where
  "AssuranceProfile_Valid a \<longleftrightarrow>
    a = AssuranceNone \<or> a = AssuranceStandard \<or> a = AssuranceDurable \<or> a = AssuranceHighAssurance"

definition RequiresDurableStore :: "string \<Rightarrow> bool" where
  "RequiresDurableStore a \<longleftrightarrow> a = AssuranceDurable \<or> a = AssuranceHighAssurance"

definition AssuranceProfile_RequiresEvidence :: "string \<Rightarrow> bool" where
  "AssuranceProfile_RequiresEvidence a \<longleftrightarrow> a = AssuranceHighAssurance"

definition DefaultAssuranceProfile :: "string \<Rightarrow> string" where
  "DefaultAssuranceProfile c =
    (if c = ClassPure then AssuranceNone
     else if c = ClassRead then AssuranceStandard
     else if c = ClassMutation then AssuranceDurable
     else if c = ClassCritical then AssuranceHighAssurance
     else AssuranceStandard)"

definition RouteLocal :: string where "RouteLocal = ''LOCAL''"
definition RouteDirect :: string where "RouteDirect = ''DIRECT''"
definition RouteCrabedence :: string where "RouteCrabedence = ''CRABEDENCE''"

definition ExecutionRoute_Valid :: "string \<Rightarrow> bool" where
  "ExecutionRoute_Valid r \<longleftrightarrow> r = RouteLocal \<or> r = RouteDirect \<or> r = RouteCrabedence"

definition DefaultExecutionRoute :: "string \<Rightarrow> string" where
  "DefaultExecutionRoute p =
    (if p = AssuranceNone then RouteLocal
     else if p = AssuranceStandard then RouteDirect
     else if p = AssuranceDurable \<or> p = AssuranceHighAssurance then RouteCrabedence
     else RouteCrabedence)"

lemmas dimension_defs =
  ClassPure_def ClassRead_def ClassMutation_def ClassCritical_def
  AssuranceNone_def AssuranceStandard_def AssuranceDurable_def AssuranceHighAssurance_def
  RouteLocal_def RouteDirect_def RouteCrabedence_def

section \<open>Descriptors\<close>

record authority_policy =
  ap_ID :: string
  ap_GrantRequired :: bool
  ap_ResourceArguments :: "(string \<times> string) list"

record capability_descriptor =
  cd_ID :: string
  cd_DescriptorVersion :: int
  cd_PolicyRevision :: string
  cd_ExecutionClass :: string
  cd_AssuranceProfile :: string
  cd_ExecutionRoute :: string
  cd_Schema :: bytes
  cd_AuthorityPolicy :: authority_policy
  cd_AdapterID :: string

record resolved_descriptor =
  rd_ID :: string
  rd_DescriptorVersion :: int
  rd_PolicyRevision :: string
  rd_ExecutionClass :: string
  rd_AssuranceProfile :: string
  rd_ExecutionRoute :: string
  rd_Schema :: bytes
  rd_AuthorityPolicy :: authority_policy
  rd_AdapterID :: string

datatype registry_error =
    CapabilityIDRequired
  | InvalidExecutionClass
  | InvalidDescriptorVersion
  | InvalidAssuranceProfile
  | InvalidExecutionRoute
  | IncompatibleDimensions
  | LocalRequiresGrant
  | CapabilityAlreadyRegistered

text \<open>The result is the error, if any.\<close>

definition ValidateDescriptorCompatibility :: "string \<Rightarrow> string \<Rightarrow> string \<Rightarrow> registry_error option" where
  "ValidateDescriptorCompatibility effect assurance route =
    (if route = RouteLocal then
       (if effect \<noteq> ClassPure then Some IncompatibleDimensions
        else if assurance \<noteq> AssuranceNone then Some IncompatibleDimensions
        else None)
     else if route = RouteDirect then
       (if effect = ClassMutation \<or> effect = ClassCritical then Some IncompatibleDimensions
        else if assurance = AssuranceDurable \<or> assurance = AssuranceHighAssurance then Some IncompatibleDimensions
        else None)
     else if route = RouteCrabedence then
       (if effect = ClassCritical \<and> assurance \<noteq> AssuranceHighAssurance then Some IncompatibleDimensions
        else if effect = ClassMutation \<and> assurance \<noteq> AssuranceDurable \<and> assurance \<noteq> AssuranceHighAssurance
        then Some IncompatibleDimensions
        else None)
     else Some InvalidExecutionRoute)"

definition Resolve :: "capability_descriptor \<Rightarrow> registry_error + resolved_descriptor" where
  "Resolve d =
    (if cd_ID d = [] then Inl CapabilityIDRequired
     else if \<not> ExecutionClass_Valid (cd_ExecutionClass d) then Inl InvalidExecutionClass
     else
       (let version = (if cd_DescriptorVersion d = 0 then 1 else cd_DescriptorVersion d) in
        if version < 1 then Inl InvalidDescriptorVersion
        else
          (let assurance = (if cd_AssuranceProfile d = [] then DefaultAssuranceProfile (cd_ExecutionClass d)
                            else cd_AssuranceProfile d) in
           if \<not> AssuranceProfile_Valid assurance then Inl InvalidAssuranceProfile
           else
             (let route = (if cd_ExecutionRoute d = [] then DefaultExecutionRoute assurance
                           else cd_ExecutionRoute d) in
              if \<not> ExecutionRoute_Valid route then Inl InvalidExecutionRoute
              else
                (case ValidateDescriptorCompatibility (cd_ExecutionClass d) assurance route of
                   Some e \<Rightarrow> Inl e
                 | None \<Rightarrow>
                     if route = RouteLocal \<and> ap_GrantRequired (cd_AuthorityPolicy d) then Inl LocalRequiresGrant
                     else
                       Inr \<lparr> rd_ID = cd_ID d, rd_DescriptorVersion = version,
                             rd_PolicyRevision = cd_PolicyRevision d,
                             rd_ExecutionClass = cd_ExecutionClass d, rd_AssuranceProfile = assurance,
                             rd_ExecutionRoute = route, rd_Schema = cd_Schema d,
                             rd_AuthorityPolicy = cd_AuthorityPolicy d, rd_AdapterID = cd_AdapterID d \<rparr>)))))"

definition EffectiveAssuranceProfile :: "capability_descriptor \<Rightarrow> string" where
  "EffectiveAssuranceProfile d =
    (if cd_AssuranceProfile d \<noteq> [] \<and> AssuranceProfile_Valid (cd_AssuranceProfile d) then cd_AssuranceProfile d
     else DefaultAssuranceProfile (cd_ExecutionClass d))"

definition EffectiveExecutionRoute :: "capability_descriptor \<Rightarrow> string" where
  "EffectiveExecutionRoute d =
    (if cd_ExecutionRoute d \<noteq> [] \<and> ExecutionRoute_Valid (cd_ExecutionRoute d) then cd_ExecutionRoute d
     else DefaultExecutionRoute (EffectiveAssuranceProfile d))"

section \<open>The registry\<close>

type_synonym registry = "(string \<times> resolved_descriptor) list"

definition NewRegistry :: registry where
  "NewRegistry = []"

definition RegisterResolved :: "resolved_descriptor \<Rightarrow> registry \<Rightarrow> registry_error option \<times> registry" where
  "RegisterResolved d r =
    (if rd_ID d = [] then (Some CapabilityIDRequired, r)
     else if map_of r (rd_ID d) \<noteq> None then (Some CapabilityAlreadyRegistered, r)
     else (None, obj_put (rd_ID d) d r))"

definition Register :: "capability_descriptor \<Rightarrow> registry \<Rightarrow> registry_error option \<times> registry" where
  "Register d r =
    (case Resolve d of
       Inl e \<Rightarrow> (Some e, r)
     | Inr resolved \<Rightarrow>
         if map_of r (rd_ID resolved) \<noteq> None then (Some CapabilityAlreadyRegistered, r)
         else (None, obj_put (rd_ID resolved) resolved r))"

definition Registry_Lookup :: "registry \<Rightarrow> string \<Rightarrow> resolved_descriptor option" where
  "Registry_Lookup r i = map_of r i"

text \<open>\<open>List\<close> returns the keys in map order, which is unspecified; here it is the sorted one.\<close>

definition Registry_List :: "registry \<Rightarrow> string list" where
  "Registry_List r = map fst r"

definition Registry_Count :: "registry \<Rightarrow> int" where
  "Registry_Count r = int (length r)"

text \<open>The loop several methods start with: the descriptors sorted by identifier.\<close>

definition sorted_descriptors :: "registry \<Rightarrow> resolved_descriptor list" where
  "sorted_descriptors r = map (\<lambda>i. the (map_of r i)) (sort (map fst r))"

section \<open>Availability\<close>

definition AvailabilityAvailable :: string where "AvailabilityAvailable = ''AVAILABLE''"
definition AvailabilityAdapterNotConfigured :: string where
  "AvailabilityAdapterNotConfigured = ''ADAPTER_NOT_CONFIGURED''"
definition AvailabilityAdapterUnhealthy :: string where "AvailabilityAdapterUnhealthy = ''ADAPTER_UNHEALTHY''"
definition AvailabilityFeatureDisabled :: string where "AvailabilityFeatureDisabled = ''FEATURE_DISABLED''"

definition AvailabilityStatus_Valid :: "string \<Rightarrow> bool" where
  "AvailabilityStatus_Valid s \<longleftrightarrow>
    s = AvailabilityAvailable \<or> s = AvailabilityAdapterNotConfigured
    \<or> s = AvailabilityAdapterUnhealthy \<or> s = AvailabilityFeatureDisabled"

record adapter_state =
  as_Status :: string
  as_Reason :: string

type_synonym adapter_availability = "(string \<times> adapter_state) list"

definition AdapterAvailability_Available :: "adapter_availability \<Rightarrow> string \<Rightarrow> bool" where
  "AdapterAvailability_Available a adapterID \<longleftrightarrow>
    (case map_of a adapterID of None \<Rightarrow> False | Some st \<Rightarrow> as_Status st = AvailabilityAvailable)"

definition StatusOf :: "adapter_availability \<Rightarrow> string \<Rightarrow> string \<times> string" where
  "StatusOf a adapterID =
    (if adapterID = [] then (AvailabilityAdapterNotConfigured, ''capability has no adapter binding'')
     else
       (case map_of a adapterID of
          None \<Rightarrow> (AvailabilityAdapterNotConfigured, ''adapter is not wired in this deployment'')
        | Some st \<Rightarrow>
            if \<not> AvailabilityStatus_Valid (as_Status st)
            then (AvailabilityAdapterUnhealthy, ''adapter reported an unknown availability status'')
            else (as_Status st, as_Reason st)))"

record capability_availability =
  ca_CapabilityID :: string
  ca_AdapterID :: string
  ca_Status :: string
  ca_Reason :: string

definition CapabilityAvailability_Available :: "capability_availability \<Rightarrow> bool" where
  "CapabilityAvailability_Available a \<longleftrightarrow> ca_Status a = AvailabilityAvailable"

definition availability_entry :: "adapter_availability \<Rightarrow> resolved_descriptor \<Rightarrow> capability_availability" where
  "availability_entry adapters descriptor =
    (let status =
       (if rd_AdapterID descriptor = [] then
          (AvailabilityAdapterNotConfigured, ''capability has no adapter binding'')
        else
          (case map_of adapters (rd_AdapterID descriptor) of
             None \<Rightarrow> (AvailabilityAdapterNotConfigured, ''adapter is not wired in this deployment'')
           | Some st \<Rightarrow>
               if \<not> AvailabilityStatus_Valid (as_Status st)
               then (AvailabilityAdapterUnhealthy, ''adapter reported an unknown availability status'')
               else (as_Status st, as_Reason st))) in
     \<lparr> ca_CapabilityID = rd_ID descriptor, ca_AdapterID = rd_AdapterID descriptor,
       ca_Status = fst status, ca_Reason = snd status \<rparr>)"

definition Availability :: "registry \<Rightarrow> adapter_availability \<Rightarrow> capability_availability list" where
  "Availability r adapters = map (availability_entry adapters) (sorted_descriptors r)"

record availability_report =
  arp_Total :: int
  arp_Available :: "string list"
  arp_Unavailable :: "capability_availability list"

definition CheckAdapterAvailability :: "registry \<Rightarrow> adapter_availability \<Rightarrow> availability_report" where
  "CheckAdapterAvailability r adapters =
    (let entries = Availability r adapters in
     fold (\<lambda>entry report.
         if CapabilityAvailability_Available entry
         then report\<lparr>arp_Available := arp_Available report @ [ca_CapabilityID entry]\<rparr>
         else report\<lparr>arp_Unavailable := arp_Unavailable report @ [entry]\<rparr>)
       entries \<lparr> arp_Total = int (length entries), arp_Available = [], arp_Unavailable = [] \<rparr>)"

section \<open>Lemmas\<close>

lemma sorted_descriptors_sorted: "sorted_map r \<Longrightarrow> sorted_descriptors r = map snd r"
  using sorted_map_distinct [of r]
  by (auto simp: sorted_descriptors_def sorted_map_def sorted_sort_id strict_sorted_imp_sorted)

end
