(* ===== verification/JsonNumbers.thy ===== *)
theory JsonNumbers
  imports Digest Complex_Main
begin

text \<open>
  What the lexical canonicalisation of JSON numbers means.  \<open>number_value\<close> is the reference
  semantics, the rational number a literal denotes; \<open>canonicalJSONNumber\<close>, which only rearranges
  digits, is shown to compute a normal form for it.
\<close>

section \<open>Reference semantics\<close>

definition scaled :: "int \<Rightarrow> int \<Rightarrow> rat" where
  "scaled m e = (if 0 \<le> e then of_int m * 10 ^ nat e else of_int m / 10 ^ nat (- e))"

definition parts_value :: "bool \<Rightarrow> string \<Rightarrow> string \<Rightarrow> int \<Rightarrow> rat" where
  "parts_value neg intPart fracPart e =
    (let m = digits_value (intPart @ fracPart) in scaled (if neg then - m else m) (e - int (length fracPart)))"

definition number_value :: "string \<Rightarrow> rat option" where
  "number_value s =
    (case number_parts s of
       None \<Rightarrow> None
     | Some (neg, intPart, fracPart, e) \<Rightarrow> Some (parts_value neg intPart fracPart e))"

section \<open>Powers of ten\<close>

lemma scaled_powi: "scaled m e = of_int m * 10 powi e"
  unfolding scaled_def power_int_def by (auto simp: field_simps)

lemma scaled_0 [simp]: "scaled 0 e = 0"
  by (simp add: scaled_powi)

lemma scaled_shift: "scaled (m * 10 ^ k) e = scaled m (e + int k)"
  by (simp add: scaled_powi power_int_add)

lemma scaled_minus: "scaled (- m) e = - scaled m e"
  by (simp add: scaled_powi)

text \<open>A mantissa that ten does not divide and its exponent are determined by the value.\<close>

lemma scaled_unique_le:
  assumes "scaled m e = scaled m' e'" "\<not> 10 dvd m" "e \<le> e'"
  shows "e = e' \<and> m = m'"
proof -
  define k where "k = nat (e' - e)"
  have e': "e' = e + int k"
    using assms(3) by (simp add: k_def)
  have "(of_int m :: rat) * 10 powi e = of_int (m' * 10 ^ k) * 10 powi e"
    using assms(1) by (simp add: scaled_powi e' power_int_add)
  then have "(of_int m :: rat) = of_int (m' * 10 ^ k)"
    by simp
  then have m: "m = m' * 10 ^ k"
    by (simp only: of_int_eq_iff)
  then have "k = 0"
    using assms(2) by (cases k) auto
  then show ?thesis
    using m e' by simp
qed

lemma scaled_unique:
  assumes "scaled m e = scaled m' e'" "\<not> 10 dvd m" "\<not> 10 dvd m'"
  shows "e = e' \<and> m = m'"
  using scaled_unique_le [of m e m' e'] scaled_unique_le [of m' e' m e] assms by (cases "e \<le> e'") auto

section \<open>Digit strings\<close>

lemma digit_range: "is_digit c \<longleftrightarrow> 48 \<le> b2n c \<and> b2n c \<le> 57"
  by (simp add: is_digit_def in_range_def)

lemma b2n_inject [simp]: "b2n c = b2n d \<longleftrightarrow> c = d"
  unfolding b2n_def by (rule of_char_eq_iff)

lemma n2b_b2n [simp]: "n2b (b2n c) = c"
  by (simp add: n2b_def b2n_def)

lemma digits_value_Nil [simp]: "digits_value [] = 0"
  by (simp add: digits_value_def)

lemma digits_value_snoc [simp]: "digits_value (ds @ [c]) = digits_value ds * 10 + (b2n c - 48)"
  by (simp add: digits_value_def)

lemma digits_value_append:
  "digits_value (as @ bs) = digits_value as * 10 ^ length bs + digits_value bs"
proof (induction bs rule: rev_induct)
  case (snoc b bs)
  then show ?case
    unfolding append_assoc [symmetric] digits_value_snoc by (simp add: algebra_simps)
qed simp

lemma digits_value_nonneg: "list_all is_digit ds \<Longrightarrow> 0 \<le> digits_value ds"
  by (induction ds rule: rev_induct) (simp_all add: digit_range)

lemma digits_value_zeros: "list_all (\<lambda>c. c = CHR ''0'') ds \<Longrightarrow> digits_value ds = 0"
proof (induction ds rule: rev_induct)
  case (snoc c ds)
  have "b2n (CHR ''0'') = 48"
    by (simp add: b2n_def)
  with snoc show ?case
    by simp
qed simp

lemma digits_value_trim_left0 [simp]: "digits_value (trim_left0 ds) = digits_value ds"
proof -
  have "digits_value ds = digits_value (takeWhile (\<lambda>c. c = CHR ''0'') ds @ trim_left0 ds)"
    by (simp add: trim_left0_def)
  also have "\<dots> = digits_value (trim_left0 ds)"
    unfolding digits_value_append
    using digits_value_zeros [of "takeWhile (\<lambda>c. c = CHR ''0'') ds"] set_takeWhileD
    by (fastforce simp: list_all_iff)
  finally show ?thesis
    by simp
qed

lemma trim_right0_zeros:
  "ds = trim_right0 ds @ replicate (length ds - length (trim_right0 ds)) (CHR ''0'')"
proof (induction ds rule: rev_induct)
  case (snoc c ds)
  have "length (trim_right0 ds) \<le> length ds"
    by (simp add: trim_right0_def length_dropWhile_le le_trans [OF length_dropWhile_le])
  with snoc show ?case
    by (auto simp: trim_right0_def Suc_diff_le replicate_append_same [symmetric])
qed (simp add: trim_right0_def)

lemma digits_value_trim_right0:
  "digits_value ds = digits_value (trim_right0 ds) * 10 ^ (length ds - length (trim_right0 ds))"
  using arg_cong [OF trim_right0_zeros [of ds], of digits_value]
  by (simp add: digits_value_append digits_value_zeros list_all_iff)

text \<open>The significant digits of a number: no zero at either end.\<close>

definition significant :: "string \<Rightarrow> string" where
  "significant ds = trim_left0 (trim_right0 ds)"

definition compact :: "string \<Rightarrow> bool" where
  "compact ds \<longleftrightarrow> list_all is_digit ds \<and> ds \<noteq> [] \<and> hd ds \<noteq> CHR ''0'' \<and> last ds \<noteq> CHR ''0''"

lemma digit_zero: "is_digit c \<Longrightarrow> c \<noteq> CHR ''0'' \<Longrightarrow> 48 < b2n c"
proof -
  assume "is_digit c" "c \<noteq> CHR ''0''"
  moreover have "b2n (CHR ''0'') = 48"
    by (simp add: b2n_def)
  ultimately have "b2n c \<noteq> 48" "48 \<le> b2n c"
    using b2n_inject [of c "CHR ''0''"] by (auto simp: digit_range)
  then show "48 < b2n c"
    by simp
qed

lemma significant_compact:
  assumes "list_all is_digit ds" "significant ds \<noteq> []"
  shows "compact (significant ds)"
proof -
  have sub: "set (trim_right0 ds) \<subseteq> set ds"
    using trim_right0_zeros [of ds] by (metis Un_upper1 set_append)
  have set_sig: "set (significant ds) \<subseteq> set (trim_right0 ds)"
    unfolding significant_def trim_left0_def by (meson set_dropWhileD subsetI)
  have "hd (significant ds) \<noteq> CHR ''0''"
    using assms(2) hd_dropWhile [of "\<lambda>c. c = CHR ''0''" "trim_right0 ds"]
    by (simp add: significant_def trim_left0_def)
  moreover have "last (significant ds) \<noteq> CHR ''0''"
  proof -
    have ne: "trim_right0 ds \<noteq> []"
      using assms(2) by (auto simp: significant_def trim_left0_def)
    have "last (significant ds) = last (trim_right0 ds)"
      using assms(2) unfolding significant_def trim_left0_def
      by (metis last_append takeWhile_dropWhile_id)
    moreover have "last (trim_right0 ds) \<noteq> CHR ''0''"
      using ne hd_dropWhile [of "\<lambda>c. c = CHR ''0''" "rev ds"]
      by (simp add: trim_right0_def last_rev)
    ultimately show ?thesis
      by simp
  qed
  ultimately show ?thesis
    using assms sub set_sig by (auto simp: compact_def list_all_iff)
qed

lemma digits_value_pos:
  assumes "list_all is_digit ds" "ds \<noteq> []" "hd ds \<noteq> CHR ''0''"
  shows "0 < digits_value ds"
proof -
  obtain c cs where ds: "ds = c # cs"
    using assms(2) by (cases ds) auto
  have "digits_value ds = (b2n c - 48) * 10 ^ length cs + digits_value cs"
    using digits_value_append [of "[c]" cs] digits_value_snoc [of "[]" c] by (simp add: ds)
  then show ?thesis
    using assms digit_zero [of c] digits_value_nonneg [of cs] by (simp add: ds add_pos_nonneg)
qed

lemma compact_not_dvd:
  assumes "compact ds"
  shows "\<not> 10 dvd digits_value ds"
proof -
  obtain as c where ds: "ds = as @ [c]"
    using assms by (cases ds rule: rev_cases) (auto simp: compact_def)
  have "is_digit c" "c \<noteq> CHR ''0''"
    using assms by (simp_all add: compact_def ds)
  then have "48 < b2n c" "b2n c \<le> 57"
    using digit_zero by (auto simp: digit_range)
  then show ?thesis
    unfolding ds digits_value_snoc by presburger
qed

lemma digits_value_inject:
  assumes "list_all is_digit as" "list_all is_digit bs"
    and "as \<noteq> [] \<longrightarrow> hd as \<noteq> CHR ''0''" "bs \<noteq> [] \<longrightarrow> hd bs \<noteq> CHR ''0''"
    and "digits_value as = digits_value bs"
  shows "as = bs"
  using assms
proof (induction as arbitrary: bs rule: rev_induct)
  case Nil
  then show ?case
    using digits_value_pos [of bs] by (cases bs) auto
next
  case (snoc a as)
  have "0 < digits_value (as @ [a])"
    using snoc.prems(1,3) by (intro digits_value_pos) simp_all
  then have "bs \<noteq> []"
    using snoc.prems(5) by (metis digits_value_Nil less_irrefl)
  then obtain bs' b where bs: "bs = bs' @ [b]"
    by (cases bs rule: rev_cases) blast+
  have digits: "48 \<le> b2n a" "b2n a \<le> 57" "48 \<le> b2n b" "b2n b \<le> 57"
    using snoc.prems by (simp_all add: bs digit_range)
  then have "digits_value as = digits_value bs'" "b2n a = b2n b"
    using snoc.prems(5) unfolding bs digits_value_snoc by presburger+
  moreover have "as = bs'"
  proof (rule snoc.IH)
    show "as \<noteq> [] \<longrightarrow> hd as \<noteq> CHR ''0''" "bs' \<noteq> [] \<longrightarrow> hd bs' \<noteq> CHR ''0''"
      using snoc.prems(3,4) by (auto simp: bs)
  qed (use snoc.prems \<open>digits_value as = digits_value bs'\<close> in \<open>simp_all add: bs\<close>)
  ultimately show ?case
    by (simp add: bs)
qed

section \<open>Printed integers\<close>

lemma digit_char_digit: "0 \<le> n \<Longrightarrow> n < 10 \<Longrightarrow> is_digit (digit_char n) \<and> b2n (digit_char n) - 48 = n"
  by (simp add: digit_char_def digit_range)

lemma show_nat_digits:
  assumes "0 \<le> n"
  shows "list_all is_digit (show_nat n) \<and> show_nat n \<noteq> [] \<and> digits_value (show_nat n) = n"
  using assms
proof (induction n rule: show_nat.induct)
  case (1 n)
  show ?case
  proof (cases "n < 10")
    case True
    then have "show_nat n = [digit_char n]"
      by (simp add: show_nat.simps [of n])
    then show ?thesis
      using digit_char_digit [of n] True "1.prems" digits_value_snoc [of "[]" "digit_char n"] by simp
  next
    case False
    then have printed: "show_nat n = show_nat (n div 10) @ [digit_char (n mod 10)]"
      by (simp add: show_nat.simps [of n])
    have "list_all is_digit (show_nat (n div 10)) \<and> show_nat (n div 10) \<noteq> [] \<and> digits_value (show_nat (n div 10)) = n div 10"
      using "1.IH" False "1.prems" by simp
    moreover have "is_digit (digit_char (n mod 10)) \<and> b2n (digit_char (n mod 10)) - 48 = n mod 10"
      by (rule digit_char_digit) simp_all
    ultimately show ?thesis
      unfolding printed digits_value_snoc by simp
  qed
qed

lemma list_all_takeWhile: "list_all P xs \<Longrightarrow> takeWhile P xs = xs" "list_all P xs \<Longrightarrow> dropWhile P xs = []"
  by (simp_all add: list_all_iff takeWhile_eq_all_conv dropWhile_eq_Nil_conv)

lemma digit_not_sign: "is_digit c \<Longrightarrow> c \<noteq> CHR ''-'' \<and> c \<noteq> CHR ''+'' \<and> c \<noteq> CHR ''.'' \<and> c \<noteq> CHR ''e'' \<and> c \<noteq> CHR ''E''"
  by (auto simp: digit_range b2n_def)

lemma take_exp_show_int: "take_exp (CHR ''e'' # show_int x) = Some (x, [])"
proof (cases "x < 0")
  case True
  then have digits: "list_all is_digit (show_nat (- x))" "show_nat (- x) \<noteq> []" "digits_value (show_nat (- x)) = - x"
    using show_nat_digits [of "- x"] by auto
  then show ?thesis
    using True by (simp add: take_exp_def show_int_def Let_def list_all_takeWhile)
next
  case False
  then have digits: "list_all is_digit (show_nat x)" "show_nat x \<noteq> []" "digits_value (show_nat x) = x"
    using show_nat_digits [of x] by auto
  then obtain d ds where ds: "show_nat x = d # ds" "is_digit d"
    by (cases "show_nat x") auto
  then show ?thesis
    using False digits digit_not_sign [OF ds(2)]
    by (simp add: take_exp_def show_int_def Let_def list_all_takeWhile del: takeWhile.simps dropWhile.simps)
qed

section \<open>The canonical form\<close>

definition render :: "bool \<Rightarrow> string \<Rightarrow> int \<Rightarrow> string" where
  "render neg sig x =
    (if neg then ''-'' else []) @ [hd sig] @ (if length sig > 1 then ''.'' @ tl sig else []) @ ''e'' @ show_int x"

lemma take_exp_stop: "is_digit c \<Longrightarrow> take_exp (c # cs) = Some (0, c # cs)"
  using digit_not_sign [of c] by (simp add: take_exp_def)

lemma number_parts_render:
  assumes "compact sig"
  shows "number_parts (render neg sig x) = Some (neg, [hd sig], tl sig, x)"
proof -
  obtain c cs where sig: "sig = c # cs"
    using assms by (cases sig) (auto simp: compact_def)
  have c: "is_digit c" and cs: "list_all is_digit cs"
    using assms by (simp_all add: compact_def sig)
  have stops: "\<not> is_digit (CHR ''.'')" "\<not> is_digit (CHR ''e'')"
    using digit_not_sign by blast+
  have sign: "take_sign (render neg sig x) = (neg, c # (if cs = [] then [] else CHR ''.'' # cs) @ CHR ''e'' # show_int x)"
    using digit_not_sign [OF c] by (auto simp: render_def sig take_sign_def)
  have frac: "take_frac ((if cs = [] then [] else CHR ''.'' # cs) @ CHR ''e'' # show_int x) = Some (cs, CHR ''e'' # show_int x)"
    using cs stops by (auto simp: take_frac_def takeWhile_append dropWhile_append list_all_iff)
  have int: "takeWhile is_digit (c # (if cs = [] then [] else CHR ''.'' # cs) @ CHR ''e'' # show_int x) = [c]"
      "dropWhile is_digit (c # (if cs = [] then [] else CHR ''.'' # cs) @ CHR ''e'' # show_int x)
        = (if cs = [] then [] else CHR ''.'' # cs) @ CHR ''e'' # show_int x"
    using c stops by auto
  show ?thesis
    unfolding number_parts_def sign Let_def prod.case int frac
    by (simp add: take_exp_show_int sig)
qed

lemma number_parts_zero: "number_parts ''0'' = Some (False, ''0'', [], 0)"
  by code_simp

definition exponent_of :: "string \<Rightarrow> string \<Rightarrow> int \<Rightarrow> int" where
  "exponent_of intPart fracPart e =
    e - int (length fracPart) + int (length (intPart @ fracPart) - length (trim_right0 (intPart @ fracPart)))"

lemma canonical_form_alt:
  "canonical_form neg i f e =
    (if significant (i @ f) = [] then ''0''
     else render neg (significant (i @ f)) (exponent_of i f e + int (length (significant (i @ f))) - 1))"
  by (simp add: canonical_form_def render_def significant_def exponent_of_def Let_def)

lemma parts_value_alt:
  "parts_value neg i f e =
    scaled (if neg then - digits_value (significant (i @ f)) else digits_value (significant (i @ f))) (exponent_of i f e)"
proof -
  let ?k = "length (i @ f) - length (trim_right0 (i @ f))"
  have "digits_value (i @ f) = digits_value (significant (i @ f)) * 10 ^ ?k"
    using digits_value_trim_right0 [of "i @ f"] by (simp add: significant_def)
  then show ?thesis
    unfolding parts_value_def Let_def exponent_of_def
    by (simp only: scaled_shift [symmetric] mult_minus_left [symmetric] if_distrib [of "\<lambda>m. m * 10 ^ ?k"] cong: if_cong)
qed

lemma number_parts_digits:
  assumes "number_parts s = Some (neg, i, f, e)"
  shows "list_all is_digit (i @ f)" "i \<noteq> []"
proof -
  have "list_all is_digit (takeWhile is_digit xs)" for xs
    using set_takeWhileD by (fastforce simp: list_all_iff)
  then show "list_all is_digit (i @ f)" "i \<noteq> []"
    using assms
    by (auto simp: number_parts_def take_frac_def Let_def split: prod.splits if_splits option.splits list.splits)
qed

lemma render_value:
  assumes "compact sig"
  shows "parts_value neg [hd sig] (tl sig) (x + int (length sig) - 1)
    = scaled (if neg then - digits_value sig else digits_value sig) x"
  using assms by (cases sig) (simp_all add: parts_value_def compact_def Let_def)

lemma compact_significant: "compact sig \<Longrightarrow> significant sig = sig"
proof -
  assume sig: "compact sig"
  then have "trim_right0 sig = sig"
    by (cases sig rule: rev_cases) (auto simp: trim_right0_def compact_def)
  then show "significant sig = sig"
    using sig by (cases sig) (auto simp: significant_def trim_left0_def compact_def)
qed

text \<open>A literal and its canonical form denote the same number.\<close>

lemma canonical_value:
  assumes "canonicalJSONNumber s = Some c"
  shows "number_value c = number_value s" "number_value s \<noteq> None"
proof -
  obtain neg i f e where parts: "number_parts s = Some (neg, i, f, e)" and c: "c = canonical_form neg i f e"
    using assms by (auto simp: canonicalJSONNumber_def split: option.splits)
  have "number_value c = number_value s"
  proof (cases "significant (i @ f) = []")
    case True
    then show ?thesis
      using number_parts_zero
      by (simp add: number_value_def parts c canonical_form_alt parts_value_alt [of neg] )
        (simp add: parts_value_def digits_value_def b2n_def)
  next
    case False
    then have "compact (significant (i @ f))"
      using significant_compact number_parts_digits [OF parts] by blast
    then show ?thesis
      using False
      by (simp add: number_value_def parts c canonical_form_alt number_parts_render render_value parts_value_alt [of neg i f])
  qed
  then show "number_value c = number_value s" "number_value s \<noteq> None"
    by (simp_all add: number_value_def parts)
qed

text \<open>The value of a literal determines its canonical form.\<close>

lemma canonical_determined:
  assumes "number_parts s = Some (neg, i, f, e)" "number_parts t = Some (neg', i', f', e')"
    and "parts_value neg i f e = parts_value neg' i' f' e'"
  shows "canonical_form neg i f e = canonical_form neg' i' f' e'"
proof -
  let ?m = "significant (i @ f)" and ?m' = "significant (i' @ f')"
  have value_eq: "scaled (if neg then - digits_value ?m else digits_value ?m) (exponent_of i f e)
      = scaled (if neg' then - digits_value ?m' else digits_value ?m') (exponent_of i' f' e')"
    using assms(3) by (simp only: parts_value_alt)
  have zero: "scaled m x = 0 \<longleftrightarrow> m = 0" for m x
    by (simp add: scaled_powi)
  have digits: "list_all is_digit (i @ f)" "list_all is_digit (i' @ f')"
    using number_parts_digits assms(1,2) by blast+
  have pos: "0 < digits_value ?m" if "?m \<noteq> []"
    using digits_value_pos [of ?m] significant_compact [OF digits(1) that] by (simp add: compact_def)
  have pos': "0 < digits_value ?m'" if "?m' \<noteq> []"
    using digits_value_pos [of ?m'] significant_compact [OF digits(2) that] by (simp add: compact_def)
  show ?thesis
  proof (cases "?m = [] \<or> ?m' = []")
    case True
    then have "?m = [] \<and> ?m' = []"
      using value_eq pos pos' zero by (auto split: if_splits) (metis less_irrefl neg_equal_0_iff_equal)+
    then show ?thesis
      by (simp add: canonical_form_alt)
  next
    case False
    then have compact: "compact ?m" "compact ?m'"
      using significant_compact digits by blast+
    then have "\<not> 10 dvd (if neg then - digits_value ?m else digits_value ?m)"
        "\<not> 10 dvd (if neg' then - digits_value ?m' else digits_value ?m')"
      using compact_not_dvd by simp_all
    then have eqs: "exponent_of i f e = exponent_of i' f' e'"
        "(if neg then - digits_value ?m else digits_value ?m) = (if neg' then - digits_value ?m' else digits_value ?m')"
      using scaled_unique [OF value_eq] by blast+
    have "neg = neg'" "digits_value ?m = digits_value ?m'"
      using eqs(2) pos pos' False by (auto split: if_splits)
    moreover have "?m = ?m'"
      using compact \<open>digits_value ?m = digits_value ?m'\<close> by (intro digits_value_inject) (simp_all add: compact_def)
    ultimately show ?thesis
      using False eqs(1) by (simp add: canonical_form_alt)
  qed
qed

lemma canonical_iff:
  assumes "canonicalJSONNumber s = Some c" "canonicalJSONNumber t = Some d"
  shows "c = d \<longleftrightarrow> number_value s = number_value t"
proof
  assume "c = d"
  then show "number_value s = number_value t"
    using canonical_value(1) [OF assms(1)] canonical_value(1) [OF assms(2)] by simp
next
  assume eq: "number_value s = number_value t"
  obtain neg i f e where s: "number_parts s = Some (neg, i, f, e)" "c = canonical_form neg i f e"
    using assms(1) by (auto simp: canonicalJSONNumber_def split: option.splits)
  obtain neg' i' f' e' where t: "number_parts t = Some (neg', i', f', e')" "d = canonical_form neg' i' f' e'"
    using assms(2) by (auto simp: canonicalJSONNumber_def split: option.splits)
  show "c = d"
    unfolding s(2) t(2)
    by (rule canonical_determined [OF s(1) t(1)]) (use eq in \<open>simp add: number_value_def s(1) t(1)\<close>)
qed

lemma canonical_idempotent:
  assumes "canonicalJSONNumber s = Some c"
  shows "canonicalJSONNumber c = Some c"
proof -
  have "number_parts c \<noteq> None"
    using canonical_value [OF assms] by (auto simp: number_value_def split: option.splits)
  then obtain c' where c': "canonicalJSONNumber c = Some c'"
    by (auto simp: canonicalJSONNumber_def)
  then show ?thesis
    using canonical_iff [OF assms c'] canonical_value(1) [OF assms] by simp
qed

end
