(* ===== verification/ArgSchema.thy ===== *)
theory ArgSchema
  imports Registry JsonNumbers
begin

text \<open>
  Argument validation (\<^verbatim>\<open>internal/capability/schema.go\<close>): the subset of JSON Schema the capabilities
  use, over documents decoded with \<open>UseNumber\<close>.  Numbers are compared as exact rationals, through
  \<open>big.Rat.SetString\<close>, which refuses a literal whose decimal exponent is beyond a million.

  The paths in error messages are not modelled.  Go iterates over the properties of an object in
  random order, so only whether some check fails is determined, not which failure is reported; the
  validators are therefore predicates.
\<close>

section \<open>Exact numbers\<close>

text \<open>The exponent digits \<open>scanExponent\<close> reads must fit a 64-bit integer.\<close>

definition int64_ok :: "int \<Rightarrow> bool" where
  "int64_ok e \<longleftrightarrow> - (2 ^ 63) \<le> e \<and> e < 2 ^ 63"

definition Rat_SetString :: "string \<Rightarrow> rat option" where
  "Rat_SetString s =
    (case number_parts s of
       None \<Rightarrow> None
     | Some (neg, intPart, fracPart, e) \<Rightarrow>
         if \<not> int64_ok e then None
         else
           (let mantissa = digits_value (intPart @ fracPart);
                exp5 = e - int (length fracPart) in
            if mantissa = 0 then Some 0
            else if 10 ^ 6 < \<bar>exp5\<bar> then None
            else Some (scaled (if neg then - mantissa else mantissa) exp5)))"

definition ratValue :: "json option \<Rightarrow> rat option" where
  "ratValue v = (case v of Some (JNumber lit) \<Rightarrow> Rat_SetString lit | _ \<Rightarrow> None)"

definition Rat_IsInt :: "rat \<Rightarrow> bool" where
  "Rat_IsInt q \<longleftrightarrow> snd (quotient_of q) = 1"

section \<open>Decoding\<close>

text \<open>One value is decoded; what follows it in the input is not read.\<close>

definition decodeUseNumber :: "bytes \<Rightarrow> json option" where
  "decodeUseNumber data = map_option (\<lambda>vr. go_any (fst vr)) (parse_prefix data)"

text \<open>\<open>fmt.Sprintf("%v", v)\<close>.\<close>

primrec fmt_v :: "json \<Rightarrow> string" where
  "fmt_v JNull = ''<nil>''"
| "fmt_v (JBool b) = (if b then ''true'' else ''false'')"
| "fmt_v (JNumber n) = n"
| "fmt_v (JString s) = s"
| "fmt_v (JArray xs) = ''['' @ intersperse_concat '' '' (map fmt_v xs) @ '']''"
| "fmt_v (JObject kvs) =
    ''map['' @ intersperse_concat '' '' (map (\<lambda>kv. fst kv @ '':'' @ snd kv) (map (map_prod (\<lambda>k. k) fmt_v) kvs)) @ '']''"

section \<open>Validation\<close>

definition json_type :: "json \<Rightarrow> string" where
  "json_type v =
    (case v of
       JNull \<Rightarrow> ''null'' | JBool _ \<Rightarrow> ''boolean'' | JNumber _ \<Rightarrow> ''number'' | JString _ \<Rightarrow> ''string''
     | JArray _ \<Rightarrow> ''array'' | JObject _ \<Rightarrow> ''object'')"

definition checkType :: "string \<Rightarrow> json \<Rightarrow> bool" where
  "checkType expected v \<longleftrightarrow>
    (let actual = json_type v in
     if expected = ''number'' \<and> actual = ''number'' then True
     else if expected = ''integer'' \<and> actual = ''number'' then
       (case ratValue (Some v) of None \<Rightarrow> False | Some r \<Rightarrow> Rat_IsInt r)
     else expected = actual)"

definition enum_member :: "json \<Rightarrow> json \<Rightarrow> bool" where
  "enum_member v e \<longleftrightarrow>
    (case (ratValue (Some e), ratValue (Some v)) of
       (Some eRat, Some valRat) \<Rightarrow> eRat = valRat
     | _ \<Rightarrow> fmt_v e = fmt_v v)"

definition check_enum :: "(string \<times> json) list \<Rightarrow> json \<Rightarrow> bool" where
  "check_enum schema v \<longleftrightarrow>
    (case map_of schema ''enum'' of Some (JArray es) \<Rightarrow> list_ex (enum_member v) es | _ \<Rightarrow> True)"

text \<open>\<open>ratValue(schema[keyword])\<close>: an absent or non-numeric bound is no bound.\<close>

definition bounded :: "(string \<times> json) list \<Rightarrow> string \<Rightarrow> (rat \<Rightarrow> bool) \<Rightarrow> bool" where
  "bounded schema keyword ok \<longleftrightarrow> (case ratValue (map_of schema keyword) of None \<Rightarrow> True | Some b \<Rightarrow> ok b)"

definition check_number :: "(string \<times> json) list \<Rightarrow> json \<Rightarrow> bool" where
  "check_number schema v \<longleftrightarrow>
    (case ratValue (Some v) of
       None \<Rightarrow> True
     | Some num \<Rightarrow>
         bounded schema ''minimum'' (\<lambda>b. b \<le> num)
         \<and> bounded schema ''maximum'' (\<lambda>b. num \<le> b)
         \<and> bounded schema ''multipleOf'' (\<lambda>b. b \<noteq> 0 \<longrightarrow> Rat_IsInt (num / b)))"

definition check_string :: "(string \<times> json) list \<Rightarrow> json \<Rightarrow> bool" where
  "check_string schema v \<longleftrightarrow>
    (case v of
       JString s \<Rightarrow>
         (let runeCount = of_int (int (length (runes s))) in
          bounded schema ''minLength'' (\<lambda>b. b \<le> runeCount)
          \<and> bounded schema ''maxLength'' (\<lambda>b. runeCount \<le> b))
     | _ \<Rightarrow> True)"

definition check_type :: "(string \<times> json) list \<Rightarrow> json \<Rightarrow> bool" where
  "check_type schema v \<longleftrightarrow>
    (case map_of schema ''type'' of Some (JString t) \<Rightarrow> checkType t v | _ \<Rightarrow> True)"

definition check_object_type :: "(string \<times> json) list \<Rightarrow> bool" where
  "check_object_type schema \<longleftrightarrow>
    (case map_of schema ''type'' of Some (JString t) \<Rightarrow> t = ''object'' | _ \<Rightarrow> True)"

definition check_required :: "(string \<times> json) list \<Rightarrow> (string \<times> json) list \<Rightarrow> bool" where
  "check_required schema obj \<longleftrightarrow>
    (case map_of schema ''required'' of
       Some (JArray rs) \<Rightarrow>
         list_all (\<lambda>r. case r of JString name \<Rightarrow> map_of obj name \<noteq> None | _ \<Rightarrow> True) rs
     | _ \<Rightarrow> True)"

definition check_additional ::
    "(string \<times> json) list \<Rightarrow> (string \<times> json) list \<Rightarrow> (string \<times> json) list \<Rightarrow> bool" where
  "check_additional schema props obj \<longleftrightarrow>
    (case map_of schema ''additionalProperties'' of
       Some (JBool False) \<Rightarrow> list_all (\<lambda>kv. map_of props (fst kv) \<noteq> None) obj
     | _ \<Rightarrow> True)"

lemma size_map_of_json: "map_of m k = Some v \<Longrightarrow> size v < size (JObject m)"
  by (induction m) (auto split: if_splits)

lemma size_set_json: "v \<in> set vs \<Longrightarrow> size v < size (JArray vs)"
  by (induction vs) auto

function (sequential)
    validateObject :: "(string \<times> json) list \<Rightarrow> (string \<times> json) list \<Rightarrow> bool"
and validateValue :: "(string \<times> json) list \<Rightarrow> json \<Rightarrow> bool" where
  "validateObject schema obj \<longleftrightarrow>
    check_object_type schema
    \<and> check_required schema obj
    \<and> (case map_of schema ''properties'' of
         Some (JObject props) \<Rightarrow>
           list_all (\<lambda>kv.
             case snd kv of
               JObject propMap \<Rightarrow>
                 (case map_of obj (fst kv) of None \<Rightarrow> True | Some v \<Rightarrow> validateValue propMap v)
             | _ \<Rightarrow> True) props
           \<and> check_additional schema props obj
       | _ \<Rightarrow> True)"
| "validateValue schema v \<longleftrightarrow>
    check_type schema v
    \<and> check_enum schema v
    \<and> check_number schema v
    \<and> check_string schema v
    \<and> (case v of
         JArray arr \<Rightarrow>
           (case map_of schema ''items'' of
              Some (JObject its) \<Rightarrow> list_all (validateValue its) arr
            | _ \<Rightarrow> True)
       | JObject obj \<Rightarrow> validateObject schema obj
       | _ \<Rightarrow> True)"
  by pat_completeness auto

termination
  by (relation "measure (\<lambda>x. case x of Inl (schema, obj) \<Rightarrow> 2 * size (JObject obj) | Inr (schema, v) \<Rightarrow> 2 * size v + 1)")
    (auto dest: size_map_of_json size_set_json)

declare validateObject.simps [simp del] validateValue.simps [simp del]

datatype schema_result =
    SchemaOk
  | InvalidCapabilitySchema
  | ArgumentsNotObject
  | ArgumentsInvalid

definition ValidateArguments :: "bytes \<Rightarrow> bytes \<Rightarrow> schema_result" where
  "ValidateArguments schema args =
    (if length schema = 0 then SchemaOk
     else
       (case decodeUseNumber schema of
          Some (JObject schemaMap) \<Rightarrow>
            (case decodeUseNumber (if length args = 0 then ''{}'' else args) of
               Some (JObject argsMap) \<Rightarrow>
                 if validateObject schemaMap argsMap then SchemaOk else ArgumentsInvalid
             | _ \<Rightarrow> ArgumentsNotObject)
        | _ \<Rightarrow> InvalidCapabilitySchema))"

end
