(* ===== verification/RegistryDigest.thy ===== *)
theory RegistryDigest
  imports ArgSchema Evidence
begin

text \<open>
  Registry identity and the start-up scan (\<^verbatim>\<open>internal/capability/registry_digest.go\<close>): the canonical
  projection of a descriptor, descriptor and registry digests, the exports, the report, and
  \<open>Validate\<close>.  The texts of findings and the layout of the printed report are not modelled; the
  findings of the keyword scan come in the order of a map iteration, so only whether there are any is
  kept.
\<close>

section \<open>Projection and digests\<close>

text \<open>
  \<open>canonicalDescriptor\<close> with its JSON field order.  A schema that decodes to nil is an empty interface
  and is left out.
\<close>

record canonical_descriptor =
  cn_ID :: string
  cn_DescriptorVersion :: int
  cn_PolicyRevision :: string
  cn_ExecutionClass :: string
  cn_AssuranceProfile :: string
  cn_ExecutionRoute :: string
  cn_Schema :: json
  cn_AuthorityPolicy :: authority_policy
  cn_AdapterID :: string

datatype projection_error = SchemaNotJSON | SchemaNumbers

definition canonicalDescriptorOf :: "resolved_descriptor \<Rightarrow> projection_error + canonical_descriptor" where
  "canonicalDescriptorOf d =
    (let out = \<lparr> cn_ID = rd_ID d,
                 cn_DescriptorVersion = (if rd_DescriptorVersion d = 0 then 1 else rd_DescriptorVersion d),
                 cn_PolicyRevision = rd_PolicyRevision d, cn_ExecutionClass = rd_ExecutionClass d,
                 cn_AssuranceProfile = rd_AssuranceProfile d, cn_ExecutionRoute = rd_ExecutionRoute d,
                 cn_Schema = JNull, cn_AuthorityPolicy = rd_AuthorityPolicy d, cn_AdapterID = rd_AdapterID d \<rparr> in
     if length (rd_Schema d) > 0 then
       (case decodeUseNumber (rd_Schema d) of
          None \<Rightarrow> Inl SchemaNotJSON
        | Some parsed \<Rightarrow>
            (case normalizeNumbers parsed of
               None \<Rightarrow> Inl SchemaNumbers
             | Some normalized \<Rightarrow> Inr (out\<lparr>cn_Schema := normalized\<rparr>)))
     else Inr out)"

definition policy_json :: "authority_policy \<Rightarrow> json" where
  "policy_json p =
    JObject
      ([(''id'', JString (ap_ID p)), (''grant_required'', JBool (ap_GrantRequired p))]
       @ bind_if (ap_ResourceArguments p \<noteq> []) ''resource_arguments''
           (JObject (map (\<lambda>(k, v). (k, JString v)) (obj_of (ap_ResourceArguments p)))))"

definition descriptor_json :: "canonical_descriptor \<Rightarrow> json" where
  "descriptor_json c =
    JObject
      ([(''id'', JString (cn_ID c)),
        (''descriptor_version'', JNumber (show_int (cn_DescriptorVersion c)))]
       @ bind_if (cn_PolicyRevision c \<noteq> []) ''policy_revision'' (JString (cn_PolicyRevision c))
       @ [(''execution_class'', JString (cn_ExecutionClass c)),
          (''assurance_profile'', JString (cn_AssuranceProfile c)),
          (''execution_route'', JString (cn_ExecutionRoute c))]
       @ bind_if (cn_Schema c \<noteq> JNull) ''schema'' (cn_Schema c)
       @ [(''authority_policy'', policy_json (cn_AuthorityPolicy c)),
          (''adapter_id'', JString (cn_AdapterID c))])"

definition DescriptorDigest :: "crypto \<Rightarrow> resolved_descriptor \<Rightarrow> projection_error + string" where
  "DescriptorDigest C d =
    (case canonicalDescriptorOf d of
       Inl e \<Rightarrow> Inl e
     | Inr projection \<Rightarrow> Inr (sha256_hex C (CanonicalJSON (descriptor_json projection))))"

text \<open>The loop of \<open>Snapshot\<close> and \<open>canonicalDescriptorBytes\<close>: stop at the first error.\<close>

fun project_all :: "resolved_descriptor list \<Rightarrow> projection_error + canonical_descriptor list" where
  "project_all [] = Inr []"
| "project_all (d # ds) =
    (case canonicalDescriptorOf d of
       Inl e \<Rightarrow> Inl e
     | Inr c \<Rightarrow> (case project_all ds of Inl e \<Rightarrow> Inl e | Inr cs \<Rightarrow> Inr (c # cs)))"

definition canonicalDescriptorBytes :: "registry \<Rightarrow> projection_error + bytes" where
  "canonicalDescriptorBytes r =
    (case project_all (sorted_descriptors r) of
       Inl e \<Rightarrow> Inl e
     | Inr projection \<Rightarrow> Inr (CanonicalJSON (JArray (map descriptor_json projection))))"

definition Registry_Digest :: "crypto \<Rightarrow> registry \<Rightarrow> projection_error + string" where
  "Registry_Digest C r =
    (case canonicalDescriptorBytes r of Inl e \<Rightarrow> Inl e | Inr canonical \<Rightarrow> Inr (sha256_hex C canonical))"

record snapshot =
  sn_RegistrySHA256 :: string
  sn_Descriptors :: "canonical_descriptor list"

definition Registry_Snapshot :: "crypto \<Rightarrow> registry \<Rightarrow> projection_error + snapshot" where
  "Registry_Snapshot C r =
    (case Registry_Digest C r of
       Inl e \<Rightarrow> Inl e
     | Inr digest \<Rightarrow>
         (case project_all (sorted_descriptors r) of
            Inl e \<Rightarrow> Inl e
          | Inr descriptors \<Rightarrow> Inr \<lparr> sn_RegistrySHA256 = digest, sn_Descriptors = descriptors \<rparr>))"

definition Snapshot_JSON :: "snapshot \<Rightarrow> bytes" where
  "Snapshot_JSON s =
    CanonicalJSON (JObject [(''registry_sha256'', JString (sn_RegistrySHA256 s)),
                            (''descriptors'', JArray (map descriptor_json (sn_Descriptors s)))])"

record snapshot_envelope =
  se_RegistrySHA256 :: string
  se_CanonicalPayload :: string

definition Envelope :: "crypto \<Rightarrow> registry \<Rightarrow> projection_error + snapshot_envelope" where
  "Envelope C r =
    (case canonicalDescriptorBytes r of
       Inl e \<Rightarrow> Inl e
     | Inr canonical \<Rightarrow>
         Inr \<lparr> se_RegistrySHA256 = sha256_hex C canonical, se_CanonicalPayload = b64_encode canonical \<rparr>)"

definition Envelope_JSON :: "snapshot_envelope \<Rightarrow> bytes" where
  "Envelope_JSON e =
    CanonicalJSON (JObject [(''registry_sha256'', JString (se_RegistrySHA256 e)),
                            (''canonical_payload'', JString (se_CanonicalPayload e))])"

record registry_report =
  rr_Total :: int
  rr_ByClass :: "string \<Rightarrow> int"
  rr_ByAssurance :: "string \<Rightarrow> int"
  rr_ByRoute :: "string \<Rightarrow> int"
  rr_Digest :: string

definition count_by :: "(resolved_descriptor \<Rightarrow> string) \<Rightarrow> registry \<Rightarrow> string \<Rightarrow> int" where
  "count_by f r = fold (\<lambda>e m. m(f (snd e) := m (f (snd e)) + 1)) r (\<lambda>_. 0)"

definition Registry_Report :: "crypto \<Rightarrow> registry \<Rightarrow> projection_error + registry_report" where
  "Registry_Report C r =
    (case Registry_Digest C r of
       Inl e \<Rightarrow> Inl e
     | Inr digest \<Rightarrow>
         Inr \<lparr> rr_Total = int (length r), rr_ByClass = count_by rd_ExecutionClass r,
               rr_ByAssurance = count_by rd_AssuranceProfile r, rr_ByRoute = count_by rd_ExecutionRoute r,
               rr_Digest = digest \<rparr>)"

section \<open>The start-up scan\<close>

definition supportedSchemaKeywords :: "string list" where
  "supportedSchemaKeywords =
    [''type'', ''required'', ''properties'', ''additionalProperties'', ''enum'', ''minimum'', ''maximum'',
     ''multipleOf'', ''minLength'', ''maxLength'', ''items'', ''description'', ''title'', ''$schema'', ''$id'',
     ''$comment'', ''examples'', ''default'', ''deprecated'', ''readOnly'', ''writeOnly'']"

lemma size_member_json: "kv \<in> set m \<Longrightarrow> size (snd kv) < size (JObject m)"
  by (induction m) auto

text \<open>Whether the keyword scan has no finding.\<close>

function validateSchemaKeywords :: "(string \<times> json) list \<Rightarrow> bool" where
  "validateSchemaKeywords schema \<longleftrightarrow>
    list_all (\<lambda>kv.
      fst kv \<in> set supportedSchemaKeywords
      \<and> (if fst kv = ''properties'' then
           (case snd kv of
              JObject properties \<Rightarrow>
                list_all (\<lambda>p. case snd p of JObject propertySchema \<Rightarrow> validateSchemaKeywords propertySchema | _ \<Rightarrow> False)
                  properties
            | _ \<Rightarrow> False)
         else if fst kv = ''items'' then
           (case snd kv of JObject its \<Rightarrow> validateSchemaKeywords its | _ \<Rightarrow> False)
         else if fst kv = ''additionalProperties'' then
           (case snd kv of JObject additional \<Rightarrow> validateSchemaKeywords additional | _ \<Rightarrow> True)
         else True)) schema"
  by pat_completeness auto

termination
proof (relation "measure (\<lambda>m. size (JObject m))", goal_cases)
  case (2 schema kv properties p propertySchema)
  then show ?case
    using size_member_json [of kv schema] size_member_json [of p properties] by simp
next
  case (3 schema kv its)
  then show ?case
    using size_member_json [of kv schema] by simp
next
  case (4 schema kv additional)
  then show ?case
    using size_member_json [of kv schema] by simp
qed simp

declare validateSchemaKeywords.simps [simp del]

datatype finding =
    BadVersion | BadClass | BadAssurance | BadRoute | BadCombination registry_error | LocalGrant
  | ResourceArgumentsWithoutGrant | NoAdapter | SchemaNotValid | SchemaNotObject | SchemaKeyword

definition validateSchemaDocument :: "bytes \<Rightarrow> finding option" where
  "validateSchemaDocument schema =
    (case decodeUseNumber schema of
       None \<Rightarrow> Some SchemaNotValid
     | Some (JObject document) \<Rightarrow> if validateSchemaKeywords document then None else Some SchemaKeyword
     | Some _ \<Rightarrow> Some SchemaNotObject)"

definition report_if :: "bool \<Rightarrow> finding \<Rightarrow> finding list" where
  "report_if b f = (if b then [f] else [])"

definition descriptor_findings :: "resolved_descriptor \<Rightarrow> finding list" where
  "descriptor_findings d =
    report_if (rd_DescriptorVersion d < 0) BadVersion
    @ report_if (\<not> ExecutionClass_Valid (rd_ExecutionClass d)) BadClass
    @ report_if (\<not> AssuranceProfile_Valid (rd_AssuranceProfile d)) BadAssurance
    @ report_if (\<not> ExecutionRoute_Valid (rd_ExecutionRoute d)) BadRoute
    @ (case ValidateDescriptorCompatibility (rd_ExecutionClass d) (rd_AssuranceProfile d) (rd_ExecutionRoute d) of
         None \<Rightarrow> [] | Some e \<Rightarrow> [BadCombination e])
    @ report_if (rd_ExecutionRoute d = RouteLocal \<and> ap_GrantRequired (rd_AuthorityPolicy d)) LocalGrant
    @ report_if (length (ap_ResourceArguments (rd_AuthorityPolicy d)) > 0 \<and> \<not> ap_GrantRequired (rd_AuthorityPolicy d))
        ResourceArgumentsWithoutGrant
    @ report_if (rd_AdapterID d = []) NoAdapter
    @ (if length (rd_Schema d) > 0 then
         (case validateSchemaDocument (rd_Schema d) of None \<Rightarrow> [] | Some f \<Rightarrow> [f])
       else [])"

definition Registry_Validate :: "registry \<Rightarrow> (string \<times> finding) list" where
  "Registry_Validate r =
    concat (map (\<lambda>d. map (Pair (rd_ID d)) (descriptor_findings d)) (sorted_descriptors r))"

end
