(* ===== verification/Utf8.thy ===== *)
theory Utf8
  imports Contract
begin

text \<open>
  Well-formed UTF-8: the sequences the encoder copies and the decoder accepts, and the encodings of
  runes.
\<close>

fun valid_utf8 :: "string \<Rightarrow> bool" where
  "valid_utf8 [] \<longleftrightarrow> True"
| "valid_utf8 (c # cs) \<longleftrightarrow> (let n = utf8_size (c # cs) in n \<noteq> 0 \<and> valid_utf8 (drop (n - 1) cs))"

declare valid_utf8.simps [simp del]

lemma valid_utf8_Nil [simp]: "valid_utf8 []"
  by (simp add: valid_utf8.simps)

lemma utf8_size_take:
  assumes "utf8_size s \<noteq> 0"
  shows "utf8_size (take (utf8_size s) s @ t) = utf8_size s"
proof -
  consider "s = []" | a where "s = [a]" | a b where "s = [a, b]" | a b c where "s = [a, b, c]"
    | a b c d r where "s = a # b # c # d # r"
    by (metis list.exhaust)
  then show ?thesis
    by cases (use assms in \<open>simp_all add: utf8_size.simps Let_def split: if_splits\<close>)
qed

lemma utf8_size_le: "utf8_size s \<le> length s"
  by (cases s) (auto simp: utf8_size.simps Let_def split: list.splits)

lemma utf8_size_ascii: "b2n c < 0x80 \<Longrightarrow> utf8_size (c # cs) = 1"
  by (simp add: utf8_size.simps)

lemma utf8_size_high: "0x80 \<le> b2n c \<Longrightarrow> utf8_size (c # cs) \<noteq> 1"
  by (auto simp: utf8_size.simps Let_def split: list.splits)

lemma valid_utf8_ascii: "b2n c < 0x80 \<Longrightarrow> valid_utf8 (c # cs) = valid_utf8 cs"
  by (simp add: valid_utf8.simps(2) utf8_size_ascii)

text \<open>A string that starts with a well-formed sequence is valid if the rest is.\<close>

lemma valid_utf8_step:
  assumes "utf8_size p = length p" "p \<noteq> []"
  shows "valid_utf8 (p @ s) = valid_utf8 s"
proof -
  obtain c cs where p: "p = c # cs"
    using assms(2) by (cases p) auto
  have "utf8_size (p @ s) = length p"
    using utf8_size_take [of p s] assms by simp
  then show ?thesis
    using assms(2) by (simp add: p valid_utf8.simps(2))
qed

lemma b2n_n2b_small: "0 \<le> n \<Longrightarrow> n < 256 \<Longrightarrow> b2n (n2b n) = n"
  by simp

lemma base64_digits_2:
  fixes r :: int
  shows "r = 0x1000 * (r div 0x1000) + 0x40 * (r div 0x40 mod 0x40) + r mod 0x40"
proof -
  have combine: "a = 64 * b + c \<Longrightarrow> b = 64 * d + e \<Longrightarrow> a = 4096 * d + 64 * e + c" for a b c d e :: int
    by simp
  have "r div 0x1000 = r div 0x40 div 0x40"
    by (simp add: zdiv_zmult2_eq [symmetric])
  then show ?thesis
    using combine [of r "r div 64" "r mod 64" "r div 64 div 64" "r div 64 mod 64"]
    by (simp add: mult_div_mod_eq)
qed

lemma base64_digits_3:
  fixes r :: int
  shows "r = 0x40000 * (r div 0x40000) + 0x1000 * (r div 0x1000 mod 0x40) + 0x40 * (r div 0x40 mod 0x40) + r mod 0x40"
proof -
  have combine: "a = 4096 * b + x \<Longrightarrow> b = 64 * d + e \<Longrightarrow> a = 262144 * d + 4096 * e + x" for a b d e x :: int
    by simp
  have "r div 0x40000 = r div 0x1000 div 0x40"
    by (simp add: zdiv_zmult2_eq [symmetric])
  then show ?thesis
    using combine [of r "r div 4096" "0x40 * (r div 0x40 mod 0x40) + r mod 0x40" "r div 4096 div 64" "r div 4096 mod 64"]
      base64_digits_2 [of r]
    by (simp add: mult_div_mod_eq add.assoc)
qed

lemma utf8_encode_size:
  assumes "0 \<le> r" "r < 0x110000" "\<not> (0xD800 \<le> r \<and> r \<le> 0xDFFF)"
  shows "utf8_size (utf8_encode r) = length (utf8_encode r)"
proof -
  consider "r < 0x80" | "0x80 \<le> r" "r < 0x800" | "0x800 \<le> r" "r < 0x10000" | "0x10000 \<le> r"
    by linarith
  then show ?thesis
  proof cases
    case 1
    then show ?thesis
      using assms(1) by (simp add: utf8_encode_def utf8_size.simps b2n_n2b_small del: b2n_n2b)
  next
    case 2
    define x y where "x = r div 0x40" and "y = r mod 0x40"
    have r: "r = 0x40 * x + y" "0 \<le> y" "y < 0x40"
      by (simp_all add: x_def y_def)
    then have x: "2 \<le> x" "x < 32"
      using 2 by linarith+
    have enc: "utf8_encode r = [n2b (0xC0 + x), n2b (0x80 + y)]"
      using 2 by (simp add: utf8_encode_def x_def y_def)
    have b: "b2n (n2b (0xC0 + x)) = 0xC0 + x" "b2n (n2b (0x80 + y)) = 0x80 + y"
      by (rule b2n_n2b_small; use x r in linarith)+
    show ?thesis
      unfolding enc using x r(2,3) b by (simp add: utf8_size.simps in_range_def del: b2n_n2b)
  next
    case 3
    define x y z where "x = r div 0x1000" and "y = r div 0x40 mod 0x40" and "z = r mod 0x40"
    have r: "r = 0x1000 * x + 0x40 * y + z" "0 \<le> y" "y < 0x40" "0 \<le> z" "z < 0x40"
      unfolding x_def y_def z_def by (rule base64_digits_2) simp_all
    then have x: "0 \<le> x" "x < 16" "x = 0 \<Longrightarrow> 32 \<le> y" "x = 13 \<Longrightarrow> y \<le> 31"
      using 3 assms(3) by linarith+
    have enc: "utf8_encode r = [n2b (0xE0 + x), n2b (0x80 + y), n2b (0x80 + z)]"
      using 3 by (simp add: utf8_encode_def x_def y_def z_def)
    have b: "b2n (n2b (0xE0 + x)) = 0xE0 + x" "b2n (n2b (0x80 + y)) = 0x80 + y" "b2n (n2b (0x80 + z)) = 0x80 + z"
      by (rule b2n_n2b_small; use x r in linarith)+
    show ?thesis
      unfolding enc using x r(2-5) b by (simp add: utf8_size.simps in_range_def del: b2n_n2b)
  next
    case 4
    define x y z u where "x = r div 0x40000" and "y = r div 0x1000 mod 0x40" and "z = r div 0x40 mod 0x40"
      and "u = r mod 0x40"
    have r: "r = 0x40000 * x + 0x1000 * y + 0x40 * z + u" "0 \<le> y" "y < 0x40" "0 \<le> z" "z < 0x40" "0 \<le> u" "u < 0x40"
      unfolding x_def y_def z_def u_def by (rule base64_digits_3) simp_all
    then have x: "0 \<le> x" "x < 5" "x = 0 \<Longrightarrow> 16 \<le> y" "x = 4 \<Longrightarrow> y \<le> 15"
      using 4 assms(2) by linarith+
    have enc: "utf8_encode r = [n2b (0xF0 + x), n2b (0x80 + y), n2b (0x80 + z), n2b (0x80 + u)]"
      using 4 by (simp add: utf8_encode_def x_def y_def z_def u_def)
    have b: "b2n (n2b (0xF0 + x)) = 0xF0 + x" "b2n (n2b (0x80 + y)) = 0x80 + y" "b2n (n2b (0x80 + z)) = 0x80 + z"
        "b2n (n2b (0x80 + u)) = 0x80 + u"
      by (rule b2n_n2b_small; use x r in linarith)+
    show ?thesis
      unfolding enc using x r(2-7) b by (simp add: utf8_size.simps in_range_def del: b2n_n2b)
  qed
qed

lemma utf8_encode_valid:
  assumes "0 \<le> r" "r < 0x110000" "\<not> (0xD800 \<le> r \<and> r \<le> 0xDFFF)"
  shows "valid_utf8 (utf8_encode r @ s) = valid_utf8 s"
  by (rule valid_utf8_step [OF utf8_encode_size [OF assms]]) (simp add: utf8_encode_def)

end
