(* ===== verification/JsonRoundTrip.thy ===== *)
theory JsonRoundTrip
  imports JsonNumbers Utf8
begin

text \<open>
  The encoder and the decoder of \<open>GoJson\<close> fit together: a well-formed tree is read back from its
  encoding, whatever follows it, so that encodings are uniquely readable.  Everything the decoder
  produces is well formed, hence canonical JSON is a normal form.
\<close>

section \<open>Strings\<close>

lemma hex_value_digit: "0 \<le> n \<Longrightarrow> n < 16 \<Longrightarrow> hex_value (hex_digit n) = Some n"
  by (simp add: hex_digit_def hex_value_def in_range_def)

lemma unquote_end: "unquote (CHR 0x22 # r) = Some ([], r)"
  by (simp add: unquote.simps(2))

lemma unquote_escape:
  "simple_escape e = Some b \<Longrightarrow> unquote (CHR 0x5C # e # es) = prepend [b] (unquote es)"
  by (simp add: unquote.simps(2))

lemma unquote_u:
  "hex4 es = Some x \<Longrightarrow> x < 0xD800 \<or> 0xDFFF < x \<Longrightarrow>
    unquote (CHR 0x5C # CHR ''u'' # es) = prepend (utf8_encode x) (unquote (drop 4 es))"
  by (auto simp: unquote.simps(2) simple_escape_def)

lemma unquote_plain:
  "utf8_size (c # cs) \<noteq> 0 \<Longrightarrow> c \<noteq> CHR 0x22 \<Longrightarrow> c \<noteq> CHR 0x5C \<Longrightarrow> 0x20 \<le> b2n c \<Longrightarrow>
    unquote (c # cs) = prepend (take (utf8_size (c # cs)) (c # cs)) (unquote (drop (utf8_size (c # cs) - 1) cs))"
  by (simp add: unquote.simps(2) Let_def)

lemma unquote_u_escape:
  assumes "b2n c < 0x80"
  shows "unquote (u_escape (b2n c) @ t) = prepend [c] (unquote t)"
proof -
  have digits: "hex_value (CHR ''0'') = Some 0" "hex_value (hex_digit (b2n c div 16)) = Some (b2n c div 16)"
      "hex_value (hex_digit (b2n c mod 16)) = Some (b2n c mod 16)"
    using assms by (code_simp, simp_all add: hex_value_digit div_less_dividend pos_imp_zdiv_nonneg_iff)
  have "hex4 (CHR ''0'' # CHR ''0'' # hex_digit (b2n c div 16) # hex_digit (b2n c mod 16) # t) = Some (b2n c)"
    using digits by (simp add: hex4_def)
  then show ?thesis
    using unquote_u [of "CHR ''0'' # CHR ''0'' # hex_digit (b2n c div 16) # hex_digit (b2n c mod 16) # t" "b2n c"] assms
    by (simp add: u_escape_def utf8_encode_def)
qed

lemma simple_escapes:
  "simple_escape (CHR 0x22) = Some (CHR 0x22)" "simple_escape (CHR 0x5C) = Some (CHR 0x5C)"
  "simple_escape (CHR ''b'') = Some (CHR 0x08)" "simple_escape (CHR ''f'') = Some (CHR 0x0C)"
  "simple_escape (CHR ''n'') = Some (CHR 0x0A)" "simple_escape (CHR ''r'') = Some (CHR 0x0D)"
  "simple_escape (CHR ''t'') = Some (CHR 0x09)"
  by code_simp+

lemma unquote_ascii:
  assumes "b2n c < 0x80"
  shows "unquote (quote_ascii c @ t) = prepend [c] (unquote t)"
proof (cases "c \<in> {CHR 0x22, CHR 0x5C, CHR 0x08, CHR 0x0C, CHR 0x0A, CHR 0x0D, CHR 0x09}")
  case True
  then show ?thesis
    by (elim insertE emptyE) (simp_all add: quote_ascii_def unquote_escape simple_escapes)
next
  case plain: False
  show ?thesis
  proof (cases "b2n c < 0x20 \<or> c = CHR ''<'' \<or> c = CHR ''>'' \<or> c = CHR ''&''")
    case True
    then have "quote_ascii c = u_escape (b2n c)"
      using plain by (simp only: quote_ascii_def insert_iff empty_iff simp_thms de_Morgan_disj if_False if_True)
    then show ?thesis
      by (simp add: unquote_u_escape assms)
  next
    case False
    then have "quote_ascii c = [c]"
      using plain by (simp only: quote_ascii_def insert_iff empty_iff simp_thms de_Morgan_disj if_False)
    then show ?thesis
      using unquote_plain [of c t] utf8_size_ascii [OF assms, of t] plain False by (simp)
  qed
qed

lemma line_separatorE:
  assumes "is_line_separator s"
  obtains x cs where "s = CHR 0xE2 # CHR 0x80 # x # cs" "x = CHR 0xA8 \<or> x = CHR 0xA9"
  using assms append_take_drop_id [of 3 s] unfolding is_line_separator_def by (metis append_Cons append_Nil)

lemma unquote_line_separator:
  assumes "is_line_separator s"
  shows "unquote ([CHR 0x5C] @ ''u202'' @ [hex_digit (b2n (s ! 2) mod 16)] @ t) = prepend (take 3 s) (unquote t)"
proof -
  obtain x cs where s: "s = CHR 0xE2 # CHR 0x80 # x # cs" and x: "x = CHR 0xA8 \<or> x = CHR 0xA9"
    using assms by (rule line_separatorE)
  have hex: "hex_value (CHR ''2'') = Some 2" "hex_value (CHR ''0'') = Some 0" "hex_value (CHR ''8'') = Some 8"
      "hex_value (CHR ''9'') = Some 9" "hex_digit (b2n (CHR 0xA8) mod 16) = CHR ''8''"
      "hex_digit (b2n (CHR 0xA9) mod 16) = CHR ''9''" "utf8_encode 0x2028 = [CHR 0xE2, CHR 0x80, CHR 0xA8]"
      "utf8_encode 0x2029 = [CHR 0xE2, CHR 0x80, CHR 0xA9]"
    by code_simp+
  show ?thesis
    using x unquote_u [of "''2028'' @ t" "0x2028"] unquote_u [of "''2029'' @ t" "0x2029"]
    by (auto simp: s hex hex4_def)
qed

text \<open>A quoted string is read back.\<close>

lemma unquote_quote_body: "valid_utf8 s \<Longrightarrow> unquote (quote_body s @ CHR 0x22 # r) = Some (s, r)"
proof (induction s rule: quote_body.induct)
  case 1
  then show ?case
    by (simp add: quote_body.simps unquote_end)
next
  case (2 c cs)
  let ?n = "utf8_size (c # cs)"
  have n: "?n \<noteq> 0" and rest: "valid_utf8 (drop (?n - 1) cs)"
    using "2.prems" by (simp_all add: valid_utf8.simps(2) Let_def)
  show ?case
  proof (cases "b2n c < 0x80")
    case True
    then have "valid_utf8 cs"
      using "2.prems" valid_utf8_ascii by blast
    then show ?thesis
      using "2.IH"(1) True by (simp add: quote_body.simps(2) unquote_ascii)
  next
    case high: False
    show ?thesis
    proof (cases "is_line_separator (c # cs)")
      case True
      then have three: "?n = 3"
        by (elim line_separatorE) (auto simp: utf8_size.simps in_range_def b2n_def)
      then have "quote_body (c # cs)
          = [CHR 0x5C] @ ''u202'' @ [hex_digit (b2n ((c # cs) ! 2) mod 16)] @ quote_body (drop 2 cs)"
        using high True by (simp add: quote_body.simps(2) Let_def)
      moreover have "unquote (quote_body (drop 2 cs) @ CHR 0x22 # r) = Some (drop 2 cs, r)"
        using "2.IH"(3) [OF high refl] True three rest by (simp)
      ultimately show ?thesis
        using unquote_line_separator [OF True, of "quote_body (drop 2 cs) @ CHR 0x22 # r"] append_take_drop_id [of 2 cs]
        by (simp add: take_Cons')
    next
      case False
      have body: "quote_body (c # cs) = c # take (?n - 1) cs @ quote_body (drop (?n - 1) cs)"
        using high n False by (simp add: quote_body.simps(2) Let_def take_Cons')
      have size: "utf8_size (quote_body (c # cs) @ CHR 0x22 # r) = ?n"
        using utf8_size_take [OF n, of "quote_body (drop (?n - 1) cs) @ CHR 0x22 # r"] n
        by (simp add: body take_Cons')
      have len: "length (take (?n - 1) cs) = ?n - 1"
        using utf8_size_le [of "c # cs"] by simp
      have ih: "unquote (quote_body (drop (?n - 1) cs) @ CHR 0x22 # r) = Some (drop (?n - 1) cs, r)"
        using "2.IH"(4) [OF high refl] n False rest by (simp)
      have "c \<noteq> CHR 0x22" "c \<noteq> CHR 0x5C"
        using high by (auto simp: b2n_def)
      then have "unquote (quote_body (c # cs) @ CHR 0x22 # r)
          = prepend (c # take (?n - 1) cs) (unquote (quote_body (drop (?n - 1) cs) @ CHR 0x22 # r))"
        using unquote_plain [of c "take (?n - 1) cs @ quote_body (drop (?n - 1) cs) @ CHR 0x22 # r"] size high n len
        by (simp add: body take_Cons')
      then show ?thesis
        unfolding ih by simp
    qed
  qed
qed

section \<open>Numbers\<close>

text \<open>What may follow a value inside a document the encoder wrote.\<close>

definition value_end :: "string \<Rightarrow> bool" where
  "value_end r \<longleftrightarrow> r = [] \<or> hd r \<in> {CHR '','', CHR '']'', CHR 0x7D}"

lemma value_end_head:
  assumes "value_end (c # r)"
  shows "\<not> is_digit c" "c \<noteq> CHR ''.''" "c \<noteq> CHR ''e''" "c \<noteq> CHR ''E''"
  using assms by (auto simp: value_end_def is_digit_def in_range_def b2n_def)

lemma digits_append:
  assumes "value_end r"
  shows "takeWhile is_digit (s @ r) = takeWhile is_digit s" "dropWhile is_digit (s @ r) = dropWhile is_digit s @ r"
proof -
  have "takeWhile is_digit r = []" "dropWhile is_digit r = r"
    using assms value_end_head(1) by (cases r; auto)+
  then show "takeWhile is_digit (s @ r) = takeWhile is_digit s" "dropWhile is_digit (s @ r) = dropWhile is_digit s @ r"
    by (induction s) simp_all
qed

lemma scan_int_append:
  assumes "scan_int s = Some (i, s')" "value_end r"
  shows "scan_int (s @ r) = Some (i, s' @ r)"
proof -
  have "s \<noteq> []"
    using assms(1) by (auto simp: scan_int_def)
  then show ?thesis
    using assms by (auto simp: scan_int_def Let_def digits_append split: if_splits)
qed

lemma scan_frac_append:
  assumes "scan_frac s = Some (f, s')" "value_end r"
  shows "scan_frac (s @ r) = Some (f, s' @ r)"
  using assms
  by (cases s; cases r) (auto simp: scan_frac_def Let_def digits_append dest: value_end_head split: if_splits)

lemma scan_exp_append:
  assumes "scan_exp s = Some (e, s')" "value_end r"
  shows "scan_exp (s @ r) = Some (e, s' @ r)"
proof (cases s)
  case Nil
  then show ?thesis
    using assms by (cases r) (auto simp: scan_exp_def dest: value_end_head)
next
  case (Cons c cs)
  then show ?thesis
    using assms by (cases cs) (auto simp: scan_exp_def Let_def digits_append split: if_splits)
qed

lemma scan_number_append:
  assumes "scan_number s = Some (n, s')" "value_end r"
  shows "scan_number (s @ r) = Some (n, s' @ r)"
proof -
  define sg where "sg = (case s of c # _ \<Rightarrow> if c = CHR ''-'' then [c] else [] | [] \<Rightarrow> [])"
  have s: "s \<noteq> []"
    using assms(1) by (auto simp: scan_number_def scan_int_def)
  then have len: "length sg \<le> length s"
    by (cases s) (auto simp: sg_def)
  obtain i r1 f r2 e where scans: "scan_int (drop (length sg) s) = Some (i, r1)" "scan_frac r1 = Some (f, r2)"
      "scan_exp r2 = Some (e, s')" and n: "n = sg @ i @ f @ e"
    using assms(1) unfolding scan_number_def Let_def sg_def [symmetric] by (auto split: option.splits)
  have "scan_int (drop (length sg) (s @ r)) = Some (i, r1 @ r)"
    using scan_int_append [OF scans(1) assms(2)] len by simp
  moreover have "(case s @ r of c # _ \<Rightarrow> if c = CHR ''-'' then [c] else [] | [] \<Rightarrow> []) = sg"
    using s by (cases s) (simp_all add: sg_def)
  ultimately show ?thesis
    unfolding scan_number_def Let_def
    by (simp add: scan_frac_append [OF scans(2) assms(2)] scan_exp_append [OF scans(3) assms(2)] n)
qed

lemma scan_number_consumes: "scan_number s = Some (n, r) \<Longrightarrow> s = n @ r"
proof -
  have "scan_int s = Some (i, r) \<Longrightarrow> s = i @ r" for s i r
    by (cases s) (auto simp: scan_int_def Let_def split: if_splits)
  moreover have "scan_frac s = Some (f, r) \<Longrightarrow> s = f @ r" for s f r
    by (cases s) (auto simp: scan_frac_def Let_def split: if_splits)
  moreover have "scan_exp s = Some (e, r) \<Longrightarrow> s = e @ r" for s e r
    by (cases s; cases "tl s") (auto simp: scan_exp_def Let_def split: if_splits)
  ultimately show "scan_number s = Some (n, r) \<Longrightarrow> s = n @ r"
    by (cases s) (fastforce simp: scan_number_def Let_def split: option.splits if_splits)+
qed

lemma take_frac_scan: "take_frac s = map_option (map_prod tl (\<lambda>r. r)) (scan_frac s)"
  by (cases s) (simp_all add: take_frac_def scan_frac_def Let_def)

lemma take_exp_scan: "map_option snd (take_exp s) = map_option snd (scan_exp s)"
  by (cases s; cases "tl s") (auto simp: take_exp_def scan_exp_def Let_def)

text \<open>The decoder's number grammar is the one \<open>canonicalJSONNumber\<close> accepts.\<close>

lemma number_grammar: "number_parts s \<noteq> None \<longleftrightarrow> scan_number s = Some (s, [])"
proof -
  define s1 where "s1 = snd (take_sign s)"
  let ?i = "takeWhile is_digit s1" and ?s2 = "dropWhile is_digit s1"
  have rest: "drop (length (case s of c # _ \<Rightarrow> if c = CHR ''-'' then [c] else [] | [] \<Rightarrow> [])) s = s1"
    by (cases s) (simp_all add: s1_def take_sign_def)
  have tail: "(\<exists>f s3. take_frac t = Some (f, s3) \<and> (\<exists>e. take_exp s3 = Some (e, [])))
      \<longleftrightarrow> (\<exists>f s3. scan_frac t = Some (f, s3) \<and> (\<exists>e. scan_exp s3 = Some (e, [])))" for t
  proof -
    have "(\<exists>e. take_exp s3 = Some (e, [])) \<longleftrightarrow> (\<exists>e. scan_exp s3 = Some (e, []))" for s3
      using take_exp_scan [of s3] by (cases "take_exp s3"; cases "scan_exp s3") auto
    then show ?thesis
      unfolding take_frac_scan by fastforce
  qed
  have "number_parts s \<noteq> None \<longleftrightarrow> ?i \<noteq> [] \<and> \<not> (length ?i > 1 \<and> hd ?i = CHR ''0'')
      \<and> (\<exists>f s3. take_frac ?s2 = Some (f, s3) \<and> (\<exists>e. take_exp s3 = Some (e, [])))"
    unfolding number_parts_def Let_def by (auto simp: s1_def case_prod_unfold split: option.splits if_splits)
  also have "\<dots> \<longleftrightarrow> (\<exists>i r1. scan_int s1 = Some (i, r1)
      \<and> (\<exists>f s3. scan_frac r1 = Some (f, s3) \<and> (\<exists>e. scan_exp s3 = Some (e, []))))"
    unfolding tail
  proof (cases "length ?i > 1 \<and> hd ?i = CHR ''0''")
    case True
    then obtain d s' where s1: "s1 = CHR ''0'' # d # s'" "is_digit d"
      by (cases s1; cases "tl s1") (auto split: if_splits)
    then have "scan_int s1 = Some (''0'', d # s')"
      by (simp add: scan_int_def is_digit_def in_range_def b2n_def)
    moreover have "scan_frac (d # s') = Some ([], d # s')" "scan_exp (d # s') = Some ([], d # s')"
      using digit_not_sign [OF s1(2)] by (simp_all add: scan_frac_def scan_exp_def)
    ultimately show "(?i \<noteq> [] \<and> \<not> (length ?i > 1 \<and> hd ?i = CHR ''0'')
        \<and> (\<exists>f s3. scan_frac ?s2 = Some (f, s3) \<and> (\<exists>e. scan_exp s3 = Some (e, []))))
      \<longleftrightarrow> (\<exists>i r1. scan_int s1 = Some (i, r1)
        \<and> (\<exists>f s3. scan_frac r1 = Some (f, s3) \<and> (\<exists>e. scan_exp s3 = Some (e, []))))"
      using True by simp
  next
    case False
    have "scan_int s1 = (if ?i = [] then None else Some (?i, ?s2))"
    proof (cases "?i \<noteq> [] \<and> hd ?i = CHR ''0''")
      case True
      then have "length ?i = 1"
        using False by (cases ?i) auto
      then obtain d where d: "?i = [d]"
        by (auto simp: length_Suc_conv)
      then have "tl s1 = ?s2"
        using takeWhile_dropWhile_id [of is_digit s1] by (metis append_Cons append_Nil list.sel(3))
      then show ?thesis
        using d by (auto simp: scan_int_def Let_def)
    qed (auto simp: scan_int_def Let_def)
    then show "(?i \<noteq> [] \<and> \<not> (length ?i > 1 \<and> hd ?i = CHR ''0'')
        \<and> (\<exists>f s3. scan_frac ?s2 = Some (f, s3) \<and> (\<exists>e. scan_exp s3 = Some (e, []))))
      \<longleftrightarrow> (\<exists>i r1. scan_int s1 = Some (i, r1)
        \<and> (\<exists>f s3. scan_frac r1 = Some (f, s3) \<and> (\<exists>e. scan_exp s3 = Some (e, []))))"
      using False by auto
  qed
  also have "\<dots> \<longleftrightarrow> (\<exists>n. scan_number s = Some (n, []))"
    unfolding scan_number_def Let_def rest by (fastforce split: option.splits)
  also have "\<dots> \<longleftrightarrow> scan_number s = Some (s, [])"
    using scan_number_consumes [of s] by auto
  finally show ?thesis .
qed

section \<open>Trees\<close>

primrec wf_json :: "json \<Rightarrow> bool" where
  "wf_json JNull \<longleftrightarrow> True"
| "wf_json (JBool b) \<longleftrightarrow> True"
| "wf_json (JNumber n) \<longleftrightarrow> scan_number n = Some (n, [])"
| "wf_json (JString s) \<longleftrightarrow> valid_utf8 s"
| "wf_json (JArray xs) \<longleftrightarrow> list_all (\<lambda>b. b) (map wf_json xs)"
| "wf_json (JObject kvs) \<longleftrightarrow> list_all (\<lambda>(k, b). valid_utf8 k \<and> b) (map (map_prod (\<lambda>k. k) wf_json) kvs)"

text \<open>The tree fits under the scanner's nesting limit when it stands at the given depth.\<close>

primrec nests :: "json \<Rightarrow> int \<Rightarrow> bool" where
  "nests JNull d \<longleftrightarrow> True"
| "nests (JBool b) d \<longleftrightarrow> True"
| "nests (JNumber n) d \<longleftrightarrow> True"
| "nests (JString s) d \<longleftrightarrow> True"
| "nests (JArray xs) d \<longleftrightarrow> d < maxNestingDepth \<and> list_all (\<lambda>f. f (d + 1)) (map nests xs)"
| "nests (JObject kvs) d \<longleftrightarrow> d < maxNestingDepth \<and> list_all (\<lambda>(k, f). f (d + 1)) (map (map_prod (\<lambda>k. k) nests) kvs)"

lemma wf_json_simps [simp]:
  "wf_json (JArray xs) \<longleftrightarrow> (\<forall>x\<in>set xs. wf_json x)"
  "wf_json (JObject kvs) \<longleftrightarrow> (\<forall>kv\<in>set kvs. valid_utf8 (fst kv) \<and> wf_json (snd kv))"
  by (auto simp: list_all_iff)

lemma nests_simps [simp]:
  "nests (JArray xs) d \<longleftrightarrow> d < maxNestingDepth \<and> (\<forall>x\<in>set xs. nests x (d + 1))"
  "nests (JObject kvs) d \<longleftrightarrow> d < maxNestingDepth \<and> (\<forall>kv\<in>set kvs. nests (snd kv) (d + 1))"
  by (auto simp: list_all_iff)

declare wf_json.simps(5,6) [simp del] nests.simps(5,6) [simp del]

lemma number_head:
  assumes "scan_number n = Some (n', r)"
  shows "\<exists>c cs. n = c # cs \<and> (is_digit c \<or> c = CHR ''-'')"
proof (cases n)
  case (Cons c cs)
  then show ?thesis
    using assms by (auto simp: scan_number_def scan_int_def Let_def split: if_splits option.splits)
qed (use assms in \<open>simp add: scan_number_def scan_int_def\<close>)

text \<open>The first character of an encoding: no blank, no comma, no closing bracket.\<close>

lemma not_space: "\<not> is_space (CHR '','')" "\<not> is_space (CHR '']'')" "\<not> is_space (CHR 0x7D)" "\<not> is_space (CHR 0x22)"
    "\<not> is_space (CHR '':'')" "\<not> is_space (CHR ''['')" "\<not> is_space (CHR 0x7B)"
    "\<not> is_space (CHR ''t'')" "\<not> is_space (CHR ''f'')" "\<not> is_space (CHR ''n'')"
  by code_simp+

lemma number_char:
  assumes "is_digit c \<or> c = CHR ''-''"
  shows "\<not> is_space c" "c \<notin> {CHR 0x22, CHR ''['', CHR '']'', CHR 0x7B, CHR ''t'', CHR ''f'', CHR ''n''}"
proof -
  have "b2n (CHR ''-'') = 45" "b2n (CHR 0x22) = 34" "b2n (CHR ''['') = 91" "b2n (CHR '']'') = 93" "b2n (CHR 0x7B) = 123"
      "b2n (CHR ''t'') = 116" "b2n (CHR ''f'') = 102" "b2n (CHR ''n'') = 110"
    by code_simp+
  moreover from this have "45 \<le> b2n c \<and> b2n c \<le> 57 \<and> b2n c \<noteq> 46"
    using assms by (auto simp: digit_range)
  ultimately show "\<not> is_space c" "c \<notin> {CHR 0x22, CHR ''['', CHR '']'', CHR 0x7B, CHR ''t'', CHR ''f'', CHR ''n''}"
    unfolding is_space_def by auto
qed

lemma marshal_head:
  assumes "wf_json v"
  shows "\<exists>c cs. marshal v = c # cs \<and> \<not> is_space c \<and> c \<noteq> CHR '']''"
proof (cases v)
  case (JNumber n)
  then obtain c cs where "n = c # cs" "is_digit c \<or> c = CHR ''-''"
    using assms number_head [of n n "[]"] by auto
  then show ?thesis
    using number_char [of c] by (auto simp: JNumber)
qed (simp_all add: not_space quote_string_def array_text_def object_text_def)

lemma skip_ws_marshal: "wf_json v \<Longrightarrow> skip_ws (marshal v @ r) = marshal v @ r"
  using marshal_head [of v] by (auto simp: skip_ws_def)

lemma skip_ws_head: "\<not> is_space c \<Longrightarrow> skip_ws (c # r) = c # r"
  by (simp add: skip_ws_def)

lemma value_ends [simp]: "value_end (CHR '','' # r)" "value_end (CHR '']'' # r)" "value_end (CHR 0x7D # r)" "value_end []"
  by (simp_all add: value_end_def)

definition reads_back :: "json \<Rightarrow> bool" where
  "reads_back v \<longleftrightarrow>
    (\<forall>n d r. wf_json v \<longrightarrow> nests v d \<longrightarrow> length (marshal v) \<le> n \<longrightarrow> value_end r
      \<longrightarrow> jvalue n d (marshal v @ r) = Some (v, r))"

lemma jelems_marshal:
  assumes "\<forall>x\<in>set xs. reads_back x \<and> wf_json x \<and> nests x d" "xs \<noteq> []"
    and "length (intersperse_concat '','' (map marshal xs)) < n"
  shows "jelems n d (intersperse_concat '','' (map marshal xs) @ CHR '']'' # r) = Some (xs, r)"
  using assms
proof (induction xs arbitrary: n)
  case (Cons x xs)
  then obtain m where n: "n = Suc m"
    by (cases n) auto
  show ?case
  proof (cases xs)
    case Nil
    then have "jvalue m d (marshal x @ CHR '']'' # r) = Some (x, CHR '']'' # r)"
      using Cons.prems by (simp add: reads_back_def n)
    then show ?thesis
      by (simp add: Nil n jelems.simps skip_ws_head not_space)
  next
    case (Cons y ys)
    let ?rest = "intersperse_concat '','' (map marshal xs) @ CHR '']'' # r"
    have len: "length (marshal x) \<le> m" "length (intersperse_concat '','' (map marshal xs)) < m"
      using Cons.prems(3) by (simp_all add: Cons n)
    then have "jvalue m d (marshal x @ CHR '','' # ?rest) = Some (x, CHR '','' # ?rest)"
      using Cons.prems(1) by (simp add: reads_back_def)
    moreover have "jelems m d ?rest = Some (xs, r)"
      using Cons.IH [of m] Cons.prems(1) len(2) by (simp add: Cons)
    ultimately show ?thesis
      by (simp add: Cons n jelems.simps skip_ws_head not_space)
  qed
qed simp

abbreviation members_text :: "(string \<times> json) list \<Rightarrow> string" where
  "members_text kvs \<equiv> intersperse_concat '','' (map member_text (map (map_prod (\<lambda>k. k) marshal) kvs))"

lemma jmember_marshal:
  assumes "reads_back v" "wf_json v" "nests v d" "valid_utf8 k" "length (marshal v) \<le> m" "value_end (c # t)" "\<not> is_space c"
  shows "jmembers (Suc m) d (member_text (k, marshal v) @ c # t)
    = (if c = CHR '','' then prepend [(k, v)] (jmembers m d t)
       else if c = CHR 0x7D then Some ([(k, v)], t) else None)"
proof -
  have "jvalue m d (marshal v @ c # t) = Some (v, c # t)"
    using assms by (simp add: reads_back_def)
  then show ?thesis
    using unquote_quote_body [OF assms(4), of "CHR '':'' # marshal v @ c # t"] assms(7)
    by (simp add: member_text_def quote_string_def jmembers.simps skip_ws_head not_space)
qed

lemma jmembers_marshal:
  assumes "\<forall>kv\<in>set kvs. reads_back (snd kv) \<and> wf_json (snd kv) \<and> nests (snd kv) d \<and> valid_utf8 (fst kv)" "kvs \<noteq> []"
    and "length (members_text kvs) < n"
  shows "jmembers n d (members_text kvs @ CHR 0x7D # r) = Some (kvs, r)"
  using assms
proof (induction kvs arbitrary: n)
  case (Cons kv kvs)
  obtain k v where kv: "kv = (k, v)"
    by (cases kv)
  obtain m where n: "n = Suc m"
    using Cons.prems(3) by (cases n) auto
  have v: "reads_back v" "wf_json v" "nests v d" "valid_utf8 k"
    using Cons.prems(1) by (simp_all add: kv)
  have len_v: "length (marshal v) \<le> length (member_text (k, marshal v))"
    by (simp add: member_text_def)
  show ?case
  proof (cases kvs)
    case Nil
    then show ?thesis
      using jmember_marshal [OF v, of m "CHR 0x7D" r] Cons.prems(3) len_v by (simp add: kv n not_space)
  next
    case (Cons kv' kvs')
    let ?rest = "members_text kvs @ CHR 0x7D # r"
    have len: "length (member_text (k, marshal v)) \<le> m" "length (members_text kvs) < m"
      using Cons.prems(3) by (simp_all add: Cons n kv)
    have "jmembers m d ?rest = Some (kvs, r)"
      using Cons.IH [of m] Cons.prems(1) len(2) by (simp add: Cons)
    then show ?thesis
      using jmember_marshal [OF v, of m "CHR '',''" ?rest] len(1) len_v by (simp add: kv n Cons not_space)
  qed
qed simp

lemma reads_back_array:
  assumes "\<forall>x\<in>set xs. reads_back x"
  shows "reads_back (JArray xs)"
  unfolding reads_back_def
proof (intro allI impI)
  fix n d r
  assume wf: "wf_json (JArray xs)" "nests (JArray xs) d" and n: "length (marshal (JArray xs)) \<le> n"
  then obtain m where m: "n = Suc m" "length (intersperse_concat '','' (map marshal xs)) < m"
    by (cases n) (auto simp: array_text_def)
  show "jvalue n d (marshal (JArray xs) @ r) = Some (JArray xs, r)"
  proof (cases xs)
    case Nil
    then show ?thesis
      using wf by (simp add: array_text_def m jvalue.simps skip_ws_head not_space)
  next
    case (Cons x ys)
    have "\<exists>c cs. intersperse_concat '','' (map marshal xs) = c # cs \<and> \<not> is_space c \<and> c \<noteq> CHR '']''"
      using marshal_head [of x] wf(1) by (cases ys) (auto simp: Cons)
    moreover have "jelems m (d + 1) (intersperse_concat '','' (map marshal xs) @ CHR '']'' # r) = Some (xs, r)"
      using assms wf m(2) by (intro jelems_marshal) (simp_all add: Cons)
    ultimately show ?thesis
      using wf(2) by (auto simp: array_text_def m(1) jvalue.simps skip_ws_head not_space)
  qed
qed

lemma reads_back_object:
  assumes "\<forall>kv\<in>set kvs. reads_back (snd kv)"
  shows "reads_back (JObject kvs)"
  unfolding reads_back_def
proof (intro allI impI)
  fix n d r
  assume wf: "wf_json (JObject kvs)" "nests (JObject kvs) d" and n: "length (marshal (JObject kvs)) \<le> n"
  then obtain m where m: "n = Suc m" "length (members_text kvs) < m"
    by (cases n) (auto simp: object_text_def)
  show "jvalue n d (marshal (JObject kvs) @ r) = Some (JObject kvs, r)"
  proof (cases kvs)
    case Nil
    then show ?thesis
      using wf by (simp add: object_text_def m jvalue.simps skip_ws_head not_space)
  next
    case (Cons kv kvs')
    have "\<exists>cs. members_text kvs = CHR 0x22 # cs"
      by (cases kvs') (auto simp: Cons member_text_def quote_string_def)
    moreover have "jmembers m (d + 1) (members_text kvs @ CHR 0x7D # r) = Some (kvs, r)"
      using assms wf m(2) by (intro jmembers_marshal) (simp_all add: Cons)
    ultimately show ?thesis
      using wf(2) by (auto simp: object_text_def m(1) jvalue.simps skip_ws_head not_space)
  qed
qed

lemma reads_back_literals:
  assumes "0 < n"
  shows "jvalue n d (CHR ''n'' # CHR ''u'' # CHR ''l'' # CHR ''l'' # r) = Some (JNull, r)"
    and "jvalue n d (CHR ''t'' # CHR ''r'' # CHR ''u'' # CHR ''e'' # r) = Some (JBool True, r)"
    and "jvalue n d (CHR ''f'' # CHR ''a'' # CHR ''l'' # CHR ''s'' # CHR ''e'' # r) = Some (JBool False, r)"
  using assms by (cases n; simp add: jvalue.simps skip_ws_head not_space scan_literal_def)+

lemma reads_back: "reads_back v"
proof (induction v)
  case (JNumber lit)
  show ?case
    unfolding reads_back_def
  proof (intro allI impI)
    fix n d r
    assume lit: "wf_json (JNumber lit)" "length (marshal (JNumber lit)) \<le> n" and r: "value_end r"
    then obtain c cs where c: "lit = c # cs" "is_digit c \<or> c = CHR ''-''"
      using number_head [of lit lit "[]"] by auto
    then obtain m where m: "n = Suc m"
      using lit(2) by (cases n) auto
    show "jvalue n d (marshal (JNumber lit) @ r) = Some (JNumber lit, r)"
      using lit(1) scan_number_append [of lit lit "[]" r] r number_char [OF c(2)]
      by (simp add: m c(1) jvalue.simps skip_ws_head)
  qed
next
  case (JString s)
  show ?case
    unfolding reads_back_def
  proof (intro allI impI)
    fix n d r
    assume "wf_json (JString s)" "length (marshal (JString s)) \<le> n"
    then show "jvalue n d (marshal (JString s) @ r) = Some (JString s, r)"
      using unquote_quote_body [of s r]
      by (cases n) (simp_all add: quote_string_def jvalue.simps skip_ws_head not_space)
  qed
next
  case (JArray xs)
  then show ?case
    by (simp add: reads_back_array)
next
  case (JObject kvs)
  have "\<forall>kv\<in>set kvs. reads_back (snd kv)"
    using JObject by fastforce
  then show ?case
    by (rule reads_back_object)
qed (auto simp: reads_back_def reads_back_literals)

text \<open>The round trip: a well-formed tree is read back from its encoding.\<close>

lemma parse_marshal:
  assumes "wf_json v" "nests v 0"
  shows "parseJSON (marshal v) = Inr v"
proof -
  have "parse_prefix (marshal v) = Some (v, [])"
    using reads_back [of v] assms unfolding reads_back_def parse_prefix_def parse_fuel_def
    by (metis append_Nil2 le_add1 mult_2 trans_le_add1 value_ends(4))
  then show ?thesis
    by (simp add: parseJSON_def skip_ws_def)
qed

lemma marshal_inject:
  assumes "wf_json v" "nests v 0" "wf_json w" "nests w 0"
  shows "marshal v = marshal w \<longleftrightarrow> v = w"
  using parse_marshal [OF assms(1,2)] parse_marshal [OF assms(3,4)] by (metis Inr_inject)

end
