(* ===== verification/CanonicalJson.thy ===== *)
theory CanonicalJson
  imports JsonRoundTrip
begin

text \<open>
  Canonical JSON is a normal form for the meaning of a document.  The decoder only produces
  well-formed trees, number normalisation keeps them so, and encodings of well-formed trees are
  uniquely readable; hence two documents have the same canonical bytes exactly if they mean the
  same, where meaning ignores blanks, the order and repetition of keys, escapes, and the spelling of
  numbers.
\<close>

section \<open>Decoded strings\<close>

lemma hex_value_range: "hex_value c = Some n \<Longrightarrow> 0 \<le> n \<and> n < 16"
  by (auto simp: hex_value_def in_range_def split: if_splits)

lemma hex4_range:
  assumes "hex4 s = Some x"
  shows "0 \<le> x \<and> x < 0x10000"
proof -
  obtain a b c d t where s: "s = a # b # c # d # t"
    using assms by (auto simp: hex4_def split: list.splits)
  then obtain p q u v where "hex_value a = Some p" "hex_value b = Some q" "hex_value c = Some u" "hex_value d = Some v"
      and x: "x = ((p * 16 + q) * 16 + u) * 16 + v"
    using assms by (auto simp: hex4_def split: option.splits)
  then have "0 \<le> p" "p < 16" "0 \<le> q" "q < 16" "0 \<le> u" "u < 16" "0 \<le> v" "v < 16"
    using hex_value_range by blast+
  then have "0 \<le> x" "x < 0x10000"
    unfolding x by simp_all
  then show ?thesis
    by simp
qed

lemma simple_escape_ascii: "simple_escape e = Some b \<Longrightarrow> b2n b < 0x80"
proof -
  have "b2n (CHR 0x22) < 0x80" "b2n (CHR 0x5C) < 0x80" "b2n (CHR 0x2F) < 0x80" "b2n (CHR 0x08) < 0x80"
      "b2n (CHR 0x0C) < 0x80" "b2n (CHR 0x0A) < 0x80" "b2n (CHR 0x0D) < 0x80" "b2n (CHR 0x09) < 0x80"
    by code_simp+
  then show "simple_escape e = Some b \<Longrightarrow> b2n b < 0x80"
    by (auto simp: simple_escape_def split: if_splits)
qed

lemma valid_utf8_sequence:
  assumes "utf8_size (c # cs) \<noteq> 0"
  shows "valid_utf8 (take (utf8_size (c # cs)) (c # cs) @ t) = valid_utf8 t"
proof (rule valid_utf8_step)
  show "utf8_size (take (utf8_size (c # cs)) (c # cs)) = length (take (utf8_size (c # cs)) (c # cs))"
    using utf8_size_take [OF assms, of "[]"] utf8_size_le [of "c # cs"] by simp
  show "take (utf8_size (c # cs)) (c # cs) \<noteq> []"
    using assms by simp
qed

lemma low_surrogate_range: "low_surrogate_follows s = Some x \<Longrightarrow> 0xDC00 \<le> x \<and> x \<le> 0xDFFF"
  by (auto simp: low_surrogate_follows_def split: list.splits if_splits option.splits)

lemma rune_error_valid: "valid_utf8 (utf8_encode rune_error @ t) = valid_utf8 t"
  by (rule utf8_encode_valid) (simp_all add: rune_error_def)

text \<open>Whatever the input, the decoded string is valid UTF-8.\<close>

lemma unquote_valid: "unquote s = Some (t, r) \<Longrightarrow> valid_utf8 t"
proof (induction s arbitrary: t r rule: length_induct)
  case (1 s)
  obtain c cs where s: "s = c # cs"
    using "1.prems" by (cases s) (simp_all add: unquote.simps)
  have step: "valid_utf8 t" if "prepend p (unquote z) = Some (t, r)" "length z < length s"
      "\<And>u. valid_utf8 (p @ u) = valid_utf8 u" for p z
    using that "1.IH" by auto
  consider "c = CHR 0x22" | "c = CHR 0x5C" | "c \<noteq> CHR 0x22" "c \<noteq> CHR 0x5C" "utf8_size (c # cs) = 0"
    | "c \<noteq> CHR 0x22" "c \<noteq> CHR 0x5C" "utf8_size (c # cs) \<noteq> 0"
    by blast
  then show ?case
  proof cases
    case 1
    then show ?thesis
      using "1.prems" by (simp add: s unquote.simps)
  next
    case escape: 2
    then obtain e es where cs: "cs = e # es"
      using "1.prems" by (cases cs) (auto simp: s unquote.simps(2))
    show ?thesis
    proof (cases "simple_escape e")
      case (Some b)
      then have "prepend [b] (unquote es) = Some (t, r)"
        using "1.prems" escape by (simp add: s cs unquote.simps(2))
      then show ?thesis
        by (rule step) (simp_all add: s cs valid_utf8_ascii simple_escape_ascii [OF Some])
    next
      case None
      then obtain x where x: "hex4 es = Some x"
        using "1.prems" escape by (auto simp: s cs unquote.simps(2) split: if_splits option.splits)
      consider "x < 0xD800 \<or> 0xDFFF < x" "prepend (utf8_encode x) (unquote (drop 4 es)) = Some (t, r)"
        | "prepend (utf8_encode rune_error) (unquote (drop 4 es)) = Some (t, r)"
        | y where "0xD800 \<le> x" "x \<le> 0xDBFF" "low_surrogate_follows (drop 4 es) = Some y"
            "prepend (utf8_encode ((x - 0xD800) * 0x400 + (y - 0xDC00) + 0x10000)) (unquote (drop 10 es)) = Some (t, r)"
        using "1.prems" None x escape
        by (auto simp: s cs unquote.simps(2) not_le split: if_splits option.splits)
      then show ?thesis
      proof cases
        case 1
        have "valid_utf8 (utf8_encode x @ u) = valid_utf8 u" for u
          using 1(1) hex4_range [OF x] by (intro utf8_encode_valid) auto
        then show ?thesis
          by (intro step [OF 1(2)]) (simp_all add: s cs)
      next
        case 2
        then show ?thesis
          by (rule step) (simp_all add: s cs rune_error_valid)
      next
        case 3
        have "0 \<le> (x - 0xD800) * 0x400 + (y - 0xDC00) + 0x10000" "(x - 0xD800) * 0x400 + (y - 0xDC00) + 0x10000 < 0x110000"
            "0xDFFF < (x - 0xD800) * 0x400 + (y - 0xDC00) + 0x10000"
          using 3(1,2) low_surrogate_range [OF 3(3)] by auto
        then show ?thesis
          by (intro step [OF 3(4)] utf8_encode_valid) (simp_all add: s cs)
      qed
    qed
  next
    case 3
    then have "prepend (utf8_encode rune_error) (unquote cs) = Some (t, r)"
      using "1.prems" by (simp add: s unquote.simps(2) split: if_splits)
    then show ?thesis
      by (rule step) (simp_all add: s rune_error_valid)
  next
    case 4
    let ?n = "utf8_size (c # cs)"
    have "prepend (take ?n (c # cs)) (unquote (drop (?n - 1) cs)) = Some (t, r)"
      using "1.prems" 4 by (simp add: s unquote.simps(2) Let_def split: if_splits)
    then show ?thesis
      by (rule step) (simp add: s, rule valid_utf8_sequence [OF 4(3)])
  qed
qed

section \<open>Decoded trees\<close>

lemma scan_int_digits:
  assumes "scan_int s = Some (i, r)"
  shows "i \<noteq> []" "\<forall>c\<in>set i. is_digit c" "hd i = CHR ''0'' \<longrightarrow> length i = 1"
proof -
  have "\<forall>c\<in>set (takeWhile is_digit s). is_digit c"
    using set_takeWhileD by fast
  moreover have "is_digit (CHR ''0'')"
    by code_simp
  ultimately show "i \<noteq> []" "\<forall>c\<in>set i. is_digit c" "hd i = CHR ''0'' \<longrightarrow> length i = 1"
    using assms by (auto simp: scan_int_def Let_def split: if_splits)
qed

lemma scan_int_self:
  assumes "scan_int s = Some (i, r)" "t = [] \<or> \<not> is_digit (hd t)"
  shows "scan_int (i @ t) = Some (i, t)"
proof -
  have t: "takeWhile is_digit t = []" "dropWhile is_digit t = t"
    using assms(2) by (cases t; auto)+
  note i = scan_int_digits [OF assms(1)]
  then have "takeWhile is_digit (i @ t) = i" "dropWhile is_digit (i @ t) = t"
    using t by (simp_all add: takeWhile_append dropWhile_append)
  then show ?thesis
    using i(1,3) by (auto simp: scan_int_def Let_def length_Suc_conv)
qed

lemma scan_frac_self:
  assumes "scan_frac s = Some (f, r)" "t = [] \<or> \<not> is_digit (hd t) \<and> hd t \<noteq> CHR ''.''"
  shows "scan_frac (f @ t) = Some (f, t)" "f = [] \<or> hd f = CHR ''.''"
proof -
  have digits: "\<forall>c\<in>set (takeWhile is_digit u). is_digit c" for u
    using set_takeWhileD by fast
  have t: "takeWhile is_digit t = []" "dropWhile is_digit t = t"
    using assms(2) by (cases t; auto)+
  consider "f = []" | ds where "f = CHR ''.'' # ds" "ds \<noteq> []" "\<forall>c\<in>set ds. is_digit c"
    using assms(1) digits by (cases s) (auto simp: scan_frac_def Let_def split: if_splits)
  then have "scan_frac (f @ t) = Some (f, t) \<and> (f = [] \<or> hd f = CHR ''.'')"
  proof cases
    case 1
    then show ?thesis
      using assms(2) by (cases t) (auto simp: scan_frac_def)
  next
    case 2
    then show ?thesis
      using t by (simp add: scan_frac_def Let_def takeWhile_append dropWhile_append)
  qed
  then show "scan_frac (f @ t) = Some (f, t)" "f = [] \<or> hd f = CHR ''.''"
    by blast+
qed

lemma scan_exp_self:
  assumes "scan_exp s = Some (e, r)"
  shows "scan_exp e = Some (e, [])" "e = [] \<or> hd e = CHR ''e'' \<or> hd e = CHR ''E''"
proof -
  have digits: "\<forall>c\<in>set (takeWhile is_digit u). is_digit c" for u
    using set_takeWhileD by fast
  consider "e = []" | c sg ds where "e = c # sg @ ds" "c = CHR ''e'' \<or> c = CHR ''E''" "sg = [] \<or> sg = ''+'' \<or> sg = ''-''"
      "ds \<noteq> []" "\<forall>c\<in>set ds. is_digit c"
  proof (cases s)
    case (Cons c cs)
    define sg where "sg = (case cs of d # _ \<Rightarrow> if d = CHR ''+'' \<or> d = CHR ''-'' then [d] else [] | [] \<Rightarrow> [])"
    show thesis
    proof (cases "c = CHR ''e'' \<or> c = CHR ''E''")
      case True
      then have "e = c # sg @ takeWhile is_digit (drop (length sg) cs)" "takeWhile is_digit (drop (length sg) cs) \<noteq> []"
        using assms by (auto simp: Cons scan_exp_def Let_def sg_def [symmetric] split: if_splits)
      moreover have "sg = [] \<or> sg = ''+'' \<or> sg = ''-''"
        by (auto simp: sg_def split: list.splits)
      ultimately show ?thesis
        using that(2) True digits by blast
    qed (use assms that(1) Cons in \<open>auto simp: scan_exp_def\<close>)
  qed (use assms that(1) in \<open>auto simp: scan_exp_def\<close>)
  then have "scan_exp e = Some (e, []) \<and> (e = [] \<or> hd e = CHR ''e'' \<or> hd e = CHR ''E'')"
  proof cases
    case 2
    then obtain d ds' where ds: "ds = d # ds'" "is_digit d"
      by (cases ds) auto
    have whole: "takeWhile is_digit ds = ds" "dropWhile is_digit ds = []"
      using 2(5) by (simp_all add: takeWhile_eq_all_conv dropWhile_eq_Nil_conv)
    show ?thesis
      using 2(1-3) whole digit_not_sign [OF ds(2)] ds by (auto simp: scan_exp_def Let_def)
  qed (simp add: scan_exp_def)
  then show "scan_exp e = Some (e, [])" "e = [] \<or> hd e = CHR ''e'' \<or> hd e = CHR ''E''"
    by blast+
qed

text \<open>A scanned literal is a literal on its own.\<close>

lemma scan_number_self:
  assumes "scan_number s = Some (n, r)"
  shows "scan_number n = Some (n, [])"
proof -
  define sg where "sg = (case s of c # _ \<Rightarrow> if c = CHR ''-'' then [c] else [] | [] \<Rightarrow> [])"
  obtain i r1 f r2 e where scans: "scan_int (drop (length sg) s) = Some (i, r1)" "scan_frac r1 = Some (f, r2)"
      "scan_exp r2 = Some (e, r)" and n: "n = sg @ i @ f @ e"
    using assms unfolding scan_number_def Let_def sg_def [symmetric] by (auto split: option.splits)
  have stops: "\<not> is_digit (CHR ''.'')" "\<not> is_digit (CHR ''e'')" "\<not> is_digit (CHR ''E'')"
    using digit_not_sign by blast+
  note e = scan_exp_self [OF scans(3)]
  have e_head: "e = [] \<or> \<not> is_digit (hd e) \<and> hd e \<noteq> CHR ''.''"
    using e(2) stops by auto
  note f = scan_frac_self [OF scans(2) e_head]
  have "f @ e = [] \<or> \<not> is_digit (hd (f @ e))"
    using f(2) e_head stops by (cases f) auto
  note i = scan_int_self [OF scans(1) this]
  have sg: "(case n of c # _ \<Rightarrow> if c = CHR ''-'' then [c] else [] | [] \<Rightarrow> []) = sg"
  proof (cases "sg = []")
    case True
    have "i \<noteq> []" "is_digit (hd i)"
      using scan_int_digits [OF scans(1)] by simp_all
    then show ?thesis
      using digit_not_sign [of "hd i"] by (cases i) (auto simp: n True)
  next
    case False
    then have "sg = ''-''"
      by (auto simp: sg_def split: list.splits if_splits)
    then show ?thesis
      by (simp add: n)
  qed
  then show ?thesis
    unfolding scan_number_def Let_def by (simp add: n i f(1) e(1))
qed

lemma decoded_wf:
  "jvalue n d s = Some (v, r) \<Longrightarrow> wf_json v \<and> nests v d"
  "jelems n d s = Some (vs, r) \<Longrightarrow> \<forall>v\<in>set vs. wf_json v \<and> nests v d"
  "jmembers n d s = Some (kvs, r) \<Longrightarrow> \<forall>kv\<in>set kvs. valid_utf8 (fst kv) \<and> wf_json (snd kv) \<and> nests (snd kv) d"
proof (induction n d s and n d s and n d s arbitrary: v r and vs r and kvs r rule: jvalue_jelems_jmembers.induct)
  case (2 n d s)
  then obtain c cs where ws: "skip_ws s = c # cs"
    by (auto simp: jvalue.simps split: list.splits)
  show ?case
  proof (cases "c = CHR ''['' \<or> c = CHR 0x7B")
    case True
    then show ?thesis
      using "2.prems" "2.IH" ws by (auto simp: jvalue.simps split: if_splits)
  next
    case False
    then show ?thesis
      using "2.prems" ws
      by (auto simp: jvalue.simps scan_literal_def split: if_splits dest: unquote_valid scan_number_self)
  qed
next
  case (4 n d s)
  then obtain v' r' c cs where v': "jvalue n d s = Some (v', r')" and ws: "skip_ws r' = c # cs"
    by (auto simp: jelems.simps split: option.splits list.splits)
  then show ?case
    using "4.prems" "4.IH" by (auto simp: jelems.simps split: if_splits)
next
  case (6 n d s)
  then obtain qs k r1 v' r2 c cs where step: "skip_ws s = CHR 0x22 # qs" "unquote qs = Some (k, r1)" "take 1 (skip_ws r1) = '':''"
      "jvalue n d (drop 1 (skip_ws r1)) = Some (v', r2)" "skip_ws r2 = c # cs"
    by (auto simp: jmembers.simps split: option.splits list.splits if_splits)
  have first: "wf_json v' \<and> nests v' d"
    by (rule "6.IH"(1) [OF step(1) _ step(2) refl _ step(4)]) (use step(3) in simp_all)
  have others: "\<forall>kv\<in>set kvs'. valid_utf8 (fst kv) \<and> wf_json (snd kv) \<and> nests (snd kv) d"
    if "c = CHR '',''" "jmembers n d cs = Some (kvs', r)" for kvs'
    by (rule "6.IH"(2) [OF step(1) _ step(2) refl _ step(4) refl step(5) that]) (use step(3) in simp_all)
  show ?case
    using "6.prems" step first others unquote_valid [OF step(2)]
    by (auto simp: jmembers.simps split: if_splits) force+
qed (simp_all add: jvalue.simps jelems.simps jmembers.simps)

section \<open>Go values\<close>

lemma set_obj_put: "set (obj_put k v m) \<subseteq> insert (k, v) (set m)"
  by (induction k v m rule: obj_put.induct) auto

lemma set_obj_of: "set (obj_of kvs) \<subseteq> set kvs"
proof -
  have "set (fold (\<lambda>(k, v) m. obj_put k v m) kvs m) \<subseteq> set kvs \<union> set m" for m
  proof (induction kvs arbitrary: m)
    case (Cons kv kvs)
    then show ?case
      using set_obj_put [of "fst kv" "snd kv" m] by (cases kv) fastforce
  qed simp
  from this [of "[]"] show ?thesis
    by (simp add: obj_of_def)
qed

lemma go_any_wf: "wf_json v \<Longrightarrow> wf_json (go_any v)"
proof (induction v)
  case (JObject kvs)
  then have "\<forall>kv\<in>set (map (map_prod (\<lambda>k. k) go_any) kvs). valid_utf8 (fst kv) \<and> wf_json (snd kv)"
    by fastforce
  then show ?case
    unfolding go_any.simps wf_json_simps using set_obj_of by blast
qed auto

lemma go_any_nests: "nests v d \<Longrightarrow> nests (go_any v) d"
proof (induction v arbitrary: d)
  case (JObject kvs)
  then have "\<forall>kv\<in>set (map (map_prod (\<lambda>k. k) go_any) kvs). nests (snd kv) (d + 1)"
    by fastforce
  then show ?case
    using JObject.prems set_obj_of unfolding go_any.simps nests_simps by blast
qed auto

text \<open>A tree as Go holds it: every object is a map.\<close>

primrec go_value :: "json \<Rightarrow> bool" where
  "go_value JNull \<longleftrightarrow> True"
| "go_value (JBool b) \<longleftrightarrow> True"
| "go_value (JNumber n) \<longleftrightarrow> True"
| "go_value (JString s) \<longleftrightarrow> True"
| "go_value (JArray xs) \<longleftrightarrow> list_all (\<lambda>b. b) (map go_value xs)"
| "go_value (JObject kvs) \<longleftrightarrow> sorted_map kvs \<and> list_all snd (map (map_prod (\<lambda>k. k) go_value) kvs)"

lemma go_value_simps [simp]:
  "go_value (JArray xs) \<longleftrightarrow> (\<forall>x\<in>set xs. go_value x)"
  "go_value (JObject kvs) \<longleftrightarrow> sorted_map kvs \<and> (\<forall>kv\<in>set kvs. go_value (snd kv))"
  by (auto simp: list_all_iff)

declare go_value.simps(5,6) [simp del]

lemma go_any_value: "go_value (go_any v)"
proof (induction v)
  case (JObject kvs)
  then have "\<forall>kv\<in>set (map (map_prod (\<lambda>k. k) go_any) kvs). go_value (snd kv)"
    by fastforce
  then show ?case
    unfolding go_any.simps go_value_simps using set_obj_of sorted_map_obj_of by blast
qed auto

lemma go_any_fixed: "go_value v \<Longrightarrow> go_any v = v"
proof (induction v)
  case (JArray xs)
  then show ?case
    by (simp add: map_idI)
next
  case (JObject kvs)
  have "map (map_prod (\<lambda>k. k) go_any) kvs = kvs"
    using JObject by (intro map_idI) fastforce
  then show ?case
    using JObject.prems by (simp add: obj_of_sorted)
qed auto

section \<open>Number normalisation\<close>

primrec canon :: "json \<Rightarrow> json" where
  "canon JNull = JNull"
| "canon (JBool b) = JBool b"
| "canon (JNumber n) = JNumber (the (canonicalJSONNumber n))"
| "canon (JString s) = JString s"
| "canon (JArray xs) = JArray (map canon xs)"
| "canon (JObject kvs) = JObject (map (map_prod (\<lambda>k. k) canon) kvs)"

lemma canonical_number_exists:
  assumes "scan_number n = Some (n, [])"
  obtains c where "canonicalJSONNumber n = Some c" "scan_number c = Some (c, [])"
proof -
  obtain c where c: "canonicalJSONNumber n = Some c"
    using assms number_grammar [of n] by (auto simp: canonicalJSONNumber_def)
  have "number_parts c \<noteq> None"
    using canonical_idempotent [OF c] by (auto simp: canonicalJSONNumber_def split: option.splits)
  then show thesis
    using that c number_grammar by blast
qed

lemma those_map_Some: "\<forall>x\<in>set xs. f x = Some (g x) \<Longrightarrow> those (map f xs) = Some (map g xs)"
  by (induction xs) auto

lemma normalizeNumbers_canon: "wf_json v \<Longrightarrow> normalizeNumbers v = Some (canon v)"
proof (induction v)
  case (JNumber n)
  then obtain c where "canonicalJSONNumber n = Some c"
    using canonical_number_exists [of n] by auto
  then show ?case
    by (simp add: canonicalNumberLiteral_def)
next
  case (JArray xs)
  then show ?case
    by (simp add: those_map_Some [of xs normalizeNumbers canon])
next
  case (JObject kvs)
  have "\<forall>kv\<in>set kvs. (key_result \<circ> map_prod (\<lambda>k. k) normalizeNumbers) kv = Some (map_prod (\<lambda>k. k) canon kv)"
    using JObject by (fastforce simp: key_result_def)
  then show ?case
    using those_map_Some [of kvs "key_result \<circ> map_prod (\<lambda>k. k) normalizeNumbers" "map_prod (\<lambda>k. k) canon"] by simp
qed simp_all

lemma canon_wf: "wf_json v \<Longrightarrow> wf_json (canon v)"
proof (induction v)
  case (JNumber n)
  then obtain c where "canonicalJSONNumber n = Some c" "scan_number c = Some (c, [])"
    using canonical_number_exists [of n] by auto
  then show ?case
    by simp
next
  case (JObject kvs)
  then show ?case
    by fastforce
qed auto

lemma canon_nests: "nests v d \<Longrightarrow> nests (canon v) d"
proof (induction v arbitrary: d)
  case (JObject kvs)
  then show ?case
    by fastforce
qed auto

lemma canon_value: "go_value v \<Longrightarrow> go_value (canon v)"
proof (induction v)
  case (JObject kvs)
  moreover have "sorted_map (map (map_prod (\<lambda>k. k) canon) kvs) = sorted_map kvs"
    by (simp add: sorted_map_def comp_def)
  ultimately show ?case
    by fastforce
qed auto

lemma canon_canon: "wf_json v \<Longrightarrow> canon (canon v) = canon v"
proof (induction v)
  case (JNumber n)
  then obtain c where "canonicalJSONNumber n = Some c"
    using canonical_number_exists [of n] by auto
  then show ?case
    using canonical_idempotent [of n c] by simp
next
  case (JObject kvs)
  then show ?case
    by fastforce
qed auto

section \<open>Meaning\<close>

datatype meaning =
    MNull
  | MBool bool
  | MNumber rat
  | MString string
  | MArray "meaning list"
  | MObject "(string \<times> meaning) list"

primrec meaning_of :: "json \<Rightarrow> meaning" where
  "meaning_of JNull = MNull"
| "meaning_of (JBool b) = MBool b"
| "meaning_of (JNumber n) = MNumber (the (number_value n))"
| "meaning_of (JString s) = MString s"
| "meaning_of (JArray xs) = MArray (map meaning_of xs)"
| "meaning_of (JObject kvs) = MObject (map (map_prod (\<lambda>k. k) meaning_of) kvs)"

lemma map_eq_iff_elementwise:
  assumes "\<forall>x\<in>set xs. \<forall>y\<in>set ys. f x = f y \<longleftrightarrow> g x = g y"
  shows "map f xs = map f ys \<longleftrightarrow> map g xs = map g ys"
  using assms
proof (induction xs arbitrary: ys)
  case (Cons x xs)
  then show ?case
    by (cases ys) auto
qed simp

lemma canon_number_iff:
  assumes "wf_json (JNumber n)" "wf_json (JNumber m)"
  shows "canon (JNumber n) = canon (JNumber m) \<longleftrightarrow> meaning_of (JNumber n) = meaning_of (JNumber m)"
proof -
  obtain c d where cd: "canonicalJSONNumber n = Some c" "canonicalJSONNumber m = Some d"
    using assms canonical_number_exists by (metis wf_json.simps(3))
  then obtain p q where "number_value n = Some p" "number_value m = Some q"
    using canonical_value(2) by fastforce
  then show ?thesis
    using canonical_iff [OF cd] by (simp add: cd)
qed

lemma canon_iff_meaning: "wf_json v \<Longrightarrow> wf_json w \<Longrightarrow> canon v = canon w \<longleftrightarrow> meaning_of v = meaning_of w"
proof (induction v arbitrary: w)
  case (JNumber n)
  then show ?case
    using canon_number_iff by (cases w) auto
next
  case (JArray xs)
  show ?case
  proof (cases w)
    case (JArray ys)
    then show ?thesis
      using JArray.prems JArray.IH map_eq_iff_elementwise [of xs ys canon meaning_of] by simp
  qed auto
next
  case (JObject kvs)
  show ?case
  proof (cases w)
    case (JObject kvs')
    have "canon a = canon b \<longleftrightarrow> meaning_of a = meaning_of b" if "(k, a) \<in> set kvs" "(k', b) \<in> set kvs'" for k a k' b
      using JObject.IH [of "(k, a)" a b] JObject.prems that JObject by fastforce
    then show ?thesis
      using map_eq_iff_elementwise [of kvs kvs' "map_prod (\<lambda>k. k) canon" "map_prod (\<lambda>k. k) meaning_of"]
      by (fastforce simp: JObject)
  qed auto
qed (case_tac w; simp)+

section \<open>Canonical documents\<close>

lemma decodeAny_facts:
  assumes "decodeAny s = Inr v"
  shows "wf_json v" "nests v 0" "go_value v" "s \<noteq> []"
proof -
  obtain w where w: "parseJSON s = Inr w" "v = go_any w"
    using assms by (auto simp: decodeAny_def split: sum.splits)
  then obtain r where "parse_prefix s = Some (w, r)"
    by (auto simp: parseJSON_def split: option.splits if_splits)
  then have "wf_json w \<and> nests w 0"
    unfolding parse_prefix_def by (rule decoded_wf)
  then show "wf_json v" "nests v 0" "go_value v"
    by (simp_all add: w(2) go_any_wf go_any_nests go_any_value)
  show "s \<noteq> []"
    using \<open>parse_prefix s = Some (w, r)\<close> by (auto simp: parse_prefix_def parse_fuel_def jvalue.simps skip_ws_def)
qed

lemma canonicalizeJSON_decoded:
  assumes "decodeAny s = Inr v"
  shows "canonicalizeJSON s = Inr (marshal (canon v))"
  using decodeAny_facts [OF assms] by (simp add: canonicalizeJSON_def assms normalizeNumbers_canon)

lemma decodeAny_marshal:
  assumes "wf_json v" "nests v 0" "go_value v"
  shows "decodeAny (marshal v) = Inr v"
  using assms by (simp add: decodeAny_def parse_marshal go_any_fixed)

lemma canonicalizeJSON_fixed:
  assumes "decodeAny s = Inr v"
  shows "canonicalizeJSON (marshal (canon v)) = Inr (marshal (canon v))"
proof -
  note v = decodeAny_facts [OF assms]
  have "decodeAny (marshal (canon v)) = Inr (canon v)"
    using v by (intro decodeAny_marshal canon_wf canon_nests canon_value)
  then show ?thesis
    using canonicalizeJSON_decoded [of "marshal (canon v)" "canon v"] v(1) by (simp add: canon_canon)
qed

text \<open>
  C22. Canonical JSON is a normal form: canonicalising a document always succeeds once it parses,
  canonicalising again changes nothing, and two documents have the same canonical bytes exactly if
  they mean the same, as trees of maps, lists, strings and rational numbers.
\<close>

theorem canonical_json_is_a_normal_form:
  assumes "decodeAny a = Inr v" "decodeAny b = Inr w"
  shows "\<exists>c d. canonicalizeJSON a = Inr c \<and> canonicalizeJSON b = Inr d
    \<and> canonicalizeJSON c = Inr c
    \<and> (c = d \<longleftrightarrow> meaning_of v = meaning_of w)"
proof -
  note v = decodeAny_facts [OF assms(1)] and w = decodeAny_facts [OF assms(2)]
  have "marshal (canon v) = marshal (canon w) \<longleftrightarrow> canon v = canon w"
    using v w by (intro marshal_inject canon_wf canon_nests)
  then have "marshal (canon v) = marshal (canon w) \<longleftrightarrow> meaning_of v = meaning_of w"
    using canon_iff_meaning [OF v(1) w(1)] by simp
  then show ?thesis
    using canonicalizeJSON_decoded [OF assms(1)] canonicalizeJSON_decoded [OF assms(2)]
      canonicalizeJSON_fixed [OF assms(1)] by blast
qed

definition spelled_one :: string where
  "spelled_one = ''{'' @ [CHR 0x22] @ ''b'' @ [CHR 0x22] @ '': 1.50e1 , '' @ [CHR 0x22] @ ''a'' @ [CHR 0x22] @ '':[null,true]}''"

definition spelled_two :: string where
  "spelled_two = ''{'' @ [CHR 0x22] @ ''a'' @ [CHR 0x22] @ '':[null,true],'' @ [CHR 0x22] @ ''b'' @ [CHR 0x22] @ '':15}''"

theorem canonical_json_is_a_normal_form_witness:
  "spelled_one \<noteq> spelled_two \<and> canonicalizeJSON spelled_one = canonicalizeJSON spelled_two"
proof -
  define v w where "v = the (map_option go_any (map_option fst (parse_prefix spelled_one)))"
    and "w = the (map_option go_any (map_option fst (parse_prefix spelled_two)))"
  have "decodeAny spelled_one = Inr v" "decodeAny spelled_two = Inr w" "meaning_of v = meaning_of w"
    unfolding v_def w_def by code_simp+
  moreover have "spelled_one \<noteq> spelled_two"
    by code_simp
  ultimately show ?thesis
    using canonical_json_is_a_normal_form by fastforce
qed

end
