(* ===== verification/RequestIdentity.thy ===== *)
theory RequestIdentity
  imports CanonicalJson
begin

text \<open>
  What the request digest of \<^verbatim>\<open>digest.go\<close> identifies.  The hashed text determines, and is determined
  by, the meaning of the arguments and every bound field: the digest can only confuse two different
  requests by a hash collision.
\<close>

section \<open>Printed integers\<close>

lemma show_nat_head: "0 < n \<Longrightarrow> hd (show_nat n) \<noteq> CHR ''0''"
proof (induction n rule: show_nat.induct)
  case (1 n)
  show ?case
  proof (cases "n < 10")
    case True
    then have "show_nat n = [digit_char n]"
      by (simp add: show_nat.simps [of n])
    moreover have "digit_char n \<noteq> CHR ''0''"
    proof
      assume "digit_char n = CHR ''0''"
      then have "b2n (digit_char n) = 48"
        by (simp add: b2n_def)
      then show False
        using digit_char_digit [of n] True "1.prems" by simp
    qed
    ultimately show ?thesis
      by simp
  next
    case False
    then have "show_nat n = show_nat (n div 10) @ [digit_char (n mod 10)]" "show_nat (n div 10) \<noteq> []"
      using show_nat_digits [of "n div 10"] by (simp_all add: show_nat.simps [of n])
    moreover have "hd (show_nat (n div 10)) \<noteq> CHR ''0''"
      using "1.IH" False by simp
    ultimately show ?thesis
      by simp
  qed
qed

lemma show_nat_canonical: "0 \<le> n \<Longrightarrow> \<not> (1 < length (show_nat n) \<and> hd (show_nat n) = CHR ''0'')"
  using show_nat_head [of n] by (cases "n = 0") (auto simp: show_nat.simps [of 0])

lemma show_int_inject [simp]: "show_int x = show_int y \<longleftrightarrow> x = y"
  using take_exp_show_int by (metis fst_conv option.inject)

lemma show_int_literal: "wf_json (JNumber (show_int x))"
proof -
  have "number_parts ((if x < 0 then ''-'' else []) @ show_nat \<bar>x\<bar>) \<noteq> None"
  proof -
    have ds: "list_all is_digit (show_nat \<bar>x\<bar>)" "show_nat \<bar>x\<bar> \<noteq> []"
      using show_nat_digits [of "\<bar>x\<bar>"] by auto
    then obtain d t where "show_nat \<bar>x\<bar> = d # t" "is_digit d"
      by (cases "show_nat \<bar>x\<bar>") auto
    then have "take_sign ((if x < 0 then ''-'' else []) @ show_nat \<bar>x\<bar>) = (x < 0, show_nat \<bar>x\<bar>)"
      using digit_not_sign [of d] by (simp add: take_sign_def)
    then show ?thesis
      using ds show_nat_canonical [of "\<bar>x\<bar>"]
      by (simp add: number_parts_def Let_def list_all_takeWhile take_frac_def take_exp_def)
  qed
  moreover have "show_int x = (if x < 0 then ''-'' else []) @ show_nat \<bar>x\<bar>"
    by (simp add: show_int_def)
  ultimately show ?thesis
    using number_grammar [of "show_int x"] by simp
qed

section \<open>The hashed text\<close>

lemma marshal_inject_at:
  assumes "wf_json v" "nests v d" "wf_json w" "nests w d" "marshal v = marshal w"
  shows "v = w"
proof -
  have "jvalue (length (marshal v)) d (marshal v @ []) = Some (v, [])"
       "jvalue (length (marshal w)) d (marshal w @ []) = Some (w, [])"
    using reads_back [of v] reads_back [of w] assms(1-4) unfolding reads_back_def by (meson le_refl value_ends(4))+
  then show ?thesis
    using assms(5) by simp
qed

lemma map_of_obj_of: "distinct (map fst kvs) \<Longrightarrow> map_of (obj_of kvs) = map_of kvs"
proof -
  have "map_of (fold (\<lambda>(k, v) m. obj_put k v m) kvs m) = map_of m ++ map_of (rev kvs)" for m
    by (induction kvs arbitrary: m) (auto simp: map_add_def fun_eq_iff split: option.splits)
  then show "distinct (map fst kvs) \<Longrightarrow> map_of (obj_of kvs) = map_of kvs"
    by (simp add: obj_of_def map_of_inject_set rev_map [symmetric])
qed

text \<open>The texts a request binds are valid UTF-8; JSON encoding would replace anything else.\<close>

definition bound_texts :: "digest_input \<Rightarrow> string list" where
  "bound_texts i =
    [di_Principal i, di_Capability i, di_GrantID i, di_ExecutionClass i, di_AuthorityDigest i,
     di_AssuranceProfile i, di_ExecutionRoute i, di_DescriptorDigest i]"

lemmas canonical_input_simps = canonical_input_def bind_if_def

lemma map_of_bind_if: "map_of (bind_if b k v @ r) k' = (if k = k' \<and> b then Some v else map_of r k')"
    "map_of (bind_if b k v) k' = (if k = k' \<and> b then Some v else None)"
  by (simp_all add: bind_if_def)

lemma set_bind_if: "kv \<in> set (bind_if b k v) \<longleftrightarrow> b \<and> kv = (k, v)"
  by (auto simp: bind_if_def)

lemma in_keys_bind_if: "k' \<in> fst ` set (bind_if b k v) \<longleftrightarrow> b \<and> k' = k"
  by (auto simp: bind_if_def)

lemma distinct_bind_if:
  "distinct (map fst (bind_if b k v) @ ks) \<longleftrightarrow> distinct ks \<and> (b \<longrightarrow> k \<notin> set ks)"
  "distinct (map fst (bind_if b k v))"
  by (auto simp: bind_if_def)

lemma canonical_input_distinct: "distinct (map fst (canonical_input i args))"
  unfolding canonical_input_def map_append distinct_bind_if
  by (simp add: distinct_bind_if in_keys_bind_if del: distinct_append)

lemma valid_keys:
  "list_all valid_utf8
    [''protocol_version'', ''principal'', ''capability'', ''arguments'', ''grant_id'', ''execution_class'',
     ''authority_generation'', ''authority_digest'', ''assurance_profile'', ''execution_route'',
     ''descriptor_version'', ''descriptor_digest'']"
  by (simp add: valid_utf8_ascii b2n_def)

lemma canonical_input_keys: "kv \<in> set (canonical_input i args) \<Longrightarrow> valid_utf8 (fst kv)"
  using valid_keys by (auto simp: canonical_input_def set_bind_if)

lemma canonical_input_wf:
  assumes "wf_json args" "list_all valid_utf8 (bound_texts i)"
  shows "wf_json (JObject (obj_of (canonical_input i args)))"
proof -
  have "wf_json (snd kv)" if "kv \<in> set (canonical_input i args)" for kv
    using that assms by (auto simp: canonical_input_def set_bind_if bound_texts_def show_int_literal simp del: wf_json.simps(3))
  then show ?thesis
    using canonical_input_keys set_obj_of [of "canonical_input i args"] by fastforce
qed

lemma canonical_input_nests:
  assumes "nests args 0"
  shows "nests (JObject (obj_of (canonical_input i args))) (- 1)"
proof -
  have "nests (snd kv) 0" if "kv \<in> set (canonical_input i args)" for kv
    using that assms by (auto simp: canonical_input_def set_bind_if)
  then show ?thesis
    using set_obj_of [of "canonical_input i args"] by (auto simp: maxNestingDepth_def)
qed

lemma canonical_input_determined:
  assumes "obj_of (canonical_input i a) = obj_of (canonical_input j b)"
  shows "a = b \<and> i\<lparr>di_Arguments := JNull\<rparr> = j\<lparr>di_Arguments := JNull\<rparr>"
proof -
  have same: "map_of (canonical_input i a) k = map_of (canonical_input j b) k" for k
    using assms map_of_obj_of canonical_input_distinct by metis
  have "a = b"
    using same [of "''arguments''"] by (simp add: canonical_input_simps)
  moreover have "di_ProtocolVersion i = di_ProtocolVersion j"
    using same [of "''protocol_version''"] by (simp add: canonical_input_def map_of_bind_if del: map_of_append split: if_splits)
  moreover have "di_Principal i = di_Principal j"
    using same [of "''principal''"] by (simp add: canonical_input_def map_of_bind_if del: map_of_append split: if_splits)
  moreover have "di_Capability i = di_Capability j"
    using same [of "''capability''"] by (simp add: canonical_input_def map_of_bind_if del: map_of_append split: if_splits)
  moreover have "di_GrantID i = di_GrantID j"
    using same [of "''grant_id''"] by (simp add: canonical_input_def map_of_bind_if del: map_of_append split: if_splits)
  moreover have "di_ExecutionClass i = di_ExecutionClass j"
    using same [of "''execution_class''"] by (simp add: canonical_input_def map_of_bind_if del: map_of_append split: if_splits)
  moreover have "di_AuthorityGeneration i = di_AuthorityGeneration j"
    using same [of "''authority_generation''"] by (simp add: canonical_input_def map_of_bind_if del: map_of_append split: if_splits)
  moreover have "di_AuthorityDigest i = di_AuthorityDigest j"
    using same [of "''authority_digest''"] by (simp add: canonical_input_def map_of_bind_if del: map_of_append split: if_splits)
  moreover have "di_AssuranceProfile i = di_AssuranceProfile j"
    using same [of "''assurance_profile''"] by (simp add: canonical_input_def map_of_bind_if del: map_of_append split: if_splits)
  moreover have "di_ExecutionRoute i = di_ExecutionRoute j"
    using same [of "''execution_route''"] by (simp add: canonical_input_def map_of_bind_if del: map_of_append split: if_splits)
  moreover have "di_DescriptorVersion i = di_DescriptorVersion j"
    using same [of "''descriptor_version''"] by (simp add: canonical_input_def map_of_bind_if del: map_of_append split: if_splits)
  moreover have "di_DescriptorDigest i = di_DescriptorDigest j"
    using same [of "''descriptor_digest''"] by (simp add: canonical_input_def map_of_bind_if del: map_of_append split: if_splits)
  ultimately show ?thesis
    by simp
qed

lemma decodeMap_decoded: "decodeMap a = Inr v \<Longrightarrow> decodeAny a = Inr v"
  by (auto simp: decodeMap_def split: sum.splits json.splits)

lemma canonical_input_arguments [simp]: "canonical_input (i\<lparr>di_Arguments := x\<rparr>) a = canonical_input i a"
  by (simp add: canonical_input_simps)

lemma computeDigestFromRaw_text:
  assumes "decodeMap a = Inr v"
  shows "computeDigestFromRaw C i a
    = Inr (sha256_hex C (marshal (JObject (obj_of (canonical_input i (canon v))))))"
proof -
  have "wf_json v"
    using decodeAny_facts(1) decodeMap_decoded [OF assms] by blast
  then show ?thesis
    by (simp add: computeDigestFromRaw_def assms normalizeNumbers_canon ComputeDigest_def canon_wf canon_canon CanonicalJSON_def)
qed

text \<open>
  C23. The request digest identifies the request: for arguments that decode, the digest is the
  SHA-256 of a text, and two such texts are equal exactly if the arguments mean the same and every
  bound field agrees: protocol version, principal, capability, grant, class, authority generation and
  digest, assurance profile, route, descriptor version and digest.  Spelling the arguments
  differently keeps the digest, and only a hash collision can give different requests the same one.
\<close>

theorem request_digest_identifies_the_request:
  assumes "decodeMap a = Inr v" "decodeMap b = Inr w"
    and "list_all valid_utf8 (bound_texts i)" "list_all valid_utf8 (bound_texts j)"
  shows "\<exists>p q. computeDigestFromRaw C i a = Inr (sha256_hex C p)
    \<and> computeDigestFromRaw C j b = Inr (sha256_hex C q)
    \<and> (p = q \<longleftrightarrow> meaning_of v = meaning_of w \<and> i\<lparr>di_Arguments := JNull\<rparr> = j\<lparr>di_Arguments := JNull\<rparr>)"
proof -
  let ?t = "\<lambda>i v. JObject (obj_of (canonical_input i (canon v)))"
  note v = decodeAny_facts [OF decodeMap_decoded [OF assms(1)]] and w = decodeAny_facts [OF decodeMap_decoded [OF assms(2)]]
  have "marshal (?t i v) = marshal (?t j w) \<longleftrightarrow> ?t i v = ?t j w"
    using marshal_inject_at [of "?t i v" "- 1" "?t j w"]
      canonical_input_wf [OF canon_wf [OF v(1)] assms(3)] canonical_input_wf [OF canon_wf [OF w(1)] assms(4)]
      canonical_input_nests [OF canon_nests [OF v(2)]] canonical_input_nests [OF canon_nests [OF w(2)]] by metis
  also have "\<dots> \<longleftrightarrow> canon v = canon w \<and> i\<lparr>di_Arguments := JNull\<rparr> = j\<lparr>di_Arguments := JNull\<rparr>"
    using canonical_input_determined [of i "canon v" j "canon w"]
      canonical_input_arguments [of JNull i] canonical_input_arguments [of JNull j] by (metis json.inject(5))
  also have "\<dots> \<longleftrightarrow> meaning_of v = meaning_of w \<and> i\<lparr>di_Arguments := JNull\<rparr> = j\<lparr>di_Arguments := JNull\<rparr>"
    using canon_iff_meaning [OF v(1) w(1)] by simp
  finally show ?thesis
    using computeDigestFromRaw_text [OF assms(1), of C i] computeDigestFromRaw_text [OF assms(2), of C j] by blast
qed

definition sample_input :: "int \<Rightarrow> digest_input" where
  "sample_input generation =
    \<lparr> di_ProtocolVersion = 1, di_Principal = ''alice'', di_Capability = ''repo.push'', di_Arguments = JNull,
      di_GrantID = ''g-1'', di_ExecutionClass = ''CRITICAL'', di_AuthorityGeneration = generation,
      di_AuthorityDigest = [], di_AssuranceProfile = ''HIGH_ASSURANCE'', di_ExecutionRoute = ''CRABEDENCE'',
      di_DescriptorVersion = 1, di_DescriptorDigest = [] \<rparr>"

theorem request_digest_identifies_the_request_witness:
  "\<forall>C. \<exists>p r. computeDigestFromRaw C (sample_input 1) spelled_one = Inr (sha256_hex C p)
    \<and> computeDigestFromRaw C (sample_input 1) spelled_two = Inr (sha256_hex C p)
    \<and> computeDigestFromRaw C (sample_input 2) spelled_two = Inr (sha256_hex C r) \<and> p \<noteq> r"
proof
  fix C
  define v w where "v = the (map_option go_any (map_option fst (parse_prefix spelled_one)))"
    and "w = the (map_option go_any (map_option fst (parse_prefix spelled_two)))"
  have ev: "decodeMap spelled_one = Inr v" "decodeMap spelled_two = Inr w" "meaning_of v = meaning_of w"
    unfolding v_def w_def by code_simp+
  have "list_all valid_utf8 (bound_texts (sample_input n))" for n
    by (simp add: sample_input_def bound_texts_def valid_utf8_ascii b2n_def)
  then show "\<exists>p r. computeDigestFromRaw C (sample_input 1) spelled_one = Inr (sha256_hex C p)
    \<and> computeDigestFromRaw C (sample_input 1) spelled_two = Inr (sha256_hex C p)
    \<and> computeDigestFromRaw C (sample_input 2) spelled_two = Inr (sha256_hex C r) \<and> p \<noteq> r"
    using request_digest_identifies_the_request [OF ev(1,2), of "sample_input 1" "sample_input 1" C]
      request_digest_identifies_the_request [OF ev(1,2), of "sample_input 1" "sample_input 2" C] ev(3)
    by (auto simp: sample_input_def)
qed

end
