(* ===== verification/EvidenceRoundTrip.thy ===== *)
theory EvidenceRoundTrip
  imports RequestIdentity Evidence
begin

text \<open>
  Signed receipts: base64 and the receipt encoding read back what was written, so that a receipt made
  by \<open>Sign\<close> passes \<open>VerifyReceipt\<close> against its binding, and the signed bytes determine every signed
  field.
\<close>

section \<open>Base64\<close>

lemma b64_value_char: "0 \<le> n \<Longrightarrow> n < 64 \<Longrightarrow> b64_value (b64_char n) = Some n"
  by (auto simp: b64_value_def b64_char_def in_range_def b2n_def n2b_def of_char_of split: if_splits)

text \<open>The characters base64 text is made of.\<close>

definition b64_plain :: "char \<Rightarrow> bool" where
  "b64_plain c \<longleftrightarrow> b2n c \<noteq> 10 \<and> b2n c \<noteq> 13 \<and> b2n c < 128"

lemma b64_value_plain: "b64_value c = Some n \<Longrightarrow> c \<noteq> CHR ''='' \<and> b64_plain c"
  by (auto simp: b64_value_def b64_plain_def in_range_def b2n_def split: if_splits)

lemma b64_char_plain: "0 \<le> n \<Longrightarrow> n < 64 \<Longrightarrow> b64_char n \<noteq> CHR ''='' \<and> b64_plain (b64_char n)"
  using b64_value_char b64_value_plain by blast

text \<open>The sextets of one, two and three bytes, and the bytes read back from them.\<close>

lemma b64_first:
  assumes "0 \<le> a" "a < 256"
  shows "0 \<le> a div 4" "a div 4 < 64" "0 \<le> a mod 4 * 16" "a mod 4 * 16 < (64::int)"
    "a div 4 * 4 + a mod 4 * 16 div 16 = a"
  using assms by simp_all

lemma b64_split:
  assumes "0 \<le> b" "b < (256::int)"
  shows "0 \<le> b div 16" "b div 16 < 16" "0 \<le> b mod 16" "b mod 16 < 16" "b div 16 * 16 + b mod 16 = b"
    "0 \<le> b div 64" "b div 64 < 4" "0 \<le> b mod 64" "b mod 64 < 64" "b div 64 * 64 + b mod 64 = b"
  using assms by simp_all

lemma b64_second:
  assumes "0 \<le> b" "b < 256"
  shows "0 \<le> a mod 4 * 16 + b div 16" "a mod 4 * 16 + b div 16 < (64::int)"
    "(a mod 4 * 16 + b div 16) div 16 = a mod 4"
    "((a mod 4 * 16 + b div 16) * 16 + b mod 16) mod 256 = b"
proof -
  have a: "0 \<le> a mod 4" "a mod 4 < 4"
    by simp_all
  note b = b64_split [OF assms]
  show "0 \<le> a mod 4 * 16 + b div 16" "a mod 4 * 16 + b div 16 < 64"
    using a b by linarith+
  show "(a mod 4 * 16 + b div 16) div 16 = a mod 4"
    using b(1,2) by simp
  have "(a mod 4 * 16 + b div 16) * 16 + b mod 16 = a mod 4 * 256 + b"
    using b(5) by (simp add: algebra_simps)
  then show "((a mod 4 * 16 + b div 16) * 16 + b mod 16) mod 256 = b"
    using assms by simp
qed

lemma b64_third:
  assumes "0 \<le> c" "c < 256"
  shows "0 \<le> b mod 16 * 4 + c div 64" "b mod 16 * 4 + c div 64 < (64::int)"
    "(b mod 16 * 4 + c div 64) div 4 = b mod 16"
    "((b mod 16 * 4 + c div 64) * 64 + c mod 64) mod 256 = c"
proof -
  have b: "0 \<le> b mod 16" "b mod 16 < 16"
    by simp_all
  note c = b64_split [OF assms]
  show "0 \<le> b mod 16 * 4 + c div 64" "b mod 16 * 4 + c div 64 < 64"
    using b c by linarith+
  show "(b mod 16 * 4 + c div 64) div 4 = b mod 16"
    using c(6,7) by simp
  have "(b mod 16 * 4 + c div 64) * 64 + c mod 64 = b mod 16 * 256 + c"
    using c(10) by (simp add: algebra_simps)
  then show "((b mod 16 * 4 + c div 64) * 64 + c mod 64) mod 256 = c"
    using assms by simp
qed

lemma n2b_mod: "n mod 256 = b2n c \<Longrightarrow> n2b n = c"
  by (metis b2n_inject b2n_n2b)

lemma b64_quads_full:
  assumes "b64_value p = Some x" "b64_value q = Some y" "b64_value r = Some z" "b64_value s = Some w"
  shows "b64_quads (p # q # r # s # rest)
    = map_option (append [n2b (x * 4 + y div 16), n2b (y * 16 + z div 4), n2b (z * 64 + w)]) (b64_quads rest)"
  using assms b64_value_plain [OF assms(4)] by simp

lemma b64_quads_padded:
  assumes "b64_value p = Some x" "b64_value q = Some y"
  shows "b64_quads [p, q, CHR ''='', CHR ''=''] = Some [n2b (x * 4 + y div 16)]"
    and "b64_value r = Some z \<Longrightarrow>
      b64_quads [p, q, r, CHR ''=''] = Some [n2b (x * 4 + y div 16), n2b (y * 16 + z div 4)]"
  using assms b64_value_plain [of r] by simp_all

lemma b64_third_padded: "0 \<le> b mod 16 * 4" "b mod 16 * 4 < (64::int)" "b mod 16 * 4 div 4 = b mod 16"
  using b64_third [of 0 b] by simp_all

lemma b64_quads_encode: "b64_quads (b64_encode xs) = Some xs"
proof (induction xs rule: b64_encode.induct)
  case (2 a)
  note a = b64_first [OF b2n_range [of a]]
  have "n2b (b2n a div 4 * 4 + b2n a mod 4 * 16 div 16) = a"
    by (rule n2b_mod) (simp only: a(5), simp)
  then show ?case
    by (simp only: b64_encode.simps b64_quads_padded [OF b64_value_char [OF a(1,2)] b64_value_char [OF a(3,4)]])
next
  case (3 a b)
  note a = b64_first [OF b2n_range [of a]] and b = b64_second [OF b2n_range [of b], of "b2n a"]
  have "n2b (b2n a div 4 * 4 + (b2n a mod 4 * 16 + b2n b div 16) div 16) = a"
    by (rule n2b_mod) (simp add: b(3))
  moreover have "n2b ((b2n a mod 4 * 16 + b2n b div 16) * 16 + b2n b mod 16 * 4 div 4) = b"
    by (rule n2b_mod) (simp only: b64_third_padded b(4))
  ultimately show ?case
    by (simp only: b64_encode.simps b64_quads_padded(2) [OF b64_value_char [OF a(1,2)] b64_value_char [OF b(1,2)]
      b64_value_char [OF b64_third_padded(1,2)]])
next
  case (4 a b c rest)
  note a = b64_first [OF b2n_range [of a]] and b = b64_second [OF b2n_range [of b], of "b2n a"]
    and c = b64_third [OF b2n_range [of c], of "b2n b"]
  have "n2b (b2n a div 4 * 4 + (b2n a mod 4 * 16 + b2n b div 16) div 16) = a"
    by (rule n2b_mod) (simp add: b(3))
  moreover have "n2b ((b2n a mod 4 * 16 + b2n b div 16) * 16 + (b2n b mod 16 * 4 + b2n c div 64) div 4) = b"
    by (rule n2b_mod) (simp only: c(3) b(4))
  moreover have "n2b ((b2n b mod 16 * 4 + b2n c div 64) * 64 + b2n c mod 64) = c"
    by (rule n2b_mod) (rule c(4))
  moreover have "0 \<le> b2n c mod 64" "b2n c mod 64 < 64"
    by simp_all
  ultimately show ?case
    unfolding b64_encode.simps append_Cons append_Nil
    by (simp only: 4 b64_quads_full [OF b64_value_char [OF a(1,2)] b64_value_char [OF b(1,2)]
      b64_value_char [OF c(1,2)] b64_value_char] option.map append_Cons append_Nil)
qed simp

lemma b64_sextets_plain:
  "b64_plain (b64_char (b2n a div 4))" "b64_plain (b64_char (b2n a mod 4 * 16))"
  "b64_plain (b64_char (b2n a mod 4 * 16 + b2n b div 16))" "b64_plain (b64_char (b2n b mod 16 * 4))"
  "b64_plain (b64_char (b2n b mod 16 * 4 + b2n c div 64))" "b64_plain (b64_char (b2n c mod 64))"
proof -
  note plain = b64_char_plain [THEN conjunct2]
  note a = b64_first [OF b2n_range [of a]] and b = b64_second [OF b2n_range [of b], of "b2n a"]
    and c = b64_third [OF b2n_range [of c], of "b2n b"] b64_split [OF b2n_range [of c]]
  show "b64_plain (b64_char (b2n a div 4))" "b64_plain (b64_char (b2n a mod 4 * 16))"
    by (rule plain [OF a(1,2)], rule plain [OF a(3,4)])
  show "b64_plain (b64_char (b2n a mod 4 * 16 + b2n b div 16))" "b64_plain (b64_char (b2n b mod 16 * 4))"
    by (rule plain [OF b(1,2)], rule plain [OF b64_third_padded(1,2)])
  show "b64_plain (b64_char (b2n b mod 16 * 4 + b2n c div 64))" "b64_plain (b64_char (b2n c mod 64))"
    by (rule plain [OF c(1,2)], rule plain [OF c(12,13)])
qed

lemma b64_encode_plain: "list_all b64_plain (b64_encode xs)"
  by (induction xs rule: b64_encode.induct)
    (simp_all only: b64_encode.simps append_Cons append_Nil list.pred_inject b64_sextets_plain simp_thms,
      simp_all add: b64_plain_def b2n_def)

lemma b64_round_trip: "b64_decode (b64_encode xs) = Some xs"
proof -
  have "filter (\<lambda>c. b2n c \<noteq> 10 \<and> b2n c \<noteq> 13) (b64_encode xs) = b64_encode xs"
    using b64_encode_plain [of xs] by (induction "b64_encode xs") (auto simp: b64_plain_def filter_id_conv list_all_iff)
  then show ?thesis
    by (simp add: b64_decode_def b64_quads_encode)
qed

section \<open>The encoded receipt\<close>

definition receipt_members :: "receipt_v3 \<Rightarrow> (string \<times> json) list" where
  "receipt_members r =
    [(''schema_version'', JNumber (show_int (rv3_SchemaVersion r))),
     (''receipt_type'', JString (rv3_ReceiptType r)),
     (''execution_id'', JString (rv3_ExecutionID r)),
     (''capability'', JString (rv3_Capability r)),
     (''principal'', JString (rv3_Principal r)),
     (''request_digest'', JString (rv3_RequestDigest r)),
     (''provider_id'', JString (rv3_ProviderID r)),
     (''provider_run_id'', JString (rv3_ProviderRunID r)),
     (''outcome'', JString (rv3_Outcome r)),
     (''evidence_sha256'', JString (rv3_EvidenceSHA256 r)),
     (''issued_at'', JString (rv3_IssuedAt r)),
     (''public_key'', JString (rv3_PublicKey r)),
     (''signer'', JString (rv3_Signer r)),
     (''signature'', JString (rv3_Signature r))]"

lemma receipt_json_marshal: "receipt_json r = marshal (JObject (receipt_members r))"
  by (simp add: receipt_json_def receipt_members_def)

definition receipt_texts :: "receipt_v3 \<Rightarrow> string list" where
  "receipt_texts r = rv3_ReceiptType r # signing_values r @ [rv3_Signature r]"

lemma receipt_keys_valid:
  "list_all valid_utf8
    [''schema_version'', ''receipt_type'', ''execution_id'', ''capability'', ''principal'', ''request_digest'',
     ''provider_id'', ''provider_run_id'', ''outcome'', ''evidence_sha256'', ''issued_at'', ''public_key'',
     ''signer'', ''signature'']"
  by (simp add: valid_utf8_ascii b2n_def)

lemma receipt_parses:
  assumes "list_all valid_utf8 (receipt_texts r)"
  shows "parseJSON (receipt_json r) = Inr (JObject (receipt_members r))"
proof -
  have "wf_json (JObject (receipt_members r))"
    using assms receipt_keys_valid show_int_literal [of "rv3_SchemaVersion r"]
    by (simp add: receipt_members_def receipt_texts_def signing_values_def)
  moreover have "nests (JObject (receipt_members r)) 0"
    by (simp add: receipt_members_def maxNestingDepth_def)
  ultimately show ?thesis
    by (simp only: receipt_json_marshal parse_marshal)
qed

text \<open>Field names up to case folding.\<close>

lemma folded_names:
  "fold_name ''schema_version'' = [83, 67, 72, 69, 77, 65, 95, 86, 69, 82, 83, 73, 79, 78]"
  "fold_name ''receipt_type'' = [82, 69, 67, 69, 73, 80, 84, 95, 84, 89, 80, 69]"
  "fold_name ''execution_id'' = [69, 88, 69, 67, 85, 84, 73, 79, 78, 95, 73, 68]"
  "fold_name ''capability'' = [67, 65, 80, 65, 66, 73, 76, 73, 84, 89]"
  "fold_name ''principal'' = [80, 82, 73, 78, 67, 73, 80, 65, 76]"
  "fold_name ''request_digest'' = [82, 69, 81, 85, 69, 83, 84, 95, 68, 73, 71, 69, 83, 84]"
  "fold_name ''provider_id'' = [80, 82, 79, 86, 73, 68, 69, 82, 95, 73, 68]"
  "fold_name ''provider_run_id'' = [80, 82, 79, 86, 73, 68, 69, 82, 95, 82, 85, 78, 95, 73, 68]"
  "fold_name ''outcome'' = [79, 85, 84, 67, 79, 77, 69]"
  "fold_name ''evidence_sha256'' = [69, 86, 73, 68, 69, 78, 67, 69, 95, 83, 72, 65, 50, 53, 54]"
  "fold_name ''issued_at'' = [73, 83, 83, 85, 69, 68, 95, 65, 84]"
  "fold_name ''public_key'' = [80, 85, 66, 76, 73, 67, 95, 75, 69, 89]"
  "fold_name ''signer'' = [83, 73, 71, 78, 69, 82]"
  "fold_name ''signature'' = [83, 73, 71, 78, 65, 84, 85, 82, 69]"
  by code_simp+

lemma decode_string_member:
  "decode_member (''receipt_type'', JString v) r = Some (r\<lparr>rv3_ReceiptType := v\<rparr>)"
  "decode_member (''execution_id'', JString v) r = Some (r\<lparr>rv3_ExecutionID := v\<rparr>)"
  "decode_member (''capability'', JString v) r = Some (r\<lparr>rv3_Capability := v\<rparr>)"
  "decode_member (''principal'', JString v) r = Some (r\<lparr>rv3_Principal := v\<rparr>)"
  "decode_member (''request_digest'', JString v) r = Some (r\<lparr>rv3_RequestDigest := v\<rparr>)"
  "decode_member (''provider_id'', JString v) r = Some (r\<lparr>rv3_ProviderID := v\<rparr>)"
  "decode_member (''provider_run_id'', JString v) r = Some (r\<lparr>rv3_ProviderRunID := v\<rparr>)"
  "decode_member (''outcome'', JString v) r = Some (r\<lparr>rv3_Outcome := v\<rparr>)"
  "decode_member (''evidence_sha256'', JString v) r = Some (r\<lparr>rv3_EvidenceSHA256 := v\<rparr>)"
  "decode_member (''issued_at'', JString v) r = Some (r\<lparr>rv3_IssuedAt := v\<rparr>)"
  "decode_member (''public_key'', JString v) r = Some (r\<lparr>rv3_PublicKey := v\<rparr>)"
  "decode_member (''signer'', JString v) r = Some (r\<lparr>rv3_Signer := v\<rparr>)"
  "decode_member (''signature'', JString v) r = Some (r\<lparr>rv3_Signature := v\<rparr>)"
  by (simp_all add: decode_member_def receipt_string_fields_def folded_names)

lemma decode_version_member:
  "decode_member (''schema_version'', JNumber (show_int 3)) r = Some (r\<lparr>rv3_SchemaVersion := 3\<rparr>)"
proof -
  have "parse_int64 (show_int 3) = Some 3"
    by code_simp
  then show ?thesis
    by (simp add: decode_member_def)
qed

lemma decode_receipt_members:
  assumes "rv3_SchemaVersion r = 3"
  shows "decode_members (receipt_members r) = Some r"
  using assms by (cases r)
    (simp add: decode_members_def receipt_members_def decode_version_member decode_string_member empty_receipt_def)

lemma receipt_round_trip:
  assumes "rv3_SchemaVersion r = 3" "list_all valid_utf8 (receipt_texts r)" "int (length (receipt_json r)) \<le> 64 * 1024"
  shows "ParseReceipt (receipt_json r) = Inr r"
proof -
  have "receipt_json r \<noteq> []"
    by (simp add: receipt_json_def object_text_def)
  moreover have "\<not> hasDuplicateKeys (receipt_members r)"
    by (simp add: hasDuplicateKeys_def receipt_members_def)
  ultimately show ?thesis
    using assms by (simp add: ParseReceipt_def receipt_parses decode_receipt_members)
qed

section \<open>Signing and verifying\<close>

lemma valid_utf8_all_ascii: "list_all (\<lambda>c. b2n c < 128) s \<Longrightarrow> valid_utf8 s"
  by (induction s) (simp_all add: valid_utf8_ascii)

lemma hex_digit_range: "0 \<le> n \<Longrightarrow> n < 16 \<Longrightarrow> b2n (hex_digit n) < 128"
  by (auto simp: hex_digit_def)

lemma hexEncode_valid: "valid_utf8 (hexEncode bs)"
proof -
  have "list_all (\<lambda>c. b2n c < 128) (hexEncode bs)"
  proof (induction bs)
    case (Cons b bs)
    then show ?case
      using b64_split [OF b2n_range [of b]] by (simp add: hexEncode_def hex_digit_range)
  qed (simp add: hexEncode_def)
  then show ?thesis
    by (rule valid_utf8_all_ascii)
qed

lemma b64_encode_valid: "valid_utf8 (b64_encode bs)"
  using b64_encode_plain [of bs] by (intro valid_utf8_all_ascii) (auto simp: list_all_iff b64_plain_def)

lemma isHexDigest_valid: "isHexDigest s \<Longrightarrow> valid_utf8 s"
  by (intro valid_utf8_all_ascii) (auto simp: isHexDigest_def list_all_iff in_range_def)

lemma outcome_valid: "valid_utf8 OutcomeCompleted" "valid_utf8 OutcomeNoEffect" "valid_utf8 ReceiptType"
  by (simp_all add: OutcomeCompleted_def OutcomeNoEffect_def ReceiptType_def valid_utf8_ascii b2n_def)

definition binding_texts :: "binding \<Rightarrow> string list" where
  "binding_texts b =
    [bd_ExecutionID b, bd_Capability b, bd_Principal b, bd_RequestDigest b, bd_ProviderID b, bd_ProviderRunID b]"

text \<open>
  C24. Signing and verifying is a round trip: if \<open>Sign\<close> returns a receipt of at most 64 KiB for a
  binding whose texts are valid UTF-8, then \<open>VerifyReceipt\<close> accepts it against this binding under any
  set of trusted signers that holds the key's fingerprint, and against no other binding.  Of the
  signature scheme only that verification accepts what the key signed, and that signatures have 64
  bytes, is used.
\<close>

theorem signed_receipts_verify:
  assumes "Sign C pub sign issuedAt b = Inr data"
    and "\<And>m. ed25519_verify C pub m (sign m)" "\<And>m. length (sign m) = SignatureSize"
    and "list_all valid_utf8 (binding_texts b)" "valid_utf8 issuedAt" "int (length data) \<le> 64 * 1024"
    and "Fingerprint C pub \<in> set trustedSigners"
  shows "VerifyReceipt C data b' trustedSigners = (if b' = b then None else Some BindingMismatch)"
proof -
  let ?u = "unsigned_receipt C pub issuedAt b"
  let ?r = "?u\<lparr>rv3_Signature := b64_encode (sign (signingBytes ?u))\<rparr>"
  have u: "validateFields C ?u" and data: "data = receipt_json ?r"
    using assms(1) by (auto simp: Sign_def Let_def split: if_splits)
  have texts: "valid_utf8 (bd_Outcome b)" "valid_utf8 (bd_EvidenceSHA256 b)"
    using u outcome_valid by (auto simp: validateFields_def unsigned_receipt_def isHexDigest_valid split: if_splits)
  have "ParseReceipt data = Inr ?r"
    unfolding data
  proof (rule receipt_round_trip)
    show "list_all valid_utf8 (receipt_texts ?r)"
      using assms(4,5) texts outcome_valid by (simp add: receipt_texts_def signing_values_def unsigned_receipt_def
        binding_texts_def b64_encode_valid Fingerprint_def sha256_hex_def hexEncode_valid)
  qed (use assms(6) data in \<open>simp_all add: unsigned_receipt_def ReceiptV3SchemaVersion_def\<close>)
  moreover have "VerifySignature C ?r = None"
  proof -
    have signed: "signingBytes ?r = signingBytes ?u"
      by (simp add: signingBytes_def signing_values_def)
    have "b64_encode (sign (signingBytes ?u)) \<noteq> []"
      using b64_round_trip [of "sign (signingBytes ?u)"] assms(3) [of "signingBytes ?u"]
      by (auto simp: b64_decode_def SignatureSize_def)
    moreover have "validateFields C ?r"
      using u by (auto simp: validateFields_def b64_round_trip assms(3) split: option.splits)
    moreover have "rv3_PublicKey ?r = b64_encode pub"
      by (simp add: unsigned_receipt_def)
    ultimately show ?thesis
      using assms(2) by (simp add: VerifySignature_def signed b64_round_trip)
  qed
  moreover have "binding_of ?r = b" "rv3_Signer ?r = Fingerprint C pub"
    by (simp_all add: binding_of_def unsigned_receipt_def)
  ultimately show ?thesis
    using assms(7) by (auto simp: VerifyReceipt_def)
qed

text \<open>A toy signature scheme and hash that satisfy what the round trip uses.\<close>

definition toy_sign :: "bytes \<Rightarrow> bytes" where
  "toy_sign m = take 64 (m @ replicate 64 (CHR 0x00))"

definition toy_crypto :: crypto where
  "toy_crypto = \<lparr> sha256 = (\<lambda>m. take 32 (m @ replicate 32 (CHR 0x00))), ed25519_verify = (\<lambda>pub m s. s = toy_sign m) \<rparr>"

definition toy_key :: bytes where
  "toy_key = replicate 32 (CHR ''k'')"

definition toy_binding :: "string \<Rightarrow> binding" where
  "toy_binding run =
    \<lparr> bd_ExecutionID = ''exec-1'', bd_Capability = ''repo.push'', bd_Principal = ''alice'',
      bd_RequestDigest = ''sha256:d'', bd_ProviderID = ''github'', bd_ProviderRunID = run,
      bd_Outcome = ''COMPLETED'', bd_EvidenceSHA256 = replicate 64 (CHR ''a'') \<rparr>"

theorem signed_receipts_verify_witness:
  "\<exists>data. Sign toy_crypto toy_key toy_sign ''2026-01-02T03:04:05.678Z'' (toy_binding ''run-1'') = Inr data
    \<and> VerifyReceipt toy_crypto data (toy_binding ''run-1'') [Fingerprint toy_crypto toy_key] = None
    \<and> VerifyReceipt toy_crypto data (toy_binding ''run-2'') [Fingerprint toy_crypto toy_key] = Some BindingMismatch"
proof -
  define data where "data = projr (Sign toy_crypto toy_key toy_sign ''2026-01-02T03:04:05.678Z'' (toy_binding ''run-1''))"
  have ev: "Sign toy_crypto toy_key toy_sign ''2026-01-02T03:04:05.678Z'' (toy_binding ''run-1'') = Inr data"
      "int (length data) \<le> 64 * 1024"
      "list_all valid_utf8 (binding_texts (toy_binding ''run-1''))" "valid_utf8 ''2026-01-02T03:04:05.678Z''"
      "toy_binding ''run-2'' \<noteq> toy_binding ''run-1''"
    unfolding data_def by code_simp+
  have "VerifyReceipt toy_crypto data b [Fingerprint toy_crypto toy_key]
      = (if b = toy_binding ''run-1'' then None else Some BindingMismatch)" for b
    by (rule signed_receipts_verify [OF ev(1)]) (use ev in \<open>simp_all add: toy_crypto_def toy_sign_def SignatureSize_def\<close>)
  then show ?thesis
    using ev by auto
qed

section \<open>The signed bytes\<close>

lemma length_prefixed_values_inject:
  assumes "length xs = length ys" "list_all (\<lambda>v. int (length v) < 2 ^ 32) xs" "list_all (\<lambda>v. int (length v) < 2 ^ 32) ys"
  shows "concat (map length_prefixed xs) = concat (map length_prefixed ys) \<longleftrightarrow> xs = ys"
  using assms by (induction xs ys rule: list_induct2) (simp_all add: length_prefixed_append_inject del: power.simps)

text \<open>
  C25. The signed payload determines every signed field: two receipts whose signed texts are shorter
  than \<open>2\<^sup>3\<^sup>2\<close> bytes have the same signing bytes only if their bindings, issue times, keys and signers
  agree.  No signature can therefore be moved from one effect to another.
\<close>

theorem signed_payload_determines_the_binding:
  assumes "list_all (\<lambda>v. int (length v) < 2 ^ 32) (signing_values r)"
    and "list_all (\<lambda>v. int (length v) < 2 ^ 32) (signing_values r')"
  shows "signingBytes r = signingBytes r' \<longleftrightarrow>
    binding_of r = binding_of r' \<and> rv3_IssuedAt r = rv3_IssuedAt r'
    \<and> rv3_PublicKey r = rv3_PublicKey r' \<and> rv3_Signer r = rv3_Signer r'"
proof -
  have "signingBytes r = signingBytes r' \<longleftrightarrow> signing_values r = signing_values r'"
    using length_prefixed_values_inject [OF _ assms] by (simp add: signingBytes_def signing_values_def)
  then show ?thesis
    by (auto simp: signing_values_def binding_of_def)
qed

theorem signed_payload_determines_the_binding_witness:
  "signingBytes (unsigned_receipt toy_crypto toy_key [] (toy_binding ''run-1''))
    \<noteq> signingBytes (unsigned_receipt toy_crypto toy_key [] (toy_binding ''run-2''))"
proof -
  have "list_all (\<lambda>v. int (length v) < 2 ^ 32) (signing_values (unsigned_receipt toy_crypto toy_key [] (toy_binding ''run-1'')))"
       "list_all (\<lambda>v. int (length v) < 2 ^ 32) (signing_values (unsigned_receipt toy_crypto toy_key [] (toy_binding ''run-2'')))"
    by code_simp+
  from signed_payload_determines_the_binding [OF this] show ?thesis
    by (simp add: unsigned_receipt_def binding_of_def toy_binding_def)
qed

end
