(* ===== verification/RegistryPolicy.thy ===== *)
theory RegistryPolicy
  imports RegistryDigest EvidenceRoundTrip
begin

text \<open>
  What registration guarantees: every registered policy is sound in its class, assurance and route,
  the start-up scan can only find defects registration does not look at, and entries never change.
  And what the argument validator guarantees of the arguments it accepts.
\<close>

section \<open>Registered policies\<close>

definition sound_policy :: "resolved_descriptor \<Rightarrow> bool" where
  "sound_policy d \<longleftrightarrow>
    1 \<le> rd_DescriptorVersion d
    \<and> ExecutionClass_Valid (rd_ExecutionClass d)
    \<and> AssuranceProfile_Valid (rd_AssuranceProfile d)
    \<and> (rd_ExecutionClass d = ClassCritical \<longrightarrow>
         rd_AssuranceProfile d = AssuranceHighAssurance \<and> rd_ExecutionRoute d = RouteCrabedence)
    \<and> (rd_ExecutionClass d = ClassMutation \<longrightarrow>
         RequiresDurableStore (rd_AssuranceProfile d) \<and> rd_ExecutionRoute d = RouteCrabedence)
    \<and> (rd_ExecutionRoute d = RouteLocal \<longrightarrow>
         rd_ExecutionClass d = ClassPure \<and> rd_AssuranceProfile d = AssuranceNone
         \<and> \<not> ap_GrantRequired (rd_AuthorityPolicy d))
    \<and> (rd_ExecutionRoute d = RouteDirect \<longrightarrow> \<not> RequiresDurableStore (rd_AssuranceProfile d))"

definition left_to_scan :: "finding \<Rightarrow> bool" where
  "left_to_scan f \<longleftrightarrow>
    f \<in> {ResourceArgumentsWithoutGrant, NoAdapter, SchemaNotValid, SchemaNotObject, SchemaKeyword}"

lemma compatible_sound:
  assumes "ValidateDescriptorCompatibility effect assurance route = None"
    and "ExecutionClass_Valid effect" "AssuranceProfile_Valid assurance" "1 \<le> rd_DescriptorVersion d"
    and "rd_ExecutionClass d = effect" "rd_AssuranceProfile d = assurance" "rd_ExecutionRoute d = route"
    and "\<not> (route = RouteLocal \<and> ap_GrantRequired (rd_AuthorityPolicy d))"
  shows "sound_policy d"
  using assms
  by (auto simp: sound_policy_def ValidateDescriptorCompatibility_def RequiresDurableStore_def dimension_defs
      ExecutionClass_Valid_def split: if_splits)

lemma Resolve_sound:
  assumes "Resolve c = Inr d"
  shows "sound_policy d \<and> rd_ID d = cd_ID c \<and> list_all left_to_scan (descriptor_findings d)"
proof -
  define version assurance route where
    "version = (if cd_DescriptorVersion c = 0 then 1 else cd_DescriptorVersion c)"
    and "assurance = (if cd_AssuranceProfile c = [] then DefaultAssuranceProfile (cd_ExecutionClass c) else cd_AssuranceProfile c)"
    and "route = (if cd_ExecutionRoute c = [] then DefaultExecutionRoute assurance else cd_ExecutionRoute c)"
  note resolve = Resolve_def [of c, folded version_def, unfolded Let_def, folded assurance_def, folded route_def]
  have facts: "1 \<le> rd_DescriptorVersion d" "ExecutionClass_Valid (rd_ExecutionClass d)" "rd_ID d = cd_ID c"
      "AssuranceProfile_Valid (rd_AssuranceProfile d)" "ExecutionRoute_Valid (rd_ExecutionRoute d)"
      "ValidateDescriptorCompatibility (rd_ExecutionClass d) (rd_AssuranceProfile d) (rd_ExecutionRoute d) = None"
      "\<not> (rd_ExecutionRoute d = RouteLocal \<and> ap_GrantRequired (rd_AuthorityPolicy d))"
    using assms unfolding resolve by (auto split: if_split_asm option.split_asm)
  moreover have "sound_policy d"
    by (rule compatible_sound [OF facts(6,2,4,1) refl refl refl facts(7)])
  moreover have "list_all left_to_scan (descriptor_findings d)"
    using facts by (auto simp: descriptor_findings_def report_if_def left_to_scan_def validateSchemaDocument_def
        split: option.splits json.splits if_splits)
  ultimately show ?thesis
    by blast
qed

definition register_all :: "capability_descriptor list \<Rightarrow> registry \<Rightarrow> registry" where
  "register_all ds r = fold (\<lambda>d r. snd (Register d r)) ds r"

definition registered_ok :: "registry \<Rightarrow> bool" where
  "registered_ok r \<longleftrightarrow>
    sorted_map r \<and> list_all (\<lambda>(i, d). rd_ID d = i \<and> sound_policy d \<and> list_all left_to_scan (descriptor_findings d)) r"

lemma set_obj_put_new: "map_of m k = None \<Longrightarrow> set (obj_put k v m) = insert (k, v) (set m)"
  by (induction k v m rule: obj_put.induct) auto

lemma Register_ok:
  assumes "registered_ok r"
  shows "registered_ok (snd (Register d r)) \<and> map_of r \<subseteq>\<^sub>m map_of (snd (Register d r))"
proof (cases "Resolve d")
  case (Inr c)
  then show ?thesis
    using assms Resolve_sound [OF Inr]
    by (auto simp: Register_def registered_ok_def list_all_iff set_obj_put_new map_le_def)
qed (use assms in \<open>simp add: Register_def\<close>)

lemma register_all_ok:
  assumes "registered_ok r"
  shows "registered_ok (register_all ds r) \<and> map_of r \<subseteq>\<^sub>m map_of (register_all ds r)"
  using assms
proof (induction ds arbitrary: r)
  case (Cons d ds)
  then show ?case
    using Register_ok [OF Cons.prems, of d] by (auto simp: register_all_def intro: map_le_trans)
qed (simp add: register_all_def)

lemma registered_ok_new: "registered_ok NewRegistry"
  by (simp add: registered_ok_def NewRegistry_def)


section \<open>Accepted arguments\<close>

text \<open>A number literal with an exact integer value between the bounds the schema declares.\<close>

definition integer_in_bounds :: "(string \<times> json) list \<Rightarrow> json \<Rightarrow> bool" where
  "integer_in_bounds schema v \<longleftrightarrow>
    (\<exists>lit n. v = JNumber lit \<and> number_value lit = Some (of_int n)
      \<and> bounded schema ''minimum'' (\<lambda>b. b \<le> of_int n)
      \<and> bounded schema ''maximum'' (\<lambda>b. of_int n \<le> b))"

lemma Rat_SetString_value: "Rat_SetString lit = Some q \<Longrightarrow> number_value lit = Some q"
  by (auto simp: Rat_SetString_def number_value_def parts_value_def Let_def split: option.splits if_splits)

lemma Rat_IsInt_int: "Rat_IsInt q \<Longrightarrow> \<exists>n. q = of_int n"
  by (metis Rat_IsInt_def quotient_of_div surjective_pairing of_int_1 div_by_1)

lemma validateValue_integer:
  assumes "validateValue schema v" "map_of schema ''type'' = Some (JString ''integer'')"
  shows "integer_in_bounds schema v"
proof -
  have "check_type schema v" "check_number schema v"
    using assms(1) by (simp_all add: validateValue.simps)
  then have "checkType ''integer'' v"
    using assms(2) by (simp add: check_type_def)
  then obtain lit q where v: "v = JNumber lit" "Rat_SetString lit = Some q" "Rat_IsInt q"
    by (cases v) (auto simp: checkType_def json_type_def Let_def ratValue_def split: option.splits if_splits)
  obtain n where "q = of_int n"
    using Rat_IsInt_int [OF v(3)] by blast
  then show ?thesis
    using \<open>check_number schema v\<close> v Rat_SetString_value [OF v(2)]
    by (auto simp: integer_in_bounds_def check_number_def ratValue_def)
qed

definition argument_text :: "bytes \<Rightarrow> bytes" where
  "argument_text args = (if length args = 0 then ''{}'' else args)"

text \<open>
  C27. Accepted arguments conform: if \<open>ValidateArguments\<close> accepts, the arguments are an object with
  every required field; a declared property of type \<open>integer\<close> that is present is a literal whose exact
  value is an integer within the declared minimum and maximum, however it is spelled; and when the
  schema declares properties and closes the object, no undeclared field is present.
\<close>

theorem accepted_arguments_conform:
  assumes "decodeUseNumber schema = Some (JObject s)" "schema \<noteq> []" "ValidateArguments schema args = SchemaOk"
    and "map_of s ''properties'' = Some (JObject props)"
  shows "\<exists>obj. decodeUseNumber (argument_text args) = Some (JObject obj)
    \<and> (\<forall>rs name. map_of s ''required'' = Some (JArray rs) \<and> JString name \<in> set rs \<longrightarrow> map_of obj name \<noteq> None)
    \<and> (\<forall>name p v. (name, JObject p) \<in> set props \<and> map_of obj name = Some v
         \<and> map_of p ''type'' = Some (JString ''integer'') \<longrightarrow> integer_in_bounds p v)
    \<and> (map_of s ''additionalProperties'' = Some (JBool False) \<longrightarrow> fst ` set obj \<subseteq> fst ` set props)"
proof -
  obtain obj where obj: "decodeUseNumber (argument_text args) = Some (JObject obj)" and valid: "validateObject s obj"
    using assms(1-3) by (auto simp: ValidateArguments_def argument_text_def split: option.splits json.splits if_splits)
  have "check_required s obj" "check_additional s props obj"
      and checked: "list_all (\<lambda>kv. case snd kv of
               JObject propMap \<Rightarrow>
                 (case map_of obj (fst kv) of None \<Rightarrow> True | Some v \<Rightarrow> validateValue propMap v)
             | _ \<Rightarrow> True) props"
    using valid assms(4) by (simp_all add: validateObject.simps)
  have req: "map_of obj name \<noteq> None" if "map_of s ''required'' = Some (JArray rs)" "JString name \<in> set rs" for rs name
  proof -
    have "case JString name of JString name \<Rightarrow> map_of obj name \<noteq> None | _ \<Rightarrow> True"
      using \<open>check_required s obj\<close> that by (auto simp: check_required_def list_all_iff dest!: bspec)
    then show ?thesis
      by simp
  qed
  have ints: "integer_in_bounds p v"
    if "(name, JObject p) \<in> set props" "map_of obj name = Some v" "map_of p ''type'' = Some (JString ''integer'')" for name p v
  proof (rule validateValue_integer [OF _ that(3)])
    show "validateValue p v"
      using bspec [OF checked [unfolded list_all_iff] that(1)] that(2) by simp
  qed
  have closed: "fst ` set obj \<subseteq> fst ` set props" if "map_of s ''additionalProperties'' = Some (JBool False)"
    using \<open>check_additional s props obj\<close> that
    by (auto simp: check_additional_def list_all_iff map_of_eq_None_iff)
  show ?thesis
  proof (intro exI [of _ obj] conjI allI impI obj)
    fix rs name
    show "map_of s ''required'' = Some (JArray rs) \<and> JString name \<in> set rs \<Longrightarrow> map_of obj name \<noteq> None"
      using req by blast
  qed (use ints closed in blast)+
qed

text \<open>A sample schema with an integer property, a required field and a closed object.\<close>

definition sample_schema :: bytes where
  "sample_schema = ''{\"type\":\"object\",\"properties\":{\"n\":{\"type\":\"integer\",\"minimum\":1,\"maximum\":10}},\"required\":[\"n\"],\"additionalProperties\":false}''"

theorem accepted_arguments_conform_witness:
  "\<exists>obj v. decodeUseNumber ''{\"n\":0.5e1}'' = Some (JObject obj) \<and> map_of obj ''n'' = Some v
    \<and> (\<exists>p. integer_in_bounds p v) \<and> fst ` set obj \<subseteq> {''n''}"
proof -
  define s where "s = (case decodeUseNumber sample_schema of Some (JObject m) \<Rightarrow> m | _ \<Rightarrow> [])"
  define props where "props = (case map_of s ''properties'' of Some (JObject m) \<Rightarrow> m | _ \<Rightarrow> [])"
  define p where "p = (case map_of props ''n'' of Some (JObject m) \<Rightarrow> m | _ \<Rightarrow> [])"
  have ev: "decodeUseNumber sample_schema = Some (JObject s)" "sample_schema \<noteq> []"
      "ValidateArguments sample_schema ''{\"n\":0.5e1}'' = SchemaOk" "map_of s ''properties'' = Some (JObject props)"
      "argument_text ''{\"n\":0.5e1}'' = ''{\"n\":0.5e1}''" "map_of s ''additionalProperties'' = Some (JBool False)"
      "(''n'', JObject p) \<in> set props" "map_of p ''type'' = Some (JString ''integer'')" "map fst props = [''n'']"
      "case decodeUseNumber ''{\"n\":0.5e1}'' of Some (JObject m) \<Rightarrow> map_of m ''n'' \<noteq> None | _ \<Rightarrow> False"
    unfolding p_def props_def s_def by code_simp+
  from accepted_arguments_conform [OF ev(1-4)] obtain obj where
    obj: "decodeUseNumber (argument_text ''{\"n\":0.5e1}'') = Some (JObject obj)"
    and ints: "\<forall>name p v. (name, JObject p) \<in> set props \<and> map_of obj name = Some v
         \<and> map_of p ''type'' = Some (JString ''integer'') \<longrightarrow> integer_in_bounds p v"
    and closed: "map_of s ''additionalProperties'' = Some (JBool False) \<longrightarrow> fst ` set obj \<subseteq> fst ` set props"
    by blast
  obtain v where v: "map_of obj ''n'' = Some v"
    using obj ev(5,10) by auto
  then have "integer_in_bounds p v"
    using ints ev(7,8) by blast
  moreover have "fst ` set props = {''n''}"
    using ev(9) by (metis list.set(1,2) set_map)
  then have "fst ` set obj \<subseteq> {''n''}"
    using closed ev(6) by blast
  ultimately show ?thesis
    using obj v unfolding ev(5) by blast
qed

text \<open>Three gaps of the validator: a bound is skipped for a number whose exponent is too large to
  represent, a closed
  object without declared properties accepts every field, and the scan accepts an \<open>additionalProperties\<close>
  schema that the validator never applies.\<close>

lemma huge_exponent_escapes_the_bound:
  "ValidateArguments ''{\"properties\":{\"n\":{\"type\":\"number\",\"maximum\":10}}}'' ''{\"n\":1e1000001}'' = SchemaOk"
  by code_simp

lemma closed_object_without_properties_is_open:
  "ValidateArguments ''{\"type\":\"object\",\"additionalProperties\":false}'' ''{\"x\":1}'' = SchemaOk"
  by code_simp

lemma schema_valued_additional_properties_are_not_enforced:
  "validateSchemaDocument ''{\"properties\":{},\"additionalProperties\":{\"type\":\"string\"}}'' = None
   \<and> ValidateArguments ''{\"properties\":{},\"additionalProperties\":{\"type\":\"string\"}}'' ''{\"x\":1}'' = SchemaOk"
  by code_simp

end
