(* ===== verification/Admission.thy ===== *)
theory Admission
  imports Registry
begin

text \<open>
  Grants (\<^verbatim>\<open>internal/capability/grant.go\<close>) and admission (\<^verbatim>\<open>internal/capability/admission.go\<close>): the grant
  and its canonical digest, the checks a grant answers, grant resolvers, \<open>VerifyAuthority\<close> with its
  resource constraints, and \<open>Admit\<close>.

  A Go \<open>time.Time\<close> is the number of nanoseconds since the Unix epoch, the zero time is \<open>None\<close>.  A
  \<open>GrantResolver\<close> is a record of functions, so that every resolver can stand behind the interface;
  \<open>None\<close> is the nil interface.
\<close>

section \<open>Grants\<close>

record grant =
  g_ID :: string
  g_Principal :: string
  g_Capabilities :: "string list"
  g_Constraints :: "(string \<times> string list) list"
  g_ExpiresAt :: "int option"
  g_Revoked :: bool
  g_IssuedAt :: "int option"
  g_Generation :: int
  g_Digest :: string

text \<open>\<open>Time.UnixMilli\<close>.\<close>

definition UnixMilli :: "int \<Rightarrow> int" where
  "UnixMilli t = wrap64 (t div 10 ^ 6)"

definition time_ms :: "int option \<Rightarrow> int" where
  "time_ms t = (case t of None \<Rightarrow> 0 | Some ns \<Rightarrow> UnixMilli ns)"

text \<open>The first occurrences of a list, in order: the \<open>seen\<close> loop.\<close>

definition dedup :: "string list \<Rightarrow> string list" where
  "dedup vs = fold (\<lambda>v acc. if v \<in> set acc then acc else acc @ [v]) vs []"

definition normalizeConstraints :: "(string \<times> string list) list \<Rightarrow> (string \<times> string list) list" where
  "normalizeConstraints cs =
    (if length cs = 0 then [] else map (\<lambda>(dimension, vs). (dimension, sort (dedup vs))) cs)"

text \<open>A nil slice is encoded as \<open>null\<close>; an empty non-nil one as \<open>[]\<close>.\<close>

definition strings_text :: "string list \<Rightarrow> string" where
  "strings_text xs = array_text (map quote_string xs)"

definition grant_material :: "grant \<Rightarrow> bytes" where
  "grant_material g =
    (let caps = sort (g_Capabilities g); constraints = normalizeConstraints (g_Constraints g) in
     object_text
       ([(''grant_id'', quote_string (g_ID g)),
         (''generation'', show_int (g_Generation g)),
         (''principal'', quote_string (g_Principal g)),
         (''capabilities'', if caps = [] then ''null'' else strings_text caps)]
        @ omitempty ''constraints'' (constraints = [])
            (object_text (map (\<lambda>(dimension, vs). (dimension, strings_text vs)) constraints))
        @ [(''issued_at_ms'', show_int (time_ms (g_IssuedAt g))),
           (''expires_at_ms'', show_int (time_ms (g_ExpiresAt g)))]))"

definition ComputeGrantDigest :: "crypto \<Rightarrow> grant \<Rightarrow> string" where
  "ComputeGrantDigest C g = sha256_hex C (grant_material g)"

definition VerifyGrantDigest :: "crypto \<Rightarrow> grant option \<Rightarrow> bool" where
  "VerifyGrantDigest C g =
    (case g of
       None \<Rightarrow> False
     | Some g \<Rightarrow> if g_Digest g = [] then False else ComputeGrantDigest C g = g_Digest g)"

definition Expired :: "grant \<Rightarrow> int \<Rightarrow> bool" where
  "Expired g now \<longleftrightarrow> (case g_ExpiresAt g of None \<Rightarrow> False | Some e \<Rightarrow> \<not> now < e)"

definition HasCapability :: "grant \<Rightarrow> string \<Rightarrow> bool" where
  "HasCapability g capabilityID \<longleftrightarrow>
    length (g_Capabilities g) = 0 \<or> list_ex (\<lambda>c. c = capabilityID \<or> c = ''*'') (g_Capabilities g)"

definition IsValid :: "grant option \<Rightarrow> string \<Rightarrow> int \<Rightarrow> bool" where
  "IsValid g capabilityID now =
    (case g of
       None \<Rightarrow> False
     | Some g \<Rightarrow> \<not> g_Revoked g \<and> \<not> Expired g now \<and> HasCapability g capabilityID)"

definition AllowsResource :: "grant \<Rightarrow> string \<Rightarrow> string \<Rightarrow> bool" where
  "AllowsResource g dimension v =
    (case map_of (g_Constraints g) dimension of
       None \<Rightarrow> True
     | Some allowed \<Rightarrow> list_ex (\<lambda>a. a = v \<or> a = ''*'') allowed)"

section \<open>Resolvers\<close>

text \<open>\<open>gr_Resolve\<close> is an error or the grant, if there is one.\<close>

record grant_resolver =
  gr_Resolve :: "string \<Rightarrow> string \<Rightarrow> unit + grant option"
  gr_ExpiryIsAuthoritative :: bool

definition NoopGrantResolver :: grant_resolver where
  "NoopGrantResolver = \<lparr> gr_Resolve = (\<lambda>grantID principalID. Inr None), gr_ExpiryIsAuthoritative = False \<rparr>"

definition AddGrant :: "grant \<Rightarrow> (string \<times> grant) list \<Rightarrow> (string \<times> grant) list" where
  "AddGrant g grants = obj_put (g_ID g) g grants"

definition InMemory_Resolve :: "(string \<times> grant) list \<Rightarrow> string \<Rightarrow> string \<Rightarrow> unit + grant option" where
  "InMemory_Resolve grants grantID principalID =
    (case map_of grants grantID of
       None \<Rightarrow> Inr None
     | Some g \<Rightarrow> if g_Principal g \<noteq> principalID then Inr None else Inr (Some g))"

definition InMemoryGrantResolver :: "(string \<times> grant) list \<Rightarrow> grant_resolver" where
  "InMemoryGrantResolver grants = \<lparr> gr_Resolve = InMemory_Resolve grants, gr_ExpiryIsAuthoritative = False \<rparr>"

section \<open>Authority\<close>

definition FailureInvalidRequest :: string where "FailureInvalidRequest = ''INVALID_REQUEST''"
definition FailureUnauthorized :: string where "FailureUnauthorized = ''UNAUTHORIZED''"
definition FailureCapabilityNotFound :: string where "FailureCapabilityNotFound = ''CAPABILITY_NOT_FOUND''"
definition FailureCapabilityUnavailable :: string where "FailureCapabilityUnavailable = ''CAPABILITY_UNAVAILABLE''"
definition FailureAdmissionDenied :: string where "FailureAdmissionDenied = ''ADMISSION_DENIED''"
definition FailureExecutionFailed :: string where "FailureExecutionFailed = ''EXECUTION_FAILED''"
definition FailureExecutionUnknown :: string where "FailureExecutionUnknown = ''EXECUTION_UNKNOWN''"
definition FailureInFlight :: string where "FailureInFlight = ''IN_FLIGHT''"
definition FailureInternalError :: string where "FailureInternalError = ''INTERNAL_ERROR''"
definition FailureIdempotencyConflict :: string where "FailureIdempotencyConflict = ''IDEMPOTENCY_CONFLICT''"

lemmas failure_defs =
  FailureInvalidRequest_def FailureUnauthorized_def FailureCapabilityNotFound_def
  FailureCapabilityUnavailable_def FailureAdmissionDenied_def FailureExecutionFailed_def
  FailureExecutionUnknown_def FailureInFlight_def FailureInternalError_def FailureIdempotencyConflict_def

record admission_request =
  aq_Capability :: string
  aq_Arguments :: bytes
  aq_Principal :: string
  aq_GrantID :: string
  aq_ExecutionClass :: string
  aq_IdempotencyKey :: string
  aq_Deadline :: string

text \<open>\<open>json.Unmarshal\<close> of a raw field into a \<open>string\<close>: \<open>null\<close> leaves the empty string in place.\<close>

definition unmarshal_string :: "json \<Rightarrow> string option" where
  "unmarshal_string v = (case v of JString s \<Rightarrow> Some s | JNull \<Rightarrow> Some [] | _ \<Rightarrow> None)"

definition json_members :: "json \<Rightarrow> (string \<times> json) list" where
  "json_members v = (case v of JObject m \<Rightarrow> m | _ \<Rightarrow> [])"

text \<open>One iteration of the loop over the dimensions; the empty failure code means it goes on.\<close>

definition check_dimension ::
    "(string \<times> string) list \<Rightarrow> (string \<times> json) list \<Rightarrow> grant \<Rightarrow> string \<Rightarrow> string" where
  "check_dimension resourceArguments args g dimension =
    (case map_of args (the (map_of resourceArguments dimension)) of
       None \<Rightarrow> FailureUnauthorized
     | Some field \<Rightarrow>
         (case unmarshal_string field of
            None \<Rightarrow> FailureUnauthorized
          | Some v \<Rightarrow> if \<not> AllowsResource g dimension v then FailureUnauthorized else []))"

fun first_failure :: "(string \<Rightarrow> string) \<Rightarrow> string list \<Rightarrow> string" where
  "first_failure f [] = []"
| "first_failure f (x # xs) = (if f x \<noteq> [] then f x else first_failure f xs)"

definition checkResourceConstraints :: "resolved_descriptor \<Rightarrow> bytes \<Rightarrow> grant \<Rightarrow> string" where
  "checkResourceConstraints desc raw g =
    (case decodeMap raw of
       Inl e \<Rightarrow> FailureInvalidRequest
     | Inr args \<Rightarrow>
         (let resourceArguments = ap_ResourceArguments (rd_AuthorityPolicy desc);
              dimensions = sort (map fst resourceArguments) in
          first_failure (check_dimension resourceArguments (json_members args) g) dimensions))"

definition VerifyAuthority ::
    "registry \<Rightarrow> admission_request \<Rightarrow> grant_resolver option \<Rightarrow> int \<Rightarrow> grant option \<times> string" where
  "VerifyAuthority r req resolver now =
    (if aq_Principal req = [] then (None, FailureUnauthorized)
     else
       (case Registry_Lookup r (aq_Capability req) of
          None \<Rightarrow> (None, FailureCapabilityNotFound)
        | Some desc \<Rightarrow>
            if \<not> ap_GrantRequired (rd_AuthorityPolicy desc) then (None, [])
            else if aq_GrantID req = [] then (None, FailureUnauthorized)
            else
              (case resolver of
                 None \<Rightarrow> (None, FailureUnauthorized)
               | Some res \<Rightarrow>
                   (case gr_Resolve res (aq_GrantID req) (aq_Principal req) of
                      Inl e \<Rightarrow> (None, FailureUnauthorized)
                    | Inr None \<Rightarrow> (None, FailureUnauthorized)
                    | Inr (Some g) \<Rightarrow>
                        if g_Revoked g \<or> \<not> HasCapability g (aq_Capability req)
                           \<or> (\<not> gr_ExpiryIsAuthoritative res \<and> Expired g now)
                        then (None, FailureUnauthorized)
                        else if ap_ResourceArguments (rd_AuthorityPolicy desc) \<noteq> []
                                \<and> checkResourceConstraints desc (aq_Arguments req) g \<noteq> []
                        then (None, checkResourceConstraints desc (aq_Arguments req) g)
                        else (Some g, [])))))"

section \<open>Admission\<close>

text \<open>\<open>AdmissionDecision\<close>: refused with a failure code, or allowed with the descriptor.\<close>

datatype admission_decision =
    Refused string
  | Allowed resolved_descriptor

definition Admit :: "registry \<Rightarrow> admission_request \<Rightarrow> admission_decision" where
  "Admit r req =
    (case Registry_Lookup r (aq_Capability req) of
       None \<Rightarrow> Refused FailureCapabilityNotFound
     | Some desc \<Rightarrow>
         if rd_AdapterID desc = [] then Refused FailureCapabilityUnavailable
         else if aq_ExecutionClass req \<noteq> [] \<and> aq_ExecutionClass req \<noteq> rd_ExecutionClass desc
         then Refused FailureAdmissionDenied
         else if aq_Principal req = [] then Refused FailureUnauthorized
         else if ap_GrantRequired (rd_AuthorityPolicy desc) \<and> aq_GrantID req = [] then Refused FailureUnauthorized
         else if RequiresIdempotencyKey (rd_ExecutionClass desc) \<and> aq_IdempotencyKey req = []
         then Refused FailureAdmissionDenied
         else Allowed desc)"

end
