(* ===== verification/ExecTypes.thy ===== *)
theory ExecTypes
  imports Admission Evidence
begin

text \<open>
  The types of the execution service (\<^verbatim>\<open>internal/execution/service.go\<close>, \<^verbatim>\<open>provider_caps.go\<close>): requests,
  responses and what a provider adapter declares; and the value of an RFC 3339 timestamp, as
  \<^verbatim>\<open>time.Parse\<close> computes it.
\<close>

section \<open>Requests and responses\<close>

record request_authority =
  ra_Principal :: string
  ra_AuthorityRef :: string
  ra_GrantID :: string
  ra_AuthorityGeneration :: int
  ra_AuthorityDigest :: string

record request =
  rq_Capability :: string
  rq_Arguments :: bytes
  rq_Authority :: request_authority
  rq_ExecutionClass :: string
  rq_IdempotencyKey :: string
  rq_Deadline :: string

definition EffectiveAuthorityRef :: "request_authority \<Rightarrow> string" where
  "EffectiveAuthorityRef a = (if ra_AuthorityRef a \<noteq> [] then ra_AuthorityRef a else ra_GrantID a)"

record evidence_ref =
  eref_Digest :: string
  eref_ReceiptVersion :: int

record execution_meta =
  em_Provider :: string
  em_RunID :: string

record response =
  rs_Status :: string
  rs_FailureCode :: string
  rs_Result :: bytes
  rs_Error :: string
  rs_Evidence :: "evidence_ref option"
  rs_Execution :: "execution_meta option"
  rs_DefinitiveFailure :: bool
  rs_EvidenceArtifact :: bytes

definition StatusSucceeded :: string where "StatusSucceeded = ''SUCCEEDED''"
definition StatusFailed :: string where "StatusFailed = ''FAILED''"
definition StatusDenied :: string where "StatusDenied = ''DENIED''"
definition StatusUnknown :: string where "StatusUnknown = ''UNKNOWN''"
definition StatusInFlight :: string where "StatusInFlight = ''IN_FLIGHT''"

lemmas status_defs = StatusSucceeded_def StatusFailed_def StatusDenied_def StatusUnknown_def StatusInFlight_def

text \<open>A composite literal with a status, a failure code and an error text; the other fields are zero.\<close>

definition response_of :: "string \<Rightarrow> string \<Rightarrow> string \<Rightarrow> response" where
  "response_of status code err =
    \<lparr> rs_Status = status, rs_FailureCode = code, rs_Result = [], rs_Error = err, rs_Evidence = None,
      rs_Execution = None, rs_DefinitiveFailure = False, rs_EvidenceArtifact = [] \<rparr>"

lemma response_of_simps [simp]:
  "rs_Status (response_of s c e) = s" "rs_FailureCode (response_of s c e) = c" "rs_Error (response_of s c e) = e"
  "rs_Result (response_of s c e) = []" "rs_Evidence (response_of s c e) = None"
  "rs_Execution (response_of s c e) = None" "rs_DefinitiveFailure (response_of s c e) = False"
  "rs_EvidenceArtifact (response_of s c e) = []"
  by (simp_all add: response_of_def)

section \<open>Provider adapters\<close>

record provider_capabilities =
  pc_SupportsProviderIdempotency :: bool
  pc_SupportsStatusLookup :: bool
  pc_SupportsCompletionProof :: bool
  pc_SupportsNonexecutionProof :: bool
  pc_RecoveryLocatorType :: string

record recovery_locator_input =
  li_ExecutionID :: string
  li_AdapterID :: string
  li_CapabilityID :: string
  li_Principal :: string
  li_IdempotencyKey :: string
  li_RequestDigest :: string
  li_Arguments :: bytes

record recovery_locator =
  rl_Version :: int
  rl_ProviderID :: string
  rl_Strategy :: string
  rl_ExternalToken :: string
  rl_ResourceRef :: string
  rl_RequestDigest :: string
  rl_ExecutionID :: string
  rl_PrincipalID :: string
  rl_CapabilityID :: string
  rl_IdempotencyKey :: string
  rl_Extensions :: bytes

text \<open>
  \<^verbatim>\<open>json.Compact\<close> with HTML escaping, as the encoder applies it to a raw message: blanks outside strings
  are dropped.  The flags say whether the position is inside a string and just after a backslash.
\<close>

fun compact_text :: "bool \<Rightarrow> bool \<Rightarrow> string \<Rightarrow> string" where
  "compact_text inside esc [] = []"
| "compact_text inside esc (c # cs) =
    (if c = CHR ''<'' \<or> c = CHR ''>'' \<or> c = CHR ''&'' then u_escape (b2n c) @ compact_text inside False cs
     else if is_line_separator (c # cs) then
       [CHR 0x5C] @ ''u202'' @ [hex_digit (b2n ((c # cs) ! 2) mod 16)] @ compact_text inside False (drop 2 cs)
     else if \<not> inside \<and> is_space c then compact_text False False cs
     else
       c # compact_text (if esc then inside else if c = CHR 0x22 then \<not> inside else inside)
             (inside \<and> \<not> esc \<and> c = CHR 0x5C) cs)"

definition raw_text :: "bytes \<Rightarrow> string option" where
  "raw_text raw = (case parseJSON raw of Inl e \<Rightarrow> None | Inr v \<Rightarrow> Some (compact_text False False raw))"

text \<open>\<^verbatim>\<open>json.Marshal\<close> of a locator, \<open>None\<close> when its extensions are not JSON.\<close>

definition locator_json :: "recovery_locator \<Rightarrow> bytes option" where
  "locator_json l =
    (let fields = (\<lambda>extensions.
       object_text
         ([(''v'', show_int (rl_Version l)),
           (''provider_id'', quote_string (rl_ProviderID l)),
           (''strategy'', quote_string (rl_Strategy l))]
          @ omitempty ''external_token'' (rl_ExternalToken l = []) (quote_string (rl_ExternalToken l))
          @ omitempty ''resource_ref'' (rl_ResourceRef l = []) (quote_string (rl_ResourceRef l))
          @ omitempty ''request_digest'' (rl_RequestDigest l = []) (quote_string (rl_RequestDigest l))
          @ omitempty ''execution_id'' (rl_ExecutionID l = []) (quote_string (rl_ExecutionID l))
          @ omitempty ''principal_id'' (rl_PrincipalID l = []) (quote_string (rl_PrincipalID l))
          @ omitempty ''capability_id'' (rl_CapabilityID l = []) (quote_string (rl_CapabilityID l))
          @ omitempty ''idempotency_key'' (rl_IdempotencyKey l = []) (quote_string (rl_IdempotencyKey l))
          @ extensions)) in
     if rl_Extensions l = [] then Some (fields [])
     else map_option (\<lambda>t. fields [(''extensions'', t)]) (raw_text (rl_Extensions l)))"

section \<open>Timestamps\<close>

text \<open>Days from the Unix epoch to a date of the proleptic Gregorian calendar.\<close>

definition days_from_civil :: "int \<Rightarrow> int \<Rightarrow> int \<Rightarrow> int" where
  "days_from_civil y m d =
    (let y' = (if m \<le> 2 then y - 1 else y);
         era = y' div 400;
         yoe = y' mod 400;
         doy = (153 * (if m > 2 then m - 3 else m + 9) + 2) div 5 + d - 1 in
     era * 146097 + (yoe * 365 + yoe div 4 - yoe div 100 + doy) - 719468)"

definition fraction_digits :: "string \<Rightarrow> string" where
  "fraction_digits s = drop 1 (take (length s - length (skip_fraction s)) s)"

definition zone_seconds :: "string \<Rightarrow> int" where
  "zone_seconds s =
    (if take 1 s = ''Z'' then 0
     else
       (let offset = (digits_value (take 2 (drop 1 s)) * 60 + digits_value (take 2 (drop 4 s))) * 60 in
        if take 1 s = ''-'' then - offset else offset))"

text \<open>\<^verbatim>\<open>time.Parse(time.RFC3339, s)\<close>, in nanoseconds since the Unix epoch.\<close>

definition parse_time :: "string \<Rightarrow> int option" where
  "parse_time s =
    (if \<not> rfc3339_ok s then None
     else
       (let clock = drop 11 s;
            hour = takeWhile is_digit clock;
            s2 = drop (length hour + 1) clock;
            s3 = drop 3 s2;
            s4 = drop 2 s3;
            days = days_from_civil (digits_value (take 4 s)) (digits_value (take 2 (drop 5 s)))
                     (digits_value (take 2 (drop 8 s)));
            secs = ((days * 24 + digits_value hour) * 60 + digits_value (take 2 s2)) * 60
                     + digits_value (take 2 s3) - zone_seconds (skip_fraction s4);
            frac = digits_value (take 9 (fraction_digits s4 @ replicate 9 (CHR ''0''))) in
        Some (secs * 1000000000 + frac)))"

end
