(* ===== verification/ProviderGate.thy ===== *)
theory ProviderGate
  imports Registry
begin

text \<open>
  The provider gate (\<^verbatim>\<open>internal/execution/provider_gate.go\<close>): per-provider dispatch capacity, health
  and circuit.  A lease is shared between the executor and the goroutine that runs the provider; the
  leases handed out are kept in a list and named by their position.  The clock is an argument, in
  nanoseconds.
\<close>

section \<open>State\<close>

record provider_gate_config =
  gc_MaxConcurrent :: int
  gc_DegradedAfter :: int
  gc_OpenAfter :: int
  gc_OpenCooldown :: int

definition DefaultProviderGateConfig :: provider_gate_config where
  "DefaultProviderGateConfig =
    \<lparr> gc_MaxConcurrent = 64, gc_DegradedAfter = 5, gc_OpenAfter = 10, gc_OpenCooldown = 30 * 1000000000 \<rparr>"

definition gate_withDefaults :: "provider_gate_config \<Rightarrow> provider_gate_config" where
  "gate_withDefaults c =
    (let d = DefaultProviderGateConfig in
     \<lparr> gc_MaxConcurrent = (if gc_MaxConcurrent c \<le> 0 then gc_MaxConcurrent d else gc_MaxConcurrent c),
       gc_DegradedAfter = (if gc_DegradedAfter c \<le> 0 then gc_DegradedAfter d else gc_DegradedAfter c),
       gc_OpenAfter = (if gc_OpenAfter c \<le> 0 then gc_OpenAfter d else gc_OpenAfter c),
       gc_OpenCooldown = (if gc_OpenCooldown c \<le> 0 then gc_OpenCooldown d else gc_OpenCooldown c) \<rparr>)"

text \<open>The zero \<open>openedAt\<close> is \<open>None\<close>.\<close>

record provider_state =
  ps_inFlight :: int
  ps_wedged :: int
  ps_consecutiveFailures :: int
  ps_openedAt :: "int option"
  ps_probeInFlight :: bool
  ps_lastFailure :: string
  ps_timeouts :: int
  ps_transportFailures :: int
  ps_reconciliationFailures :: int

definition new_provider_state :: provider_state where
  "new_provider_state =
    \<lparr> ps_inFlight = 0, ps_wedged = 0, ps_consecutiveFailures = 0, ps_openedAt = None, ps_probeInFlight = False,
      ps_lastFailure = [], ps_timeouts = 0, ps_transportFailures = 0, ps_reconciliationFailures = 0 \<rparr>"

record gate =
  gt_cfg :: provider_gate_config
  gt_providers :: "(string \<times> provider_state) list"

definition NewProviderGate :: "provider_gate_config \<Rightarrow> gate" where
  "NewProviderGate cfg = \<lparr> gt_cfg = gate_withDefaults cfg, gt_providers = [] \<rparr>"

text \<open>\<open>state\<close> creates the entry on first use; writing the state back stores it.\<close>

definition provider_state_of :: "gate \<Rightarrow> string \<Rightarrow> provider_state" where
  "provider_state_of g p = (case map_of (gt_providers g) p of Some st \<Rightarrow> st | None \<Rightarrow> new_provider_state)"

definition put_state :: "string \<Rightarrow> provider_state \<Rightarrow> gate \<Rightarrow> gate" where
  "put_state p st g = g\<lparr>gt_providers := obj_put p st (gt_providers g)\<rparr>"

record provider_lease =
  pl_providerID :: string
  pl_probe :: bool
  pl_released :: bool
  pl_wedged :: bool

datatype gate_error = ErrProviderSaturated | ErrProviderCircuitOpen

section \<open>Operations\<close>

text \<open>Whether the call may start, and whether it is the probe of an open circuit.\<close>

definition admitLocked :: "provider_gate_config \<Rightarrow> int \<Rightarrow> provider_state \<Rightarrow> gate_error + (bool \<times> provider_state)" where
  "admitLocked cfg now st =
    (if ps_consecutiveFailures st < gc_OpenAfter cfg then
       (if gc_MaxConcurrent cfg \<le> ps_inFlight st then Inl ErrProviderSaturated else Inr (False, st))
     else if ps_probeInFlight st then Inl ErrProviderCircuitOpen
     else
       (case ps_openedAt st of
          None \<Rightarrow> Inl ErrProviderCircuitOpen
        | Some t \<Rightarrow>
            if gc_OpenCooldown cfg \<le> now - t then
              (if gc_MaxConcurrent cfg \<le> ps_inFlight st then Inl ErrProviderSaturated
               else Inr (True, st\<lparr>ps_probeInFlight := True\<rparr>))
            else Inl ErrProviderCircuitOpen))"

definition gate_Acquire :: "int \<Rightarrow> string \<Rightarrow> gate \<Rightarrow> (gate_error + provider_lease) \<times> gate" where
  "gate_Acquire now p g =
    (let st = provider_state_of g p in
     case admitLocked (gt_cfg g) now st of
       Inl e \<Rightarrow> (Inl e, put_state p st g)
     | Inr (probe, st1) \<Rightarrow>
         (Inr \<lparr> pl_providerID = p, pl_probe = probe, pl_released = False, pl_wedged = False \<rparr>,
          put_state p (st1\<lparr>ps_inFlight := ps_inFlight st1 + 1\<rparr>) g))"

definition RecordSuccess :: "string \<Rightarrow> gate \<Rightarrow> gate" where
  "RecordSuccess p g =
    put_state p ((provider_state_of g p)\<lparr>ps_consecutiveFailures := 0, ps_openedAt := None, ps_probeInFlight := False\<rparr>) g"

definition RecordAmbiguous :: "int \<Rightarrow> string \<Rightarrow> string \<Rightarrow> gate \<Rightarrow> gate" where
  "RecordAmbiguous now p reason g =
    (let st = provider_state_of g p;
         failures = ps_consecutiveFailures st + 1 in
     put_state p
       (st\<lparr>ps_consecutiveFailures := failures, ps_transportFailures := ps_transportFailures st + 1,
           ps_lastFailure := reason, ps_probeInFlight := False,
           ps_openedAt := (if gc_OpenAfter (gt_cfg g) \<le> failures then Some now else ps_openedAt st)\<rparr>) g)"

definition RecordReconciliationFailure :: "string \<Rightarrow> gate \<Rightarrow> gate" where
  "RecordReconciliationFailure p g =
    (let st = provider_state_of g p in
     put_state p (st\<lparr>ps_reconciliationFailures := ps_reconciliationFailures st + 1\<rparr>) g)"

definition ProviderHealthy :: string where "ProviderHealthy = ''healthy''"
definition ProviderDegraded :: string where "ProviderDegraded = ''degraded''"
definition ProviderOpen :: string where "ProviderOpen = ''open''"

definition healthLocked :: "provider_gate_config \<Rightarrow> provider_state \<Rightarrow> string" where
  "healthLocked cfg st =
    (if gc_OpenAfter cfg \<le> ps_consecutiveFailures st then ProviderOpen
     else if gc_DegradedAfter cfg \<le> ps_consecutiveFailures st then ProviderDegraded
     else ProviderHealthy)"

definition gate_Health :: "string \<Rightarrow> gate \<Rightarrow> string \<times> gate" where
  "gate_Health p g =
    (let st = provider_state_of g p in (healthLocked (gt_cfg g) st, put_state p st g))"

record provider_health_snapshot =
  hs_ProviderID :: string
  hs_Health :: string
  hs_InFlight :: int
  hs_Wedged :: int
  hs_ConsecutiveFailures :: int
  hs_Timeouts :: int
  hs_TransportFailures :: int
  hs_ReconciliationFailures :: int
  hs_LastFailure :: string

definition gate_Snapshot :: "gate \<Rightarrow> provider_health_snapshot list" where
  "gate_Snapshot g =
    map (\<lambda>(p, st).
        \<lparr> hs_ProviderID = p, hs_Health = healthLocked (gt_cfg g) st, hs_InFlight = ps_inFlight st,
          hs_Wedged = ps_wedged st, hs_ConsecutiveFailures = ps_consecutiveFailures st,
          hs_Timeouts = ps_timeouts st, hs_TransportFailures = ps_transportFailures st,
          hs_ReconciliationFailures = ps_reconciliationFailures st, hs_LastFailure = ps_lastFailure st \<rparr>)
      (gt_providers g)"

definition lease_Release :: "provider_lease \<Rightarrow> gate \<Rightarrow> provider_lease \<times> gate" where
  "lease_Release l g =
    (if pl_released l then (l, g)
     else
       (let st = provider_state_of g (pl_providerID l) in
        (l\<lparr>pl_released := True\<rparr>,
         put_state (pl_providerID l)
           (st\<lparr>ps_inFlight := (if 0 < ps_inFlight st then ps_inFlight st - 1 else ps_inFlight st),
               ps_wedged := (if pl_wedged l \<and> 0 < ps_wedged st then ps_wedged st - 1 else ps_wedged st),
               ps_probeInFlight := (if pl_probe l then False else ps_probeInFlight st)\<rparr>) g)))"

definition MarkWedged :: "provider_lease \<Rightarrow> gate \<Rightarrow> provider_lease \<times> gate" where
  "MarkWedged l g =
    (if pl_wedged l then (l, g)
     else
       (let st = provider_state_of g (pl_providerID l) in
        (l\<lparr>pl_wedged := True\<rparr>, put_state (pl_providerID l) (st\<lparr>ps_wedged := ps_wedged st + 1\<rparr>) g)))"

definition MarkTimeout :: "provider_lease \<Rightarrow> gate \<Rightarrow> gate" where
  "MarkTimeout l g =
    (let st = provider_state_of g (pl_providerID l) in
     put_state (pl_providerID l) (st\<lparr>ps_timeouts := ps_timeouts st + 1\<rparr>) g)"

section \<open>Runs of the gate\<close>

text \<open>Whatever the goroutines do, the gate sees a sequence of its operations: each holds the mutex.\<close>

datatype gate_op =
    OpAcquire int string
  | OpRelease nat
  | OpMarkWedged nat
  | OpMarkTimeout nat
  | OpSuccess string
  | OpAmbiguous int string string
  | OpReconciliationFailure string

type_synonym gate_run = "gate \<times> provider_lease list"

fun gate_do :: "gate_op \<Rightarrow> gate_run \<Rightarrow> gate_run" where
  "gate_do (OpAcquire now p) (g, ls) =
    (case gate_Acquire now p g of (Inl e, g1) \<Rightarrow> (g1, ls) | (Inr l, g1) \<Rightarrow> (g1, ls @ [l]))"
| "gate_do (OpRelease i) (g, ls) =
    (if i < length ls then (case lease_Release (ls ! i) g of (l, g1) \<Rightarrow> (g1, ls[i := l])) else (g, ls))"
| "gate_do (OpMarkWedged i) (g, ls) =
    (if i < length ls then (case MarkWedged (ls ! i) g of (l, g1) \<Rightarrow> (g1, ls[i := l])) else (g, ls))"
| "gate_do (OpMarkTimeout i) (g, ls) = (if i < length ls then (MarkTimeout (ls ! i) g, ls) else (g, ls))"
| "gate_do (OpSuccess p) (g, ls) = (RecordSuccess p g, ls)"
| "gate_do (OpAmbiguous now p reason) (g, ls) = (RecordAmbiguous now p reason g, ls)"
| "gate_do (OpReconciliationFailure p) (g, ls) = (RecordReconciliationFailure p g, ls)"

definition gate_runs :: "gate_op list \<Rightarrow> gate_run \<Rightarrow> gate_run" where
  "gate_runs ops r = fold gate_do ops r"

definition live :: "string \<Rightarrow> provider_lease \<Rightarrow> bool" where
  "live p l \<longleftrightarrow> pl_providerID l = p \<and> \<not> pl_released l"

definition live_leases :: "string \<Rightarrow> provider_lease list \<Rightarrow> int" where
  "live_leases p ls = int (length (filter (live p) ls))"

definition live_wedged :: "string \<Rightarrow> provider_lease list \<Rightarrow> int" where
  "live_wedged p ls = int (length (filter (\<lambda>l. live p l \<and> pl_wedged l) ls))"

text \<open>The ambiguous outcomes of a provider since its last definitive answer: how many, and the time
  of the latest.\<close>

fun streak_step :: "string \<Rightarrow> gate_op \<Rightarrow> int \<times> int option \<Rightarrow> int \<times> int option" where
  "streak_step p (OpSuccess q) s = (if q = p then (0, None) else s)"
| "streak_step p (OpAmbiguous now q reason) s = (if q = p then (fst s + 1, Some now) else s)"
| "streak_step p _ s = s"

definition streak :: "string \<Rightarrow> gate_op list \<Rightarrow> int \<times> int option" where
  "streak p ops = fold (streak_step p) ops (0, None)"

section \<open>Invariant\<close>

lemma provider_state_of_put [simp]:
  "provider_state_of (put_state p st g) q = (if q = p then st else provider_state_of g q)"
  "gt_cfg (put_state p st g) = gt_cfg g"
  by (simp_all add: provider_state_of_def put_state_def)

definition gate_ok :: "string \<Rightarrow> provider_gate_config \<Rightarrow> int \<times> int option \<Rightarrow> gate_run \<Rightarrow> bool" where
  "gate_ok p cfg s r \<longleftrightarrow>
    (let st = provider_state_of (fst r) p in
     gt_cfg (fst r) = cfg \<and> 0 < gc_MaxConcurrent cfg \<and> 0 < gc_OpenAfter cfg
     \<and> ps_inFlight st = live_leases p (snd r)
     \<and> live_leases p (snd r) \<le> gc_MaxConcurrent cfg
     \<and> live_wedged p (snd r) \<le> ps_wedged st
     \<and> ps_consecutiveFailures st = fst s
     \<and> ps_openedAt st = (if gc_OpenAfter cfg \<le> fst s then snd s else None))"

lemma filter_update_count:
  assumes "i < length ls"
  shows "int (length (filter P (ls[i := x])))
    = int (length (filter P ls)) - (if P (ls ! i) then 1 else 0) + (if P x then 1 else 0)"
  using assms
proof (induction ls arbitrary: i)
  case (Cons y ls)
  show ?case
  proof (cases i)
    case (Suc j)
    then show ?thesis
      using Cons.IH [of j] Cons.prems by (auto split: if_splits)
  qed simp
qed simp

lemma live_leases_simps:
  "live_leases p (ls @ [l]) = live_leases p ls + (if live p l then 1 else 0)"
  "i < length ls \<Longrightarrow> live_leases p (ls[i := l])
    = live_leases p ls - (if live p (ls ! i) then 1 else 0) + (if live p l then 1 else 0)"
  "live_wedged p (ls @ [l]) = live_wedged p ls + (if live p l \<and> pl_wedged l then 1 else 0)"
  "i < length ls \<Longrightarrow> live_wedged p (ls[i := l])
    = live_wedged p ls - (if live p (ls ! i) \<and> pl_wedged (ls ! i) then 1 else 0) + (if live p l \<and> pl_wedged l then 1 else 0)"
  by (simp_all add: live_leases_def live_wedged_def filter_update_count)

lemma live_leases_pos: "i < length ls \<Longrightarrow> live p (ls ! i) \<Longrightarrow> 0 < live_leases p ls"
  by (auto simp: live_leases_def length_pos_if_in_set filter_empty_conv)

lemma live_wedged_pos: "i < length ls \<Longrightarrow> live p (ls ! i) \<Longrightarrow> pl_wedged (ls ! i) \<Longrightarrow> 0 < live_wedged p ls"
  by (auto simp: live_wedged_def length_pos_if_in_set filter_empty_conv)

lemma gate_ok_Acquire:
  assumes "gate_ok p cfg s (g, ls)"
  shows "gate_ok p cfg s (gate_do (OpAcquire now q) (g, ls))"
  using assms
  by (auto simp: gate_ok_def gate_Acquire_def admitLocked_def Let_def live_leases_simps live_def
      split: if_splits option.splits sum.splits prod.splits)

lemma gate_ok_Release:
  assumes "gate_ok p cfg s (g, ls)"
  shows "gate_ok p cfg s (gate_do (OpRelease i) (g, ls))"
proof (cases "i < length ls")
  case True
  show ?thesis
    using assms True live_leases_pos [OF True, of p] live_wedged_pos [OF True, of p]
    by (auto simp: gate_ok_def lease_Release_def Let_def live_leases_simps live_def split: if_splits prod.splits)
qed (use assms in simp)

lemma gate_ok_MarkWedged:
  assumes "gate_ok p cfg s (g, ls)"
  shows "gate_ok p cfg s (gate_do (OpMarkWedged i) (g, ls))"
proof (cases "i < length ls")
  case True
  then show ?thesis
    using assms
    by (auto simp: gate_ok_def MarkWedged_def Let_def live_leases_simps live_def split: if_splits prod.splits)
qed (use assms in simp)

lemma gate_ok_do: "gate_ok p cfg s r \<Longrightarrow> gate_ok p cfg (streak_step p op s) (gate_do op r)"
proof (cases r)
  case (Pair g ls)
  assume "gate_ok p cfg s r"
  then show ?thesis
    unfolding Pair
    by (cases op)
      (simp_all add: gate_ok_Acquire gate_ok_Release gate_ok_MarkWedged del: gate_do.simps(1-3),
       auto simp: gate_ok_def Let_def MarkTimeout_def RecordSuccess_def RecordAmbiguous_def RecordReconciliationFailure_def)
qed

lemma gate_withDefaults_pos: "0 < gc_MaxConcurrent (gate_withDefaults cfg)" "0 < gc_OpenAfter (gate_withDefaults cfg)"
  by (simp_all add: gate_withDefaults_def Let_def DefaultProviderGateConfig_def)

lemma gate_ok_new: "gate_ok p (gate_withDefaults cfg) (0, None) (NewProviderGate cfg, [])"
  using gate_withDefaults_pos [of cfg]
  by (simp add: gate_ok_def NewProviderGate_def provider_state_of_def new_provider_state_def live_leases_def
      live_wedged_def Let_def)

lemma gate_ok_runs: "gate_ok p (gate_withDefaults cfg) (streak p ops) (gate_runs ops (NewProviderGate cfg, []))"
proof -
  have "gate_ok p c s r \<Longrightarrow> gate_ok p c (fold (streak_step p) ops s) (fold gate_do ops r)" for c s r
    by (induction ops arbitrary: s r) (simp_all add: gate_ok_do)
  then show ?thesis
    using gate_ok_new by (simp add: streak_def gate_runs_def)
qed


text \<open>
  C29. An open circuit refuses: after as many consecutive ambiguous outcomes as the policy allows, no
  call is admitted before the cooldown has passed since the last of them, whatever happened in
  between, and one that is admitted later is a probe.
\<close>

theorem open_circuit_refuses:
  assumes "streak p ops = (n, Some t)" "gc_OpenAfter (gate_withDefaults cfg) \<le> n"
    and "gate_Acquire now p (fst (gate_runs ops (NewProviderGate cfg, []))) = (Inr l, g')"
  shows "t + gc_OpenCooldown (gate_withDefaults cfg) \<le> now \<and> pl_probe l"
proof -
  let ?g = "fst (gate_runs ops (NewProviderGate cfg, []))"
  have "gt_cfg ?g = gate_withDefaults cfg" "ps_consecutiveFailures (provider_state_of ?g p) = n"
      "ps_openedAt (provider_state_of ?g p) = Some t"
    using gate_ok_runs [of p cfg ops] assms(1,2) by (simp_all add: gate_ok_def Let_def)
  then show ?thesis
    using assms(2,3) by (auto simp: gate_Acquire_def admitLocked_def Let_def split: if_splits)
qed

definition outage :: "gate_op list" where
  "outage = map (\<lambda>i. OpAmbiguous i ''gh'' ''timeout'') [1, 2, 3, 4, 5, 6, 7, 8, 9, 10]"

definition no_config :: provider_gate_config where
  "no_config = \<lparr> gc_MaxConcurrent = 0, gc_DegradedAfter = 0, gc_OpenAfter = 0, gc_OpenCooldown = 0 \<rparr>"

theorem open_circuit_refuses_witness:
  "\<exists>l g'. gate_Acquire 30000000010 ''gh'' (fst (gate_runs outage (NewProviderGate no_config, []))) = (Inr l, g')
    \<and> 10 + gc_OpenCooldown (gate_withDefaults no_config) \<le> 30000000010 \<and> pl_probe l"
proof -
  let ?a = "gate_Acquire 30000000010 ''gh'' (fst (gate_runs outage (NewProviderGate no_config, [])))"
  have "streak ''gh'' outage = (10, Some 10)" "gc_OpenAfter (gate_withDefaults no_config) \<le> 10" "isl (fst ?a) = False"
    by code_simp+
  moreover from this(3) obtain l where "fst ?a = Inr l"
    by (cases "fst ?a") simp_all
  then have "?a = (Inr l, snd ?a)"
    by (simp add: prod_eq_iff)
  ultimately show ?thesis
    using open_circuit_refuses by metis
qed

text \<open>
  Two gaps the interleavings show: a call that returns just before the executor declares it wedged
  leaves the wedged counter up for ever, and an ambiguous outcome of an older call lets a second probe
  in while the first is still running.
\<close>

lemma late_wedge_is_never_cleared:
  "live_wedged ''gh'' (snd (gate_runs [OpAcquire 0 ''gh'', OpRelease 0, OpMarkWedged 0, OpRelease 0] (NewProviderGate no_config, []))) = 0
   \<and> ps_wedged (provider_state_of (fst (gate_runs [OpAcquire 0 ''gh'', OpRelease 0, OpMarkWedged 0, OpRelease 0] (NewProviderGate no_config, []))) ''gh'') = 1"
  by code_simp

definition two_probes :: "gate_op list" where
  "two_probes = outage @ [OpAcquire 30000000010 ''gh'', OpAmbiguous 30000000011 ''gh'' ''older call'', OpAcquire 60000000011 ''gh'']"

lemma two_probes_at_once:
  "map (\<lambda>l. (pl_probe l, pl_released l)) (snd (gate_runs two_probes (NewProviderGate no_config, []))) = [(True, False), (True, False)]"
  by code_simp

end
