(* ===== verification/StoreOperations.thy ===== *)
theory StoreOperations
  imports StoreProperties
begin

text \<open>
  What single method calls of the store do: when they succeed, what they leave behind, and that a
  call that reports an error has changed no record.

  A world is \<open>calm\<close> when no other writer and no fault intervenes during the call; the theorems that do
  not ask for a calm world hold under any schedule.
\<close>

section \<open>Calm worlds\<close>

definition calm :: "world \<Rightarrow> bool" where
  "calm w \<longleftrightarrow> w_ticks w = []"

lemma calm_bump [simp]: "calm (bump_by n c w) = calm w" "calm (w\<lparr>w_db := d\<rparr>) = calm w" "w_now (bump_by n c w) = w_now w"
  by (simp_all add: calm_def bump_by_def)

lemma next_tick_calm [simp]: "calm w \<Longrightarrow> next_tick w = (NoFault, w)"
  by (simp add: calm_def next_tick_def)

lemma query_calm [simp]: "calm w \<Longrightarrow> query q w = (Inr (q (w_now w) (w_db w)), w)"
  by (simp add: query_def)

lemma exec_calm:
  "calm w \<Longrightarrow> exec_tx body w =
    (case body (w_now w) (w_db w) of
       TxNoRows \<Rightarrow> (Inr None, w) | TxError \<Rightarrow> (Inl DriverError, w) | TxCommit d x \<Rightarrow> (Inr (Some x), w\<lparr>w_db := d\<rparr>))"
  by (simp add: exec_tx_def split: tx.split)

lemma checkEpoch_calm:
  "calm w \<Longrightarrow> checkEpoch s w =
    (if cm_epoch (w_db w) \<noteq> st_epoch s then (Some (LeaseErr ClusterEpochMismatch), bump epochRejections w) else (None, w))"
  by (simp add: checkEpoch_def)

lemma checkRecoveryMode_calm:
  "calm w \<Longrightarrow> checkRecoveryMode w =
    (if cm_recovery_required (w_db w) then (Some (LeaseErr ClusterRecoveryRequired), bump recoveryRejections w) else (None, w))"
  by (simp add: checkRecoveryMode_def)

lemma Lookup_calm:
  "calm w \<Longrightarrow> Lookup eid w =
    (case rows_of eid (w_db w) of [] \<Rightarrow> (Inl ErrNoRows, w) | er # _ \<Rightarrow> (Inr er, w))"
  by (simp add: Lookup_def first_row_def split: list.splits)

lemma LookupByKey_calm:
  "calm w \<Longrightarrow> LookupByKey p c k w =
    (case filter (\<lambda>er. key_of er = (p, c, k)) (execution_requests (w_db w)) of
       [] \<Rightarrow> (Inl ErrNoRows, w) | er # _ \<Rightarrow> (Inr er, w))"
  by (simp add: LookupByKey_def first_row_def split: list.splits)

lemma note_calm:
  "calm w \<Longrightarrow> calm (noteContentionEvent eid t meta w)
    \<and> execution_requests (w_db (noteContentionEvent eid t meta w)) = execution_requests (w_db w)"
  by (simp add: noteContentionEvent_def exec_calm tx_noteContentionEvent_def commit_event_def)

lemmas calm_simps = exec_calm checkEpoch_calm checkRecoveryMode_calm Lookup_calm LookupByKey_calm note_calm

section \<open>Errors\<close>

definition sum_error :: "(store_error + 'a) \<times> world \<Rightarrow> store_error option" where
  "sum_error r = (case fst r of Inl e \<Rightarrow> Some e | Inr _ \<Rightarrow> None)"

fun call_error :: "store \<Rightarrow> call \<Rightarrow> world \<Rightarrow> store_error option" where
  "call_error s (CallAcquire g t k p c dg a kl dur) w = sum_error (AcquireWithAuthority s g t k p c dg a kl dur w)"
| "call_error s (CallBeginExecution eid t g) w = fst (BeginExecution s eid t g w)"
| "call_error s (CallMarkInFlight eid t g p loc) w = fst (MarkInFlight s eid t g p loc w)"
| "call_error s (CallRenewLease eid t g dur) w = fst (RenewLease s eid t g dur w)"
| "call_error s (CallAbandonPreDispatch eid t g) w = fst (AbandonPreDispatch s eid t g w)"
| "call_error s (CallFinalize eid t g es r) w = fst (Finalize s eid t g es r w)"
| "call_error s (CallEnterRecovery eid es v) w = fst (EnterRecovery s eid es v w)"
| "call_error s (CallEnterRecoveryWithObservation eid es v obs) w = fst (EnterRecoveryWithObservation s eid es v obs w)"
| "call_error s (CallRecordProviderObservation eid t g obs) w = fst (RecordProviderObservation s eid t g obs w)"
| "call_error s (CallRecoverExpiredPreDispatch eid v) w = fst (RecoverExpiredPreDispatch s eid v w)"
| "call_error s (CallScrubStaleRecoveryLocators older) w = sum_error (ScrubStaleRecoveryLocators s older w)"
| "call_error s (CallResolveRecovery eid v res) w = fst (ResolveRecovery s eid v res w)"
| "call_error s (CallClaimUnknownBatch owner n dur) w = sum_error (ClaimUnknownBatch s owner n dur w)"
| "call_error s (CallClaimExpiredBatch owner n dur) w = sum_error (ClaimExpiredBatch s owner n dur w)"
| "call_error s (CallReleaseReconcileClaim eid v bo le) w = fst (ReleaseReconcileClaim s eid v bo le w)"
| "call_error s (CallSuspendReconciliation eid v reason) w = fst (SuspendReconciliation s eid v reason w)"
| "call_error s (CallRenewReconcileClaim eid v dur) w = fst (RenewReconcileClaim s eid v dur w)"
| "call_error s (CallAdvanceClusterEpoch e reason) w = sum_error (AdvanceClusterEpoch e reason w)"
| "call_error s (CallCompleteClusterRecovery e resolution) w = fst (CompleteClusterRecovery e resolution w)"

definition rows_kept :: "world \<Rightarrow> world \<Rightarrow> bool" where
  "rows_kept w w' \<longleftrightarrow> execution_requests (w_db w') = execution_requests (w_db w)"

lemma rows_kept_simps [simp]:
  "rows_kept w w" "rows_kept w (bump_by n c w') = rows_kept w w'" "rows_kept (bump_by n c w) w' = rows_kept w w'"
  by (simp_all add: rows_kept_def)

lemma kept_note: "calm w \<Longrightarrow> rows_kept w (noteContentionEvent eid t meta w)"
  by (simp add: rows_kept_def note_calm)

lemma kept_classify_lease: "calm w \<Longrightarrow> rows_kept w (snd (classify_lease eid t g a b rec w))"
  by (simp add: classify_lease_def kept_note)

lemma kept_classify:
  assumes "calm w"
  shows "rows_kept w (snd (classifyTransitionFailure s eid t g es w))"
    and "rows_kept w (snd (classifyRenewalFailure s eid t g w))"
    and "rows_kept w (snd (classifyAbandonFailure s eid t g w))"
    and "rows_kept w (snd (classifyEnterRecoveryFailure s eid es v w))"
    and "rows_kept w (snd (classifyObservationFailure s eid t g w))"
    and "rows_kept w (snd (claim_lost s eid m w))"
    and "rows_kept w (snd (resolve_failure s eid v w))"
  using assms kept_classify_lease [of "bump fenceRejections w"] kept_note [of "bump fenceRejections w"]
  by (simp_all add: classifyTransitionFailure_def classifyRenewalFailure_def classifyAbandonFailure_def
      classifyEnterRecoveryFailure_def classifyObservationFailure_def claim_lost_def resolve_failure_def
      checkEpoch_calm Lookup_calm kept_note split: list.split)

lemma kept_classify_eq:
  assumes "calm w"
  shows "classifyTransitionFailure s eid t g es w = (e, w') \<Longrightarrow> rows_kept w w'"
    and "classifyRenewalFailure s eid t g w = (e, w') \<Longrightarrow> rows_kept w w'"
    and "classifyAbandonFailure s eid t g w = (e, w') \<Longrightarrow> rows_kept w w'"
    and "classifyEnterRecoveryFailure s eid es v w = (e, w') \<Longrightarrow> rows_kept w w'"
    and "classifyObservationFailure s eid t g w = (e, w') \<Longrightarrow> rows_kept w w'"
  using kept_classify [OF assms] by (metis snd_conv)+

lemma kept_finalize_failure: "calm w \<Longrightarrow> rows_kept w (snd (finalize_failure s eid t g es r rd w))"
  by (auto simp: finalize_failure_def Lookup_calm kept_classify_eq split: list.split prod.split)

lemma kept_stages:
  assumes "calm w"
  shows "sum_error (acquire_unleased_stage s k t dur rec w) \<noteq> None \<Longrightarrow> rows_kept w (snd (acquire_unleased_stage s k t dur rec w))"
  using assms
  by (auto simp: acquire_unleased_stage_def acquireUnleased_def acquire_held_def refetch_def calm_simps sum_error_def
      split: tx.splits if_splits list.splits option.splits)

lemma kept_in_flight_stage:
  assumes "calm w"
  shows "sum_error (acquire_in_flight_stage s k t dur rec w) \<noteq> None \<Longrightarrow> rows_kept w (snd (acquire_in_flight_stage s k t dur rec w))"
  using assms kept_stages [OF assms]
  by (auto simp: acquire_in_flight_stage_def markInFlightExpiredAsUnknown_def refetch_def calm_simps sum_error_def
      split: tx.splits if_splits list.splits option.splits)

lemma kept_reclaim_stage:
  assumes "calm w"
  shows "sum_error (acquire_reclaim_stage s k t dur rec w) \<noteq> None \<Longrightarrow> rows_kept w (snd (acquire_reclaim_stage s k t dur rec w))"
  using assms kept_in_flight_stage [OF assms]
  by (auto simp: acquire_reclaim_stage_def reclaimExpiredLease_def refetch_def calm_simps sum_error_def
      split: tx.splits if_splits list.splits option.splits)

lemma kept_acquire:
  assumes "calm w" "sum_error (AcquireWithAuthority s g t k p c dg a kl dur w) \<noteq> None"
  shows "rows_kept w (snd (AcquireWithAuthority s g t k p c dg a kl dur w))"
  using assms kept_reclaim_stage [OF assms(1)]
  by (auto simp: AcquireWithAuthority_def acquire_existing_def calm_simps sum_error_def
      split: tx.splits if_splits list.splits option.splits)

lemma kept_transitions:
  assumes "calm w"
  shows "fst (BeginExecution s eid t g w) \<noteq> None \<Longrightarrow> rows_kept w (snd (BeginExecution s eid t g w))"
    and "fst (MarkInFlight s eid t g pr loc w) \<noteq> None \<Longrightarrow> rows_kept w (snd (MarkInFlight s eid t g pr loc w))"
    and "fst (RenewLease s eid t g dur w) \<noteq> None \<Longrightarrow> rows_kept w (snd (RenewLease s eid t g dur w))"
    and "fst (AbandonPreDispatch s eid t g w) \<noteq> None \<Longrightarrow> rows_kept w (snd (AbandonPreDispatch s eid t g w))"
  using assms
  by (auto simp: BeginExecution_def leaseFencedTransition_def MarkInFlight_def RenewLease_def AbandonPreDispatch_def
      exec_calm kept_classify_eq split: tx.splits if_splits option.splits sum.splits prod.splits)

lemma kept_recovery:
  assumes "calm w"
  shows "fst (EnterRecovery s eid es v w) \<noteq> None \<Longrightarrow> rows_kept w (snd (EnterRecovery s eid es v w))"
    and "fst (EnterRecoveryWithObservation s eid es v obs w) \<noteq> None
      \<Longrightarrow> rows_kept w (snd (EnterRecoveryWithObservation s eid es v obs w))"
    and "fst (RecordProviderObservation s eid t g obs w) \<noteq> None
      \<Longrightarrow> rows_kept w (snd (RecordProviderObservation s eid t g obs w))"
    and "fst (RecoverExpiredPreDispatch s eid v w) \<noteq> None \<Longrightarrow> rows_kept w (snd (RecoverExpiredPreDispatch s eid v w))"
    and "sum_error (ScrubStaleRecoveryLocators s older w) \<noteq> None
      \<Longrightarrow> rows_kept w (snd (ScrubStaleRecoveryLocators s older w))"
  using assms
  by (auto simp: EnterRecovery_def EnterRecoveryWithObservation_def RecordProviderObservation_def
      RecoverExpiredPreDispatch_def ScrubStaleRecoveryLocators_def tx_ScrubStaleRecoveryLocators_def
      exec_calm checkEpoch_calm kept_classify_eq sum_error_def split: tx.splits if_splits option.splits sum.splits prod.splits)

lemma kept_terminal:
  assumes "calm w"
  shows "fst (Finalize s eid t g es r w) \<noteq> None \<Longrightarrow> rows_kept w (snd (Finalize s eid t g es r w))"
    and "fst (ResolveRecovery s eid v res w) \<noteq> None \<Longrightarrow> rows_kept w (snd (ResolveRecovery s eid v res w))"
  using assms kept_finalize_failure kept_classify(7)
  by (auto simp: Finalize_def ResolveRecovery_def resolve_definitive_def Let_def exec_calm checkEpoch_calm Lookup_calm
      split: tx.splits if_splits option.splits sum.splits list.splits recovery_decision.splits store_error.splits)

lemma kept_claims:
  assumes "calm w"
  shows "sum_error (ClaimUnknownBatch s owner n dur w) \<noteq> None \<Longrightarrow> rows_kept w (snd (ClaimUnknownBatch s owner n dur w))"
    and "sum_error (ClaimExpiredBatch s owner n dur w) \<noteq> None \<Longrightarrow> rows_kept w (snd (ClaimExpiredBatch s owner n dur w))"
    and "fst (ReleaseReconcileClaim s eid v bo le w) \<noteq> None \<Longrightarrow> rows_kept w (snd (ReleaseReconcileClaim s eid v bo le w))"
    and "fst (SuspendReconciliation s eid v reason w) \<noteq> None \<Longrightarrow> rows_kept w (snd (SuspendReconciliation s eid v reason w))"
    and "fst (RenewReconcileClaim s eid v dur w) \<noteq> None \<Longrightarrow> rows_kept w (snd (RenewReconcileClaim s eid v dur w))"
    and "sum_error (AdvanceClusterEpoch e reason w) \<noteq> None \<Longrightarrow> rows_kept w (snd (AdvanceClusterEpoch e reason w))"
    and "fst (CompleteClusterRecovery e reason w) \<noteq> None \<Longrightarrow> rows_kept w (snd (CompleteClusterRecovery e reason w))"
  using assms kept_classify(6)
  by (auto simp: ClaimUnknownBatch_def ClaimExpiredBatch_def ReleaseReconcileClaim_def SuspendReconciliation_def
      RenewReconcileClaim_def AdvanceClusterEpoch_def CompleteClusterRecovery_def
      exec_calm checkEpoch_calm sum_error_def split: tx.splits if_splits)

text \<open>
  C13. Errors are clean: a call that reports an error, with no other writer and no fault in between,
  has not changed any record, whichever method and whichever of its error paths it was.
\<close>

theorem errors_change_no_record:
  assumes "calm w" "call_error s c w \<noteq> None"
  shows "execution_requests (w_db (run_call s c w)) = execution_requests (w_db w)"
proof -
  have "rows_kept w (run_call s c w)"
    using assms(2)
    by (cases c) (simp_all add: kept_acquire [OF assms(1)] kept_transitions [OF assms(1)] kept_recovery [OF assms(1)]
        kept_terminal [OF assms(1)] kept_claims [OF assms(1)])
  then show ?thesis
    by (simp add: rows_kept_def)
qed

theorem errors_change_no_record_witness:
  "call_error sample_store (CallMarkInFlight ''x1'' ''stale'' 1 ''prov'' []) prepared_world = Some (LeaseErr LeaseStateConflict)
   \<and> execution_requests (w_db (run_call sample_store (CallMarkInFlight ''x1'' ''stale'' 1 ''prov'' []) prepared_world))
       = execution_requests (w_db prepared_world)"
proof -
  have "calm prepared_world"
      "call_error sample_store (CallMarkInFlight ''x1'' ''stale'' 1 ''prov'' []) prepared_world = Some (LeaseErr LeaseStateConflict)"
    by code_simp+
  then show ?thesis
    using errors_change_no_record [of prepared_world sample_store "CallMarkInFlight ''x1'' ''stale'' 1 ''prov'' []"] by simp
qed

end
