(* ===== verification/Dispatch.thy ===== *)
theory Dispatch
  imports ExecTypes ProviderGate RegistryDigest StoreOperations
begin

text \<open>
  The dispatch executor (\<^verbatim>\<open>internal/execution/dispatch.go\<close>, \<^verbatim>\<open>provider_caps.go\<close>): durable idempotency
  around one provider call.  The executor's world is the store's world, the provider gate and the list
  of provider calls made so far, each with the database as it was at the call.

  What the environment decides during one call is the record \<open>call_env\<close>: random identifiers, clock
  readings, what concurrent calls did to the gate, the adapter, how its answer arrived relative to the
  ceiling and the grace, and the crash point at which the process dies, if any; the result is then
  \<open>None\<close>.  Heartbeats are other writers of the store's world.

  An error text is stored or hashed only when the adapter supplied it or when it reports an expired
  deadline; that text is exact.  The other texts are given without the rendered error value they end
  with.
\<close>

section \<open>Executor\<close>

record executor_timeouts =
  xt_ObservationPersistence :: int
  xt_Terminalization :: int
  xt_EmergencyRecovery :: int
  xt_LeaseOperation :: int
  xt_ProviderExecution :: int
  xt_ProviderExecutionGrace :: int

definition DefaultExecutorTimeouts :: executor_timeouts where
  "DefaultExecutorTimeouts =
    \<lparr> xt_ObservationPersistence = 5 * 1000000000, xt_Terminalization = 5 * 1000000000,
      xt_EmergencyRecovery = 5 * 1000000000, xt_LeaseOperation = 3 * 1000000000,
      xt_ProviderExecution = 5 * 60 * 1000000000, xt_ProviderExecutionGrace = 2 * 1000000000 \<rparr>"

definition timeouts_withDefaults :: "executor_timeouts \<Rightarrow> executor_timeouts" where
  "timeouts_withDefaults t =
    (let d = DefaultExecutorTimeouts in
     \<lparr> xt_ObservationPersistence = (if xt_ObservationPersistence t \<le> 0 then xt_ObservationPersistence d else xt_ObservationPersistence t),
       xt_Terminalization = (if xt_Terminalization t \<le> 0 then xt_Terminalization d else xt_Terminalization t),
       xt_EmergencyRecovery = (if xt_EmergencyRecovery t \<le> 0 then xt_EmergencyRecovery d else xt_EmergencyRecovery t),
       xt_LeaseOperation = (if xt_LeaseOperation t \<le> 0 then xt_LeaseOperation d else xt_LeaseOperation t),
       xt_ProviderExecution = (if xt_ProviderExecution t \<le> 0 then xt_ProviderExecution d else xt_ProviderExecution t),
       xt_ProviderExecutionGrace = (if xt_ProviderExecutionGrace t \<le> 0 then xt_ProviderExecutionGrace d else xt_ProviderExecutionGrace t) \<rparr>)"

definition requestDigestProtocolVersion :: int where
  "requestDigestProtocolVersion = 1"

definition recoveryCASMaxAttempts :: nat where
  "recoveryCASMaxAttempts = 3"

datatype crash_point =
    CrashAfterAcquire
  | CrashAfterBeginExecution
  | CrashAfterMarkInFlight
  | CrashBeforeProvider
  | CrashAfterProvider
  | CrashBeforeObservation
  | CrashAfterObservation
  | CrashBeforeFinalize
  | CrashAfterFinalize
  | CrashBeforeRecovery
  | CrashAfterRecovery

record executor =
  ex_store :: "store option"
  ex_signer :: "(bytes \<times> (bytes \<Rightarrow> bytes)) option"
  ex_timeouts :: executor_timeouts

text \<open>How the answer arrives: before the dispatch context ends, within the grace after it, or not.\<close>

datatype arrival = InTime response | InGrace response | NoAnswer

record handler =
  hd_Execute :: "request \<Rightarrow> resolved_descriptor \<Rightarrow> string \<Rightarrow> arrival"
  hd_Capabilities :: "(string \<Rightarrow> provider_capabilities) option"
  hd_PrepareRecovery :: "(string \<Rightarrow> recovery_locator_input \<Rightarrow> string + recovery_locator option) option"

record call_env =
  ce_genID :: string
  ce_token :: string
  ce_legacyID :: string
  ce_legacyToken :: string
  ce_preflight :: int
  ce_gateNow :: int
  ce_dispatchNow :: int
  ce_outcomeNow :: int
  ce_gateOthers :: "gate \<Rightarrow> gate"
  ce_handler :: handler
  ce_issuedAt :: string
  ce_crash :: "crash_point option"

record invocation =
  iv_request :: request
  iv_descriptor :: resolved_descriptor
  iv_token :: string
  iv_db :: db

record xstate =
  xs_world :: world
  xs_gate :: gate
  xs_invocations :: "invocation list"

record dispatch_outcome =
  do_Response :: response
  do_ProviderInvoked :: bool
  do_ProvableNoEffect :: bool
  do_TimedOut :: bool

section \<open>Provider capabilities and locators\<close>

definition providerCapsFor :: "handler \<Rightarrow> string \<Rightarrow> provider_capabilities option" where
  "providerCapsFor h adapterID = map_option (\<lambda>caps. caps adapterID) (hd_Capabilities h)"

definition checkCriticalProviderCapability :: "handler \<Rightarrow> resolved_descriptor \<Rightarrow> response option" where
  "checkCriticalProviderCapability h desc =
    (if rd_ExecutionClass desc \<noteq> ClassCritical then None
     else
       (let denied = Some (response_of StatusDenied FailureAdmissionDenied ''CRITICAL admission denied'') in
        case providerCapsFor h (rd_AdapterID desc) of
          Some caps \<Rightarrow>
            if pc_SupportsCompletionProof caps \<and> pc_SupportsNonexecutionProof caps then None else denied
        | None \<Rightarrow> denied))"

definition genericRecoveryLocator :: "request \<Rightarrow> resolved_descriptor \<Rightarrow> string \<Rightarrow> string \<Rightarrow> recovery_locator" where
  "genericRecoveryLocator req desc digest executionID =
    \<lparr> rl_Version = 1, rl_ProviderID = rd_AdapterID desc, rl_Strategy = ''metadata'', rl_ExternalToken = [],
      rl_ResourceRef = [], rl_RequestDigest = digest, rl_ExecutionID = executionID,
      rl_PrincipalID = ra_Principal (rq_Authority req), rl_CapabilityID = rq_Capability req,
      rl_IdempotencyKey = rq_IdempotencyKey req, rl_Extensions = [] \<rparr>"

definition prepareRecoveryLocator ::
    "handler \<Rightarrow> request \<Rightarrow> resolved_descriptor \<Rightarrow> string \<Rightarrow> string \<Rightarrow> string + recovery_locator" where
  "prepareRecoveryLocator h req desc digest executionID =
    (case hd_PrepareRecovery h of
       None \<Rightarrow> Inr (genericRecoveryLocator req desc digest executionID)
     | Some prepare \<Rightarrow>
         (case prepare (rd_AdapterID desc)
                 \<lparr> li_ExecutionID = executionID, li_AdapterID = rd_AdapterID desc, li_CapabilityID = rq_Capability req,
                   li_Principal = ra_Principal (rq_Authority req), li_IdempotencyKey = rq_IdempotencyKey req,
                   li_RequestDigest = digest, li_Arguments = rq_Arguments req \<rparr> of
            Inl e \<Rightarrow> Inl e
          | Inr None \<Rightarrow> Inr (genericRecoveryLocator req desc digest executionID)
          | Inr (Some l) \<Rightarrow> Inr l))"

section \<open>Deadlines, gate and provider call\<close>

definition deadlineExpired :: "string \<Rightarrow> int \<Rightarrow> bool" where
  "deadlineExpired deadline now \<longleftrightarrow>
    (if deadline = [] then False
     else (case parse_time deadline of None \<Rightarrow> False | Some t \<Rightarrow> \<not> now < t))"

definition deadline_response :: "string \<Rightarrow> response" where
  "deadline_response deadline =
    (response_of StatusFailed FailureInvalidRequest (''request deadline '' @ deadline @ '' already passed''))
      \<lparr>rs_DefinitiveFailure := True\<rparr>"

definition providerRefusedResponse :: response where
  "providerRefusedResponse =
    (response_of StatusFailed FailureCapabilityUnavailable ''provider refused before dispatch'')\<lparr>rs_DefinitiveFailure := True\<rparr>"

definition providerCeilingResponse :: "resolved_descriptor \<Rightarrow> response" where
  "providerCeilingResponse desc =
    (if rd_ExecutionClass desc = ClassPure \<or> rd_ExecutionClass desc = ClassRead
     then response_of StatusFailed FailureExecutionFailed ''provider execution exceeded the framework ceiling''
     else response_of StatusUnknown FailureExecutionUnknown ''provider execution exceeded the framework ceiling'')"

definition gate_acquire :: "call_env \<Rightarrow> string \<Rightarrow> xstate \<Rightarrow> (gate_error + provider_lease) \<times> xstate" where
  "gate_acquire ce adapterID x =
    (case gate_Acquire (ce_gateNow ce) adapterID (ce_gateOthers ce (xs_gate x)) of
       (r, g) \<Rightarrow> (r, x\<lparr>xs_gate := g\<rparr>))"

definition release :: "provider_lease \<Rightarrow> xstate \<Rightarrow> xstate" where
  "release l x = x\<lparr>xs_gate := snd (lease_Release l (xs_gate x))\<rparr>"

definition invoked :: "response \<Rightarrow> bool \<Rightarrow> dispatch_outcome" where
  "invoked resp timedOut =
    \<lparr> do_Response = resp, do_ProviderInvoked = True, do_ProvableNoEffect = False, do_TimedOut = timedOut \<rparr>"

definition not_invoked :: "response \<Rightarrow> dispatch_outcome" where
  "not_invoked resp =
    \<lparr> do_Response = resp, do_ProviderInvoked = False, do_ProvableNoEffect = True, do_TimedOut = False \<rparr>"

text \<open>\<open>None\<close> is a call that never returns, possible only without a ceiling.\<close>

definition call_provider ::
    "executor \<Rightarrow> call_env \<Rightarrow> request \<Rightarrow> resolved_descriptor \<Rightarrow> string \<Rightarrow> provider_lease \<Rightarrow> xstate
      \<Rightarrow> dispatch_outcome option \<times> xstate" where
  "call_provider ex ce req desc token lease x0 =
    (let x = x0\<lparr>xs_invocations := xs_invocations x0
                  @ [\<lparr> iv_request = req, iv_descriptor = desc, iv_token = token, iv_db = w_db (xs_world x0) \<rparr>]\<rparr> in
     case hd_Execute (ce_handler ce) req desc token of
       InTime resp \<Rightarrow> (Some (invoked resp False), release lease x)
     | InGrace resp \<Rightarrow>
         if xt_ProviderExecution (ex_timeouts ex) \<le> 0 then (Some (invoked resp False), release lease x)
         else (Some (invoked resp False), release lease (x\<lparr>xs_gate := MarkTimeout lease (xs_gate x)\<rparr>))
     | NoAnswer \<Rightarrow>
         if xt_ProviderExecution (ex_timeouts ex) \<le> 0 then (None, x)
         else
           (Some (invoked (providerCeilingResponse desc) True),
            x\<lparr>xs_gate := snd (MarkWedged lease (MarkTimeout lease (xs_gate x)))\<rparr>))"

definition dispatch_leased ::
    "executor \<Rightarrow> call_env \<Rightarrow> request \<Rightarrow> resolved_descriptor \<Rightarrow> string \<Rightarrow> provider_lease \<Rightarrow> xstate
      \<Rightarrow> dispatch_outcome option \<times> xstate" where
  "dispatch_leased ex ce req desc token lease x =
    (if deadlineExpired (rq_Deadline req) (ce_dispatchNow ce)
     then (Some (not_invoked (deadline_response (rq_Deadline req))), release lease x)
     else call_provider ex ce req desc token lease x)"

definition dispatch ::
    "executor \<Rightarrow> call_env \<Rightarrow> request \<Rightarrow> resolved_descriptor \<Rightarrow> string \<Rightarrow> provider_lease option \<Rightarrow> xstate
      \<Rightarrow> dispatch_outcome option \<times> xstate" where
  "dispatch ex ce req desc token lease x =
    (case lease of
       Some l \<Rightarrow> dispatch_leased ex ce req desc token l x
     | None \<Rightarrow>
         (case gate_acquire ce (rd_AdapterID desc) x of
            (Inl e, x1) \<Rightarrow> (Some (not_invoked (providerRefusedResponse)), x1)
          | (Inr l, x1) \<Rightarrow> dispatch_leased ex ce req desc token l x1))"

section \<open>Decision table and observation\<close>

definition unknown_response :: "string \<Rightarrow> response \<Rightarrow> state \<times> response" where
  "unknown_response reason resp =
    (StateUnknown, (response_of StatusUnknown FailureExecutionUnknown reason)\<lparr>rs_Execution := rs_Execution resp\<rparr>)"

definition classifyPostDispatch :: "response \<Rightarrow> resolved_descriptor \<Rightarrow> state \<times> response" where
  "classifyPostDispatch resp desc =
    (if ExecutionClass_RequiresEvidence (rd_ExecutionClass desc) \<and> rs_Status resp = StatusSucceeded then
       (case rs_Evidence resp of
          None \<Rightarrow> unknown_response ''CRITICAL capability returned SUCCEEDED without evidence digest (post-dispatch uncertainty)'' resp
        | Some ev \<Rightarrow>
            if eref_Digest ev = [] then
              unknown_response ''CRITICAL capability returned SUCCEEDED without evidence digest (post-dispatch uncertainty)'' resp
            else if \<not> isValidEvidenceDigest (eref_Digest ev) then
              unknown_response ''CRITICAL capability returned invalid evidence digest (post-dispatch uncertainty)'' resp
            else if eref_ReceiptVersion ev \<noteq> 3 then
              unknown_response (''CRITICAL capability returned receipt_version '' @ show_int (eref_ReceiptVersion ev)
                                @ '' (must be 3, post-dispatch uncertainty)'') resp
            else
              (case rs_Execution resp of
                 None \<Rightarrow> unknown_response ''CRITICAL capability returned SUCCEEDED without run_id (post-dispatch uncertainty)'' resp
               | Some m \<Rightarrow>
                   if em_RunID m = [] then
                     unknown_response ''CRITICAL capability returned SUCCEEDED without run_id (post-dispatch uncertainty)'' resp
                   else (StateCommitted, resp)))
     else if rs_Status resp = StatusSucceeded then (StateCommitted, resp)
     else if rs_Status resp = StatusFailed then
       (if rs_DefinitiveFailure resp then (StateFailed, resp) else (StateUnknown, resp))
     else (StateUnknown, resp))"

definition observeProviderOutcome :: "call_env \<Rightarrow> resolved_descriptor \<Rightarrow> dispatch_outcome \<Rightarrow> state \<Rightarrow> xstate \<Rightarrow> xstate" where
  "observeProviderOutcome ce desc out st x =
    (if \<not> do_ProviderInvoked out then x
     else if st = StateUnknown then
       x\<lparr>xs_gate := RecordAmbiguous (ce_outcomeNow ce) (rd_AdapterID desc) ''post-dispatch ambiguity (UNKNOWN)'' (xs_gate x)\<rparr>
     else if do_TimedOut out then
       x\<lparr>xs_gate := RecordAmbiguous (ce_outcomeNow ce) (rd_AdapterID desc) ''provider exceeded the executor ceiling'' (xs_gate x)\<rparr>
     else x\<lparr>xs_gate := RecordSuccess (rd_AdapterID desc) (xs_gate x)\<rparr>)"

definition buildObservation :: "response \<Rightarrow> resolved_descriptor \<Rightarrow> provider_observation" where
  "buildObservation resp desc =
    \<lparr> po_ProviderID = (case rs_Execution resp of
         Some m \<Rightarrow> if em_Provider m \<noteq> [] then em_Provider m else rd_AdapterID desc | None \<Rightarrow> rd_AdapterID desc),
      po_ProviderRunID = (case rs_Execution resp of Some m \<Rightarrow> em_RunID m | None \<Rightarrow> []),
      po_ProviderStatus = rs_Status resp,
      po_Result = rs_Result resp,
      po_ResultDigest = [],
      po_EvidenceDigest = (case rs_Evidence resp of Some ev \<Rightarrow> eref_Digest ev | None \<Rightarrow> []),
      po_ReceiptVersion = (case rs_Evidence resp of Some ev \<Rightarrow> eref_ReceiptVersion ev | None \<Rightarrow> 0) \<rparr>"

text \<open>
  The evidence boundary: an executor-proved no-effect failure gets a synthesised artifact, and the
  digest is recomputed from the artifact or dropped.
\<close>

definition synthesized_artifact :: "response \<Rightarrow> bytes" where
  "synthesized_artifact resp =
    object_text [(''definitive_failure'', quote_string ''true''), (''error'', quote_string (rs_Error resp)),
                 (''failure_code'', quote_string (rs_FailureCode resp))]"

definition attested_response :: "crypto \<Rightarrow> response \<Rightarrow> bool \<Rightarrow> response" where
  "attested_response C resp provableNoEffect =
    (let artifact = (if rs_EvidenceArtifact resp = [] \<and> rs_DefinitiveFailure resp \<and> provableNoEffect
                     then synthesized_artifact resp else rs_EvidenceArtifact resp) in
     resp\<lparr>rs_EvidenceArtifact := artifact,
          rs_Evidence :=
            (if artifact \<noteq> [] then
               Some ((case rs_Evidence resp of Some ev \<Rightarrow> ev | None \<Rightarrow> \<lparr> eref_Digest = [], eref_ReceiptVersion = 3 \<rparr>)
                       \<lparr>eref_Digest := sha256_hex C artifact\<rparr>)
             else None)\<rparr>)"

definition parseEvidence :: "string \<Rightarrow> int \<Rightarrow> evidence_ref option" where
  "parseEvidence digest receiptVersion =
    (if digest = [] then None
     else Some \<lparr> eref_Digest = digest, eref_ReceiptVersion = (if 0 < receiptVersion then receiptVersion else 0) \<rparr>)"

definition stateToStatus :: "state \<Rightarrow> string" where
  "stateToStatus st =
    (if st = StateCommitted then StatusSucceeded
     else if st = StateFailed then StatusFailed
     else if st = StateDenied then StatusDenied
     else if st = StateUnknown then StatusUnknown
     else state_string st)"

section \<open>Recovery\<close>

datatype recovery_failure =
    RecoveryLookup store_error
  | RecoveryEntry store_error
  | RecoveryObservation store_error
  | RecoveryState state
  | RecoveryContended

definition on_store :: "(world \<Rightarrow> 'a \<times> world) \<Rightarrow> xstate \<Rightarrow> 'a \<times> xstate" where
  "on_store f x = (case f (xs_world x) of (r, w) \<Rightarrow> (r, x\<lparr>xs_world := w\<rparr>))"

definition dies :: "call_env \<Rightarrow> crash_point \<Rightarrow> bool" where
  "dies ce p \<longleftrightarrow> ce_crash ce = Some p"

text \<open>The result is \<open>None\<close> when the process dies, and otherwise the error, if any.\<close>

definition recovered :: "call_env \<Rightarrow> xstate \<Rightarrow> recovery_failure option option \<times> xstate" where
  "recovered ce x = (if dies ce CrashAfterRecovery then (None, x) else (Some None, x))"

fun recovery_attempts ::
    "nat \<Rightarrow> call_env \<Rightarrow> store \<Rightarrow> string \<Rightarrow> provider_observation \<Rightarrow> xstate \<Rightarrow> recovery_failure option option \<times> xstate" where
  "recovery_attempts 0 ce s executionID obs x = (Some (Some RecoveryContended), x)"
| "recovery_attempts (Suc n) ce s executionID obs x =
    (case on_store (Lookup executionID) x of
       (Inl e, x1) \<Rightarrow> (Some (Some (RecoveryLookup e)), x1)
     | (Inr rec, x1) \<Rightarrow>
         if er_state rec = StateInFlight then
           (case on_store (EnterRecoveryWithObservation s executionID StateInFlight (er_version rec) obs) x1 of
              (None, x2) \<Rightarrow> recovered ce x2
            | (Some e, x2) \<Rightarrow>
                if e \<noteq> LeaseErr LeaseStateConflict then (Some (Some (RecoveryEntry e)), x2)
                else recovery_attempts n ce s executionID obs x2)
         else if er_state rec = StateUnknown then
           (case on_store (RecordProviderObservation s executionID [] 0 obs) x1 of
              (Some e, x2) \<Rightarrow> (Some (Some (RecoveryObservation e)), x2)
            | (None, x2) \<Rightarrow> recovered ce x2)
         else if IsDurablyFinal (er_state rec) then (Some None, x1)
         else (Some (Some (RecoveryState (er_state rec))), x1))"

definition enterRecovery ::
    "call_env \<Rightarrow> store \<Rightarrow> string \<Rightarrow> response \<Rightarrow> resolved_descriptor \<Rightarrow> xstate \<Rightarrow> recovery_failure option option \<times> xstate" where
  "enterRecovery ce s executionID resp desc x =
    (if dies ce CrashBeforeRecovery then (None, x)
     else recovery_attempts recoveryCASMaxAttempts ce s executionID (buildObservation resp desc) x)"

definition uncertain :: "string \<Rightarrow> execution_meta \<Rightarrow> response" where
  "uncertain err m = (response_of StatusUnknown FailureExecutionUnknown err)\<lparr>rs_Execution := Some m\<rparr>"

text \<open>Enter recovery and answer \<open>UNKNOWN\<close>, whether or not the entry succeeded.\<close>

definition recover_uncertain ::
    "call_env \<Rightarrow> store \<Rightarrow> string \<Rightarrow> response \<Rightarrow> resolved_descriptor \<Rightarrow> string \<Rightarrow> execution_meta \<Rightarrow> xstate
      \<Rightarrow> response option \<times> xstate" where
  "recover_uncertain ce s executionID providerResp desc err m x =
    (case enterRecovery ce s executionID providerResp desc x of
       (None, x1) \<Rightarrow> (None, x1)
     | (Some _, x1) \<Rightarrow> (Some (uncertain err m), x1))"

section \<open>Finalisation\<close>

definition provider_of :: "response \<Rightarrow> resolved_descriptor \<Rightarrow> string" where
  "provider_of resp desc =
    (case rs_Execution resp of
       Some m \<Rightarrow> if em_Provider m \<noteq> [] then em_Provider m else rd_AdapterID desc
     | None \<Rightarrow> rd_AdapterID desc)"

definition run_of :: "response \<Rightarrow> string" where
  "run_of resp = (case rs_Execution resp of Some m \<Rightarrow> em_RunID m | None \<Rightarrow> [])"

definition canonical_result :: "state \<Rightarrow> response \<Rightarrow> bytes" where
  "canonical_result st resp =
    (if rs_Result resp = [] \<and> st = StateFailed
     then object_text [(''error'', quote_string (rs_Error resp)), (''failure_code'', quote_string (rs_FailureCode resp))]
     else rs_Result resp)"

definition receipt_of ::
    "request \<Rightarrow> resolved_descriptor \<Rightarrow> string \<Rightarrow> string \<Rightarrow> state \<Rightarrow> response \<Rightarrow> terminal_receipt" where
  "receipt_of req desc digest executionID st resp =
    \<lparr> tr_ExecutionID = executionID, tr_Capability = rq_Capability req, tr_Principal = ra_Principal (rq_Authority req),
      tr_RequestDigest = digest, tr_TerminalStatus = st, tr_CanonicalResult = canonical_result st resp,
      tr_ProviderID = provider_of resp desc, tr_ProviderRunID = run_of resp,
      tr_EvidenceDigest = (case rs_Evidence resp of Some ev \<Rightarrow> eref_Digest ev | None \<Rightarrow> []),
      tr_ReceiptVersion = (case rs_Evidence resp of Some ev \<Rightarrow> eref_ReceiptVersion ev | None \<Rightarrow> 0),
      tr_EvidenceReceipt = [], tr_FinalizedAt = 0 \<rparr>"

definition outcome_binding :: "terminal_receipt \<Rightarrow> binding" where
  "outcome_binding receipt =
    \<lparr> bd_ExecutionID = tr_ExecutionID receipt, bd_Capability = tr_Capability receipt,
      bd_Principal = tr_Principal receipt, bd_RequestDigest = tr_RequestDigest receipt,
      bd_ProviderID = tr_ProviderID receipt, bd_ProviderRunID = tr_ProviderRunID receipt,
      bd_Outcome = (if tr_TerminalStatus receipt = StateFailed then OutcomeNoEffect else OutcomeCompleted),
      bd_EvidenceSHA256 = tr_EvidenceDigest receipt \<rparr>"

text \<open>The signed receipt, when the class and the artifact call for one and a signer is configured.\<close>

definition sign_receipt ::
    "executor \<Rightarrow> call_env \<Rightarrow> store \<Rightarrow> resolved_descriptor \<Rightarrow> response \<Rightarrow> terminal_receipt \<Rightarrow> evidence_error + terminal_receipt" where
  "sign_receipt ex ce s desc resp receipt =
    (case ex_signer ex of
       Some (pub, sign) \<Rightarrow>
         if rd_ExecutionClass desc = ClassCritical \<and> rs_EvidenceArtifact resp \<noteq> [] then
           (case Sign (st_crypto s) pub sign (ce_issuedAt ce) (outcome_binding receipt) of
              Inl e \<Rightarrow> Inl e
            | Inr signed \<Rightarrow> Inr (receipt\<lparr>tr_EvidenceReceipt := signed\<rparr>))
         else Inr receipt
     | None \<Rightarrow> Inr receipt)"

definition with_execution :: "resolved_descriptor \<Rightarrow> string \<Rightarrow> response \<Rightarrow> response" where
  "with_execution desc executionID resp =
    (case rs_Execution resp of
       None \<Rightarrow> resp\<lparr>rs_Execution := Some \<lparr> em_Provider = rd_AdapterID desc, em_RunID = executionID \<rparr>\<rparr>
     | Some _ \<Rightarrow> resp)"

definition finalize_stage ::
    "executor \<Rightarrow> call_env \<Rightarrow> store \<Rightarrow> request \<Rightarrow> resolved_descriptor \<Rightarrow> string \<Rightarrow> string \<Rightarrow> string
      \<Rightarrow> response \<Rightarrow> state \<Rightarrow> response \<Rightarrow> xstate \<Rightarrow> response option \<times> xstate" where
  "finalize_stage ex ce s req desc digest executionID leaseToken providerResp st resp x =
    (let meta = \<lparr> em_Provider = provider_of resp desc, em_RunID = run_of resp \<rparr> in
     case sign_receipt ex ce s desc resp (receipt_of req desc digest executionID st resp) of
       Inl e \<Rightarrow>
         recover_uncertain ce s executionID providerResp desc ''failed to sign CRITICAL evidence receipt'' meta x
     | Inr receipt \<Rightarrow>
         (case on_store (Lookup executionID) x of
            (Inl e, x1) \<Rightarrow>
              (Some (uncertain ''failed to lookup execution for finalize''
                       \<lparr> em_Provider = rd_AdapterID desc, em_RunID = executionID \<rparr>), x1)
          | (Inr rec, x1) \<Rightarrow>
              if dies ce CrashBeforeFinalize then (None, x1)
              else
                (case on_store (Finalize s executionID leaseToken (er_lease_generation rec) StateInFlight receipt) x1 of
                   (Some e, x2) \<Rightarrow>
                     recover_uncertain ce s executionID providerResp desc
                       ''failed to finalize execution after dispatch'' meta x2
                 | (None, x2) \<Rightarrow>
                     if dies ce CrashAfterFinalize then (None, x2)
                     else (Some (with_execution desc executionID resp), x2))))"

definition post_dispatch ::
    "executor \<Rightarrow> call_env \<Rightarrow> store \<Rightarrow> request \<Rightarrow> resolved_descriptor \<Rightarrow> string \<Rightarrow> string \<Rightarrow> string \<Rightarrow> int
      \<Rightarrow> dispatch_outcome \<Rightarrow> xstate \<Rightarrow> response option \<times> xstate" where
  "post_dispatch ex ce s req desc digest executionID leaseToken leaseGen out x =
    (let providerResp = attested_response (st_crypto s) (do_Response out) (do_ProvableNoEffect out);
         meta = \<lparr> em_Provider = rd_AdapterID desc, em_RunID = executionID \<rparr> in
     if dies ce CrashBeforeObservation then (None, x)
     else
       (case on_store (RecordProviderObservation s executionID leaseToken leaseGen (buildObservation providerResp desc)) x of
          (obsErr, x1) \<Rightarrow>
            if dies ce CrashAfterObservation then (None, x1)
            else
              (case classifyPostDispatch providerResp desc of
                 (st, resp) \<Rightarrow>
                   (let x2 = observeProviderOutcome ce desc out st x1 in
                    if st = StateUnknown then
                      recover_uncertain ce s executionID providerResp desc ''post-dispatch ambiguity'' meta x2
                    else if obsErr \<noteq> None then
                      recover_uncertain ce s executionID providerResp desc ''provider observation not persisted'' meta x2
                    else finalize_stage ex ce s req desc digest executionID leaseToken providerResp st resp x2))))"

section \<open>Before the dispatch boundary\<close>

definition abandonPreDispatch :: "store \<Rightarrow> string \<Rightarrow> string \<Rightarrow> int \<Rightarrow> xstate \<Rightarrow> xstate" where
  "abandonPreDispatch s executionID leaseToken leaseGen x =
    snd (on_store (AbandonPreDispatch s executionID leaseToken leaseGen) x)"

definition internal_error :: "string \<Rightarrow> response" where
  "internal_error err = response_of StatusFailed FailureInternalError err"

text \<open>The locator as the store gets it: prepared, encoded and within its bound.\<close>

definition encoded_locator :: "handler \<Rightarrow> request \<Rightarrow> resolved_descriptor \<Rightarrow> string \<Rightarrow> string \<Rightarrow> string + (recovery_locator \<times> bytes)" where
  "encoded_locator h req desc digest executionID =
    (case prepareRecoveryLocator h req desc digest executionID of
       Inl e \<Rightarrow> Inl ''failed to prepare recovery locator''
     | Inr locator \<Rightarrow>
         (case locator_json locator of
            None \<Rightarrow> Inl ''failed to marshal recovery locator''
          | Some raw \<Rightarrow>
              if int (length raw) > MaxRecoveryLocatorBytes then Inl ''recovery locator exceeds its bound''
              else Inr (locator, raw)))"

definition refuse :: "store \<Rightarrow> string \<Rightarrow> string \<Rightarrow> int \<Rightarrow> provider_lease \<Rightarrow> response \<Rightarrow> xstate \<Rightarrow> response option \<times> xstate" where
  "refuse s executionID leaseToken leaseGen lease resp x =
    (Some resp, release lease (abandonPreDispatch s executionID leaseToken leaseGen x))"

definition execute_leased ::
    "executor \<Rightarrow> call_env \<Rightarrow> store \<Rightarrow> request \<Rightarrow> resolved_descriptor \<Rightarrow> string \<Rightarrow> string \<Rightarrow> string \<Rightarrow> int
      \<Rightarrow> provider_lease \<Rightarrow> xstate \<Rightarrow> response option \<times> xstate" where
  "execute_leased ex ce s req desc digest executionID leaseToken leaseGen lease x =
    (case on_store (BeginExecution s executionID leaseToken leaseGen) x of
       (Some e, x1) \<Rightarrow> refuse s executionID leaseToken leaseGen lease (internal_error ''failed to begin execution'') x1
     | (None, x1) \<Rightarrow>
         if dies ce CrashAfterBeginExecution then (None, x1)
         else
           (case encoded_locator (ce_handler ce) req desc digest executionID of
              Inl err \<Rightarrow> refuse s executionID leaseToken leaseGen lease (internal_error err) x1
            | Inr (locator, raw) \<Rightarrow>
                (case on_store (MarkInFlight s executionID leaseToken leaseGen (rd_AdapterID desc) raw) x1 of
                   (Some e, x2) \<Rightarrow>
                     refuse s executionID leaseToken leaseGen lease (internal_error ''failed to transition to IN_FLIGHT'') x2
                 | (None, x2) \<Rightarrow>
                     if dies ce CrashAfterMarkInFlight \<or> dies ce CrashBeforeProvider then (None, x2)
                     else
                       (case dispatch ex ce req desc (rl_ExternalToken locator) (Some lease) x2 of
                          (None, x3) \<Rightarrow> (None, x3)
                        | (Some out, x3) \<Rightarrow>
                            if dies ce CrashAfterProvider then (None, x3)
                            else post_dispatch ex ce s req desc digest executionID leaseToken leaseGen out x3))))"

definition execute_acquired ::
    "executor \<Rightarrow> call_env \<Rightarrow> store \<Rightarrow> request \<Rightarrow> resolved_descriptor \<Rightarrow> string \<Rightarrow> string \<Rightarrow> string \<Rightarrow> int
      \<Rightarrow> xstate \<Rightarrow> response option \<times> xstate" where
  "execute_acquired ex ce s req desc digest executionID leaseToken leaseGen x =
    (if dies ce CrashAfterAcquire then (None, x)
     else if deadlineExpired (rq_Deadline req) (ce_preflight ce) then
       (Some (deadline_response (rq_Deadline req)), abandonPreDispatch s executionID leaseToken leaseGen x)
     else
       (case gate_acquire ce (rd_AdapterID desc) x of
          (Inl e, x1) \<Rightarrow> (Some providerRefusedResponse, abandonPreDispatch s executionID leaseToken leaseGen x1)
        | (Inr lease, x1) \<Rightarrow> execute_leased ex ce s req desc digest executionID leaseToken leaseGen lease x1))"

section \<open>Acquisition and replay\<close>

definition DefaultLeaseDuration :: int where
  "DefaultLeaseDuration = 5 * 60 * 1000000000"

definition lease_duration :: "store \<Rightarrow> int" where
  "lease_duration s =
    (if DefaultDuration (st_leaseCfg s) \<le> 0 then DefaultLeaseDuration else DefaultDuration (st_leaseCfg s))"

definition authority_of :: "request \<Rightarrow> authority_binding" where
  "authority_of req =
    \<lparr> ab_Ref = EffectiveAuthorityRef (rq_Authority req), ab_Generation = ra_AuthorityGeneration (rq_Authority req),
      ab_Digest = ra_AuthorityDigest (rq_Authority req) \<rparr>"

definition acquire_request ::
    "store \<Rightarrow> string \<Rightarrow> string \<Rightarrow> request \<Rightarrow> resolved_descriptor \<Rightarrow> string \<Rightarrow> xstate \<Rightarrow> (store_error + acquire_result) \<times> xstate" where
  "acquire_request s genID token req desc digest x =
    on_store (AcquireWithAuthority s genID token (rq_IdempotencyKey req) (ra_Principal (rq_Authority req))
      (rq_Capability req) digest (authority_of req) (rd_ExecutionClass desc) (lease_duration s)) x"

definition bound_digest :: "store \<Rightarrow> request \<Rightarrow> resolved_descriptor \<Rightarrow> string \<Rightarrow> json_error + string" where
  "bound_digest s req desc descriptorDigest =
    ComputeDigestFromRawWithDescriptor (st_crypto s) requestDigestProtocolVersion (ra_Principal (rq_Authority req))
      (rq_Capability req) (rq_Arguments req) (EffectiveAuthorityRef (rq_Authority req)) (rd_ExecutionClass desc)
      (ra_AuthorityGeneration (rq_Authority req)) (ra_AuthorityDigest (rq_Authority req))
      (rd_AssuranceProfile desc) (rd_ExecutionRoute desc) (rd_DescriptorVersion desc) descriptorDigest"

definition legacy_digest :: "store \<Rightarrow> request \<Rightarrow> resolved_descriptor \<Rightarrow> json_error + string" where
  "legacy_digest s req desc =
    ComputeDigestFromRawWithAuthority (st_crypto s) requestDigestProtocolVersion (ra_Principal (rq_Authority req))
      (rq_Capability req) (rq_Arguments req) (EffectiveAuthorityRef (rq_Authority req)) (rd_ExecutionClass desc)
      (ra_AuthorityGeneration (rq_Authority req)) (ra_AuthorityDigest (rq_Authority req))
      (rd_AssuranceProfile desc) (rd_ExecutionRoute desc)"

text \<open>The compatibility window: one retry with the digest of older records.\<close>

definition legacy_retry ::
    "call_env \<Rightarrow> store \<Rightarrow> request \<Rightarrow> resolved_descriptor \<Rightarrow> string \<Rightarrow> acquire_result \<Rightarrow> xstate \<Rightarrow> acquire_result \<times> xstate" where
  "legacy_retry ce s req desc digest acq x =
    (if ar_Kind acq \<noteq> IdempotencyConflict then (acq, x)
     else
       (case legacy_digest s req desc of
          Inl e \<Rightarrow> (acq, x)
        | Inr legacy \<Rightarrow>
            if legacy = digest then (acq, x)
            else
              (case acquire_request s (ce_legacyID ce) (ce_legacyToken ce) req desc legacy x of
                 (Inl e, x1) \<Rightarrow> (acq, x1)
               | (Inr legacyAcq, x1) \<Rightarrow> (legacyAcq, x1))))"

definition replay_response :: "resolved_descriptor \<Rightarrow> acquire_result \<Rightarrow> response" where
  "replay_response desc acq =
    (let rec = ar_Record acq;
         prov = str (er_provider_id rec);
         run = str (er_provider_run_id rec) in
     \<lparr> rs_Status = stateToStatus (ar_State acq), rs_FailureCode = [], rs_Result = str (er_result rec), rs_Error = [],
       rs_Evidence = parseEvidence (str (er_evidence_digest rec)) (er_receipt_version rec),
       rs_Execution = Some \<lparr> em_Provider = (if prov = [] then rd_AdapterID desc else prov),
                            em_RunID = (if run = [] then er_execution_id rec else run) \<rparr>,
       rs_DefinitiveFailure = False, rs_EvidenceArtifact = [] \<rparr>)"

definition held_response :: "resolved_descriptor \<Rightarrow> acquire_result \<Rightarrow> response" where
  "held_response desc acq =
    (let rec = ar_Record acq;
         prov = str (er_provider_id rec);
         run = str (er_provider_run_id rec);
         meta = \<lparr> em_Provider = (if prov = [] then rd_AdapterID desc else prov),
                  em_RunID = (if run = [] then er_execution_id rec else run) \<rparr> in
     if ar_Kind acq = RecoveryRequired then
       uncertain ''prior execution outcome is unknown and under reconciliation'' meta
     else (response_of StatusInFlight FailureInFlight [])\<lparr>rs_Execution := Some meta\<rparr>)"

definition execute_durable ::
    "executor \<Rightarrow> call_env \<Rightarrow> store \<Rightarrow> request \<Rightarrow> resolved_descriptor \<Rightarrow> string \<Rightarrow> xstate \<Rightarrow> response option \<times> xstate" where
  "execute_durable ex ce s req desc digest x =
    (case acquire_request s (ce_genID ce) (ce_token ce) req desc digest x of
       (Inl e, x1) \<Rightarrow> (Some (internal_error ''idempotency acquire failed''), x1)
     | (Inr acq0, x1) \<Rightarrow>
         (case legacy_retry ce s req desc digest acq0 x1 of
            (acq, x2) \<Rightarrow>
              if ar_Kind acq = IdempotencyConflict then
                (Some (response_of StatusDenied FailureIdempotencyConflict
                         ''same idempotency key used with different request''), x2)
              else if ar_Kind acq = TerminalReplay then (Some (replay_response desc acq), x2)
              else if \<not> Acquired acq then (Some (held_response desc acq), x2)
              else execute_acquired ex ce s req desc digest (er_execution_id (ar_Record acq)) (ar_LeaseToken acq)
                     (ar_Generation acq) x2))"

definition execute_unguarded ::
    "executor \<Rightarrow> call_env \<Rightarrow> request \<Rightarrow> resolved_descriptor \<Rightarrow> xstate \<Rightarrow> response option \<times> xstate" where
  "execute_unguarded ex ce req desc x =
    (case dispatch ex ce req desc [] None x of
       (None, x1) \<Rightarrow> (None, x1)
     | (Some out, x1) \<Rightarrow>
         (Some (do_Response out),
          observeProviderOutcome ce desc out (fst (classifyPostDispatch (do_Response out) desc)) x1))"

definition ExecuteWithIdempotency ::
    "executor \<Rightarrow> call_env \<Rightarrow> request \<Rightarrow> resolved_descriptor \<Rightarrow> xstate \<Rightarrow> response option \<times> xstate" where
  "ExecuteWithIdempotency ex ce req desc x =
    (if rd_ExecutionClass desc = ClassPure \<or> rd_ExecutionClass desc = ClassRead
     then execute_unguarded ex ce req desc x
     else
       (case ex_store ex of
          None \<Rightarrow> (Some (internal_error ''durable idempotency unavailable''), x)
        | Some s \<Rightarrow>
            (case checkCriticalProviderCapability (ce_handler ce) desc of
               Some denied \<Rightarrow> (Some denied, x)
             | None \<Rightarrow>
                 (case DescriptorDigest (st_crypto s) desc of
                    Inl e \<Rightarrow> (Some (internal_error ''failed to compute descriptor digest''), x)
                  | Inr descriptorDigest \<Rightarrow>
                      (case bound_digest s req desc descriptorDigest of
                         Inl e \<Rightarrow> (Some (internal_error ''failed to compute digest''), x)
                       | Inr digest \<Rightarrow> execute_durable ex ce s req desc digest x)))))"

section \<open>Lease heartbeat\<close>

text \<open>The renewal interval and duration of \<open>leaseHeartbeat\<close>; every tick of it is a \<open>RenewLease\<close>.\<close>

definition renew_duration :: "lease_config \<Rightarrow> int" where
  "renew_duration cfg =
    (let d = (if DefaultDuration cfg \<le> 0 then 5 * 60 * 1000000000 else DefaultDuration cfg) in
     if 0 < MaxDuration cfg \<and> MaxDuration cfg < d then MaxDuration cfg else d)"

definition renewal_interval :: "lease_config \<Rightarrow> int" where
  "renewal_interval cfg =
    (let d = renew_duration cfg;
         i = (if RenewalWindow cfg \<le> 0 \<or> d - RenewalWindow cfg \<le> 0 then trunc_div (wrap64 (d * 4)) 5
              else d - RenewalWindow cfg) in
     if i < 50 * 1000000 then 50 * 1000000 else i)"

definition heartbeat_tick :: "store \<Rightarrow> string \<Rightarrow> string \<Rightarrow> int \<Rightarrow> world \<Rightarrow> bool \<times> world" where
  "heartbeat_tick s executionID leaseToken leaseGeneration w =
    (case RenewLease s executionID leaseToken leaseGeneration (renew_duration (st_leaseCfg s)) w of
       (err, w1) \<Rightarrow> (err = None, w1))"

end
