(* ===== verification/StoreContracts.thy ===== *)
theory StoreContracts
  imports StoreOperations
begin

text \<open>
  The contracts of acquisition and dispatch: when \<open>MarkInFlight\<close> succeeds, what \<open>AcquireWithAuthority\<close>
  answers, and that a lease it grants is the one the record holds.
\<close>

section \<open>Crossing the dispatch boundary\<close>

lemma classify_is_error:
  "(case classifyTransitionFailure s eid t g es w of (e, w2) \<Rightarrow> (Some e, w2)) = (None, w') \<longleftrightarrow> False"
  by (simp split: prod.split)

lemma exec_tx_Some:
  "exec_tx body w = (Inr (Some x), w') \<longleftrightarrow>
    (\<exists>w1 d. next_tick w = (NoFault, w1) \<and> body (w_now w1) (w_db w1) = TxCommit d x \<and> w' = w1\<lparr>w_db := d\<rparr>)"
  by (auto simp: exec_tx_def split: prod.splits fault.splits tx.splits)

lemma guarded_event_commits:
  "guarded_update p f (commit_event now eid ev) d = TxCommit d' x \<longleftrightarrow>
    list_ex p (execution_requests d)
    \<and> d' = sqliteInsertEffectEvent now eid ev (d\<lparr>execution_requests := update_where p f (execution_requests d)\<rparr>)"
  by (auto simp: guarded_update_def commit_event_def rows_affected_def filter_empty_conv list_ex_iff)

lemma guarded_event_row:
  assumes "guarded_update p f (commit_event now eid ev) d = TxCommit d' x"
  obtains er where "er \<in> set (execution_requests d)" "p er" "f er \<in> set (execution_requests d')"
proof -
  have commit: "list_ex p (execution_requests d)"
      "d' = sqliteInsertEffectEvent now eid ev (d\<lparr>execution_requests := update_where p f (execution_requests d)\<rparr>)"
    using assms unfolding guarded_event_commits by blast+
  obtain er where er: "er \<in> set (execution_requests d)" "p er"
    using commit(1) unfolding list_ex_iff by blast
  then have "f er \<in> set (update_where p f (execution_requests d))"
    unfolding update_where_def by (metis (mono_tags, lifting) image_eqI set_map)
  then show ?thesis
    using that er by (simp add: commit(2))
qed

lemma MarkInFlight_success:
  "fst (MarkInFlight s eid token generation prov raw w) = None \<longleftrightarrow>
    (\<exists>loc w1. prepare_locator s raw = Inr loc
       \<and> exec_tx (tx_MarkInFlight s eid token generation prov loc) w = (Inr (Some ()), w1))"
  by (auto simp: MarkInFlight_def split: sum.splits option.splits prod.splits)

text \<open>
  C14. \<open>MarkInFlight\<close> succeeds exactly when the locator passes the size bounds and the credential scan,
  the transaction runs without a fault, the store belongs to the current cluster epoch, and the record
  is \<open>EXECUTING\<close> under a lease with this token and generation that has not expired by database time.
\<close>

theorem mark_in_flight_succeeds_iff:
  assumes "next_tick w = (f, w1)"
  shows "fst (MarkInFlight s eid token generation prov raw w) = None \<longleftrightarrow>
    (\<exists>loc. prepare_locator s raw = Inr loc) \<and> f = NoFault \<and> cm_epoch (w_db w1) = st_epoch s
    \<and> list_ex (\<lambda>er. er_execution_id er = eid \<and> er_state er = StateExecuting
                    \<and> er_lease_token er = Some token \<and> er_lease_generation er = generation
                    \<and> (\<exists>t. er_lease_expires_at er = Some t \<and> w_now w1 < t)) (execution_requests (w_db w1))"
  unfolding MarkInFlight_success exec_tx_Some tx_MarkInFlight_def guarded_event_commits
  using assms by (auto simp: list_ex_iff epochGuard_def lease_fence_def sql_simps)

definition executing_world :: world where
  "executing_world = run_calls (take 2 dispatch_calls) sample_world"

theorem mark_in_flight_succeeds_iff_witness:
  "list_ex (\<lambda>er. er_execution_id er = ''x1'' \<and> er_state er = StateExecuting
                 \<and> er_lease_token er = Some ''t1'' \<and> er_lease_generation er = 1
                 \<and> (\<exists>t. er_lease_expires_at er = Some t \<and> w_now executing_world < t))
     (execution_requests (w_db executing_world))"
proof -
  have "calm executing_world" "fst (MarkInFlight sample_store ''x1'' ''t1'' 1 ''prov'' [] executing_world) = None"
    by code_simp+
  then show ?thesis
    using mark_in_flight_succeeds_iff [OF next_tick_calm, of executing_world sample_store "''x1''" "''t1''" 1 "''prov''" "[]"]
    by blast
qed

section \<open>Acquisition\<close>

text \<open>The answer an acquisition owes its caller, read off the record that holds the key.\<close>

definition acquire_spec :: "int \<Rightarrow> exec_row list \<Rightarrow> string \<times> string \<times> string \<Rightarrow> string \<Rightarrow> acquire_kind" where
  "acquire_spec now rows k digest =
    (case filter (\<lambda>er. key_of er = k) rows of
       [] \<Rightarrow> LeaseAcquired
     | er # _ \<Rightarrow>
         if er_request_digest er \<noteq> digest then IdempotencyConflict
         else if IsDurablyFinal (er_state er) then TerminalReplay
         else if er_state er = StateUnknown then RecoveryRequired
         else
           (case er_lease_expires_at er of
              None \<Rightarrow> if er_state er = StatePrepared \<and> er_lease_token er = None then LeaseAcquired else LeaseHeldByOther
            | Some t \<Rightarrow>
                if now \<le> t then LeaseHeldByOther
                else if er_state er = StateInFlight then RecoveryRequired else LeaseReclaimed))"

lemma guarded_event_if:
  "guarded_update p f (commit_event now eid ev) d =
    (if list_ex p (execution_requests d)
     then TxCommit (sqliteInsertEffectEvent now eid ev (d\<lparr>execution_requests := update_where p f (execution_requests d)\<rparr>)) ()
     else TxNoRows)"
  by (auto simp: guarded_update_def commit_event_def rows_affected_def filter_empty_conv list_ex_iff)

lemma unique_row_guard:
  assumes "unique_rows rows" "rec \<in> set rows"
  shows "list_ex (\<lambda>er. er_execution_id er = er_execution_id rec \<and> Q er) rows \<longleftrightarrow> Q rec"
proof -
  have "inj_on er_execution_id (set rows)"
    using assms(1) by (simp add: unique_rows_def distinct_map)
  then show ?thesis
    using assms(2) unfolding list_ex_iff by (metis inj_onD)
qed

lemma acquire_stages_kind:
  assumes calm: "calm w" and unique: "unique_rows (execution_requests (w_db w))"
    and epoch: "cm_epoch (w_db w) = st_epoch s" "\<not> cm_recovery_required (w_db w)"
    and key: "filter (\<lambda>er. key_of er = (p, c, k)) (execution_requests (w_db w)) = rec # recs"
    and open_rec: "\<not> IsDurablyFinal (er_state rec)" "er_state rec \<noteq> StateUnknown"
  shows "\<exists>r w'. acquire_reclaim_stage s (p, c, k) token dur rec w = (Inr r, w')
    \<and> ar_Kind r =
        (case er_lease_expires_at rec of
           None \<Rightarrow> if er_state rec = StatePrepared \<and> er_lease_token rec = None then LeaseAcquired else LeaseHeldByOther
         | Some t \<Rightarrow>
             if w_now w \<le> t then LeaseHeldByOther
             else if er_state rec = StateInFlight then RecoveryRequired else LeaseReclaimed)"
proof -
  have "rec \<in> set (filter (\<lambda>er. key_of er = (p, c, k)) (execution_requests (w_db w)))"
    by (simp only: key list.set_intros)
  then have "rec \<in> set (execution_requests (w_db w))"
    by simp
  note guard = unique_row_guard [OF unique this]
  have unsettled: "settled rec = None"
    using open_rec by (simp add: settled_def)
  show ?thesis
    using calm epoch open_rec key unsettled
    by (simp add: acquire_reclaim_stage_def acquire_in_flight_stage_def acquire_unleased_stage_def acquire_held_def
        reclaimExpiredLease_def markInFlightExpiredAsUnknown_def acquireUnleased_def refetch_def calm_simps
        tx_reclaimExpiredLease_def tx_markInFlightExpiredAsUnknown_def tx_acquireUnleased_def guarded_event_if guard
        epochGuard_def sql_simps leased_def outcome_def split: option.split)
      (cases "er_state rec"; simp)
qed



text \<open>A compare-and-swap on the version acts on the record as it was read, whatever happened in between.\<close>

lemma cas_commit:
  assumes safe: "safe any_store w" and rec: "rec \<in> set (execution_requests (w_db w))"
    and run: "exec_tx (\<lambda>now d. guarded_update (p now d) (f now) (commit_event now eid ev) d) w = (Inr (Some x), w')"
    and p: "\<And>now d er. p now d er \<Longrightarrow> er_execution_id er = er_execution_id rec \<and> er_version er = er_version rec"
  obtains er now d where "p now d er" "f now er \<in> set (execution_requests (w_db w'))" "identity_cols er = identity_cols rec"
    "er_lease_generation er = er_lease_generation rec" "now = w_now w'"
proof -
  obtain w1 d where w1: "next_tick w = (NoFault, w1)" "w' = w1\<lparr>w_db := d\<rparr>"
    and commit: "list_ex (p (w_now w1) (w_db w1)) (execution_requests (w_db w1))"
      "d = sqliteInsertEffectEvent (w_now w1) eid ev
        ((w_db w1)\<lparr>execution_requests := update_where (p (w_now w1) (w_db w1)) (f (w_now w1)) (execution_requests (w_db w1))\<rparr>)"
    using run unfolding exec_tx_Some guarded_event_commits by blast
  obtain er where er: "er \<in> set (execution_requests (w_db w1))" "p (w_now w1) (w_db w1) er"
    using commit(1) unfolding list_ex_iff by blast
  have steps: "db_steps any_store (w_db w) (w_db w1)" "reachable any_store (w_db w)"
    using follows_next_tick [OF w1(1), of any_store] safe by (simp_all add: follows_def safe_def)
  have "version_guards rec er" "same_identity rec er"
    using version_history.steps_related_row [OF steps rec er(1)] identity_history.steps_related_row [OF steps rec er(1)]
      p [OF er(2)] by simp_all
  then have "identity_cols er = identity_cols rec" "er_lease_generation er = er_lease_generation rec"
    using p [OF er(2)] by (simp_all add: version_guards_def same_identity_def)
  moreover have "f (w_now w1) er \<in> set (execution_requests (w_db w'))"
    using er by (force simp: w1(2) commit(2) update_where_def)
  moreover have "w_now w' = w_now w1"
    by (simp add: w1(2))
  ultimately show ?thesis
    using that er(2) by metis
qed

definition holds_lease :: "string \<times> string \<times> string \<Rightarrow> string \<Rightarrow> string \<Rightarrow> int \<Rightarrow> int \<Rightarrow> world \<Rightarrow> bool" where
  "holds_lease k eid token generation dur w \<longleftrightarrow>
    (\<exists>er\<in>set (execution_requests (w_db w)).
       key_of er = k \<and> er_execution_id er = eid \<and> er_state er = StatePrepared
       \<and> er_lease_token er = Some token \<and> er_lease_generation er = generation
       \<and> er_lease_expires_at er = Some (w_now w + msDuration dur))"

lemma holds_lease_bump [simp]: "holds_lease k eid t g dur (bump_by n c w) = holds_lease k eid t g dur w"
  by (simp add: holds_lease_def)

lemma holds_leaseI:
  assumes "er' \<in> set (execution_requests (w_db w))" "identity_cols er' = identity_cols rec"
    and "er_state er' = StatePrepared" "er_lease_token er' = Some t" "er_lease_generation er' = g"
    and "er_lease_expires_at er' = Some (w_now w + msDuration dur)"
  shows "holds_lease (key_of rec) (er_execution_id rec) t g dur w"
  unfolding holds_lease_def using assms identity_key [OF assms(2)] by (auto simp: identity_cols_def)

lemma unleased_holds:
  assumes "safe any_store w" "rec \<in> set (execution_requests (w_db w))"
    and "acquireUnleased s rec t dur w = (Inr (Some rec'), w')"
  shows "holds_lease (key_of rec) (er_execution_id rec') t (er_lease_generation rec') dur w'"
proof -
  have run: "exec_tx (tx_acquireUnleased s rec t dur) w = (Inr (Some ()), w')"
    and rec': "er_lease_generation rec' = er_lease_generation rec + 1" "er_execution_id rec' = er_execution_id rec"
    using assms(3) by (auto simp: acquireUnleased_def split: prod.splits sum.splits option.splits)
  show ?thesis
    by (rule cas_commit [OF assms(1,2) run [unfolded tx_acquireUnleased_def [abs_def]]])
      (auto intro!: holds_leaseI simp: rec' identity_cols_def dest: sym)
qed

lemma reclaim_holds:
  assumes "safe any_store w" "rec \<in> set (execution_requests (w_db w))"
    and "reclaimExpiredLease s rec t dur w = (Inr (Some rec'), w')"
  shows "holds_lease (key_of rec) (er_execution_id rec') t (er_lease_generation rec') dur w'"
proof -
  have run: "exec_tx (tx_reclaimExpiredLease s rec t dur) w = (Inr (Some ()), w')"
    and rec': "er_lease_generation rec' = er_lease_generation rec + 1" "er_execution_id rec' = er_execution_id rec"
    using assms(3) by (auto simp: reclaimExpiredLease_def split: prod.splits sum.splits option.splits)
  show ?thesis
    by (rule cas_commit [OF assms(1,2) run [unfolded tx_reclaimExpiredLease_def [abs_def]]])
      (auto intro!: holds_leaseI simp: rec' identity_cols_def dest: sym)
qed

lemma refetch_found:
  assumes "refetch (p, c, k) cont w = (r, w')" "safe any_store w"
  obtains rec w1 where "rec \<in> set (execution_requests (w_db w1))" "key_of rec = (p, c, k)" "safe any_store w1"
      "cont rec w1 = (r, w')"
    | e where "r = Inl e"
    | rec where "r = Inr rec" "\<not> Acquired rec"
proof (cases "LookupByKey p c k w")
  case (Pair x w1)
  then have safe: "safe any_store w1"
    using follows_LookupByKey [OF Pair, of any_store] assms(2) by (simp add: follows_def)
  show ?thesis
  proof (cases x)
    case (Inl e)
    then show ?thesis
      using that(2) assms(1) Pair by (auto simp: refetch_def)
  next
    case (Inr rec)
    show ?thesis
    proof (cases "settled rec")
      case None
      then show ?thesis
        using that(1) [OF _ _ safe] assms(1) Pair Inr LookupByKey_found [of p c k w rec w1] by (simp add: refetch_def)
    next
      case (Some a)
      then have "r = Inr a" "\<not> Acquired a"
        using assms(1) Pair Inr by (auto simp: refetch_def settled_def Acquired_def outcome_def split: if_splits)
      then show ?thesis
        using that(3) by blast
    qed
  qed
qed

text \<open>What a lease-granting stage owes: if it acquires, the record it was given is leased.\<close>

definition grants :: "string \<times> string \<times> string \<Rightarrow> string \<Rightarrow> int \<Rightarrow> (store_error + acquire_result) \<times> world \<Rightarrow> bool" where
  "grants k t dur x \<longleftrightarrow>
    (\<forall>r. fst x = Inr r \<and> Acquired r \<longrightarrow>
       ar_LeaseToken r = t \<and> holds_lease k (er_execution_id (ar_Record r)) t (ar_Generation r) dur (snd x))"

lemma grants_simps [simp]:
  "grants k t dur (Inl e, w)"
  "kind \<notin> {LeaseAcquired, LeaseReclaimed} \<Longrightarrow> grants k t dur (Inr (outcome kind rec), w)"
  "holds_lease k (er_execution_id rec) t (er_lease_generation rec) dur w \<Longrightarrow> grants k t dur (Inr (leased kind t rec), w)"
  "grants k t dur (x, bump_by n c w) = grants k t dur (x, w)"
  by (auto simp: grants_def Acquired_def outcome_def leased_def)

lemma refetch_grants:
  assumes "safe any_store w"
    and "\<And>rec w. safe any_store w \<Longrightarrow> rec \<in> set (execution_requests (w_db w)) \<Longrightarrow> key_of rec = k
      \<Longrightarrow> grants k t dur (cont rec w)"
  shows "grants k t dur (refetch k cont w)"
proof (cases "refetch k cont w")
  case (Pair r w')
  then have "refetch (fst k, fst (snd k), snd (snd k)) cont w = (r, w')"
    by simp
  then have "grants k t dur (r, w')"
    using assms(1)
  proof (cases rule: refetch_found)
    case (1 rec w1)
    then show ?thesis
      using assms(2) [of w1 rec] by simp
  qed (simp_all add: grants_def)
  then show ?thesis
    by (simp add: Pair)
qed

lemma unleased_stage_grants:
  assumes "safe any_store w" "rec \<in> set (execution_requests (w_db w))" "key_of rec = k"
  shows "grants k t dur (acquire_unleased_stage s k t dur rec w)"
proof -
  have "safe any_store w1" if "acquireUnleased s rec t dur w = (r, w1)" for r w1
    using follows_acquireUnleased [of any_store s w rec t dur] that assms(1) by (simp add: follows_def)
  moreover have "grants k t dur (refetch k acquire_held w1)" if "safe any_store w1" for w1
    by (rule refetch_grants [OF that]) (simp add: acquire_held_def)
  moreover have "holds_lease k (er_execution_id rec') t (er_lease_generation rec') dur w1"
    if "acquireUnleased s rec t dur w = (Inr (Some rec'), w1)" for rec' w1
    using unleased_holds [OF assms(1,2) that] assms(3) by blast
  ultimately show ?thesis
    unfolding acquire_unleased_stage_def
    by (auto simp: acquire_held_def split: prod.split sum.split option.split)
qed

lemma in_flight_stage_grants:
  assumes "safe any_store w" "rec \<in> set (execution_requests (w_db w))" "key_of rec = k"
  shows "grants k t dur (acquire_in_flight_stage s k t dur rec w)"
proof -
  have "safe any_store w1" if "markInFlightExpiredAsUnknown s rec act w = (r, w1)" for act r w1
    using follows_markInFlightExpiredAsUnknown [of any_store s w rec act] that assms(1) by (simp add: follows_def)
  moreover have "grants k t dur (refetch k (acquire_unleased_stage s k t dur) w1)" if "safe any_store w1" for w1
    by (rule refetch_grants [OF that]) (rule unleased_stage_grants)
  moreover have "grants k t dur (acquire_unleased_stage s k t dur rec w)"
    by (rule unleased_stage_grants [OF assms])
  ultimately show ?thesis
    unfolding acquire_in_flight_stage_def
    by (auto split: prod.split sum.split option.split)
qed

lemma reclaim_stage_grants:
  assumes "safe any_store w" "rec \<in> set (execution_requests (w_db w))" "key_of rec = k"
  shows "grants k t dur (acquire_reclaim_stage s k t dur rec w)"
proof -
  have "safe any_store w1" if "reclaimExpiredLease s rec t dur w = (r, w1)" for r w1
    using follows_reclaimExpiredLease [of any_store s w rec t dur] that assms(1) by (simp add: follows_def)
  moreover have "grants k t dur (refetch k (acquire_in_flight_stage s k t dur) w1)" if "safe any_store w1" for w1
    by (rule refetch_grants [OF that]) (rule in_flight_stage_grants)
  moreover have "grants k t dur (acquire_in_flight_stage s k t dur rec w)"
    by (rule in_flight_stage_grants [OF assms])
  moreover have "holds_lease k (er_execution_id rec') t (er_lease_generation rec') dur w1"
    if "reclaimExpiredLease s rec t dur w = (Inr (Some rec'), w1)" for rec' w1
    using reclaim_holds [OF assms(1,2) that] assms(3) by blast
  ultimately show ?thesis
    unfolding acquire_reclaim_stage_def
    by (auto split: prod.split sum.split option.split)
qed

lemma acquire_existing_grants:
  assumes "safe any_store w"
  shows "grants k t dur (acquire_existing s k dg t dur w)"
proof (cases "LookupByKey (fst k) (fst (snd k)) (snd (snd k)) w")
  case (Pair x w1)
  have safe: "safe any_store w1"
    using follows_LookupByKey [OF Pair, of any_store] assms by (simp add: follows_def)
  show ?thesis
  proof (cases x)
    case (Inl e)
    then show ?thesis
      using Pair by (cases e) (simp_all add: acquire_existing_def split: prod.split option.split)
  next
    case (Inr rec)
    then have "grants k t dur (acquire_reclaim_stage s k t dur rec w1)"
      using reclaim_stage_grants [OF safe, of rec k] LookupByKey_found [OF Pair [unfolded Inr]] by simp
    then show ?thesis
      using Pair Inr
      by (simp add: acquire_existing_def settled_def)
  qed
qed

lemma insert_holds:
  assumes "exec_tx (tx_insert s genID key p c dg a kl t dur) w = (Inr (Some created), w')"
  shows "holds_lease (p, c, key) genID t 1 dur w'"
  using assms unfolding exec_tx_Some
  by (auto simp: tx_insert_def holds_lease_def new_row_def key_of_def Let_def split: if_splits)

lemma Acquire_holds:
  assumes "safe any_store w"
    and "AcquireWithAuthority s genID token key principalID capability digest authority klass dur w = (Inr r, w')"
    and "Acquired r"
  shows "ar_LeaseToken r = token
    \<and> holds_lease (principalID, capability, key) (er_execution_id (ar_Record r)) token (ar_Generation r) dur w'"
proof -
  let ?tx = "tx_insert s genID key principalID capability digest authority klass token dur"
  have valid: "Validate (st_leaseCfg s) dur = None"
    using assms(2) by (auto simp: AcquireWithAuthority_def split: option.splits)
  show ?thesis
  proof (cases "exec_tx ?tx w")
    case (Pair x w1)
    have "follows any_store w w1"
      by (rule follows_exec [OF Pair]) (blast intro: db_step.insert [of any_store s])
    then have safe: "safe any_store w1"
      using assms(1) by (simp add: follows_def)
    consider (error) e where "x = Inl e" | (conflict) "x = Inr None" | (inserted) created where "x = Inr (Some created)"
      by (metis not_None_eq sum.exhaust)
    then show ?thesis
    proof cases
      case inserted
      then show ?thesis
        using insert_holds [OF Pair [unfolded inserted]] assms(2) valid Pair
        by (auto simp: AcquireWithAuthority_def leased_def new_row_def)
    next
      case conflict
      then show ?thesis
        using acquire_existing_grants [OF safe, of "(principalID, capability, key)" token dur s digest] assms(2,3) valid Pair
        by (simp add: AcquireWithAuthority_def grants_def)
    qed (use assms(2) valid Pair in \<open>simp add: AcquireWithAuthority_def\<close>)
  qed
qed

text \<open>
  C16. A granted lease is real: when \<open>AcquireWithAuthority\<close> says it acquired, then, whatever other
  writers did meanwhile, the record of the key is \<open>PREPARED\<close> and leased under the returned token and
  generation, and expires one lease duration after the database time of the grant.
\<close>

theorem acquired_leases_are_held:
  assumes "safe any_store w"
    and "AcquireWithAuthority s genID token key principalID capability digest authority klass dur w = (Inr r, w')"
    and "Acquired r"
  shows "ar_LeaseToken r = token
    \<and> holds_lease (principalID, capability, key) (er_execution_id (ar_Record r)) token (ar_Generation r) dur w'"
  using assms by (rule Acquire_holds)

theorem acquired_leases_are_held_witness:
  "\<exists>r. AcquireWithAuthority sample_store ''x1'' ''t1'' ''k'' ''p'' ''c'' ''dg'' sample_authority ''STANDARD'' minute sample_world
      = (Inr r, prepared_world) \<and> Acquired r
    \<and> holds_lease (''p'', ''c'', ''k'') (er_execution_id (ar_Record r)) ''t1'' (ar_Generation r) minute prepared_world"
proof -
  let ?call = "AcquireWithAuthority sample_store ''x1'' ''t1'' ''k'' ''p'' ''c'' ''dg'' sample_authority ''STANDARD'' minute sample_world"
  have world: "snd ?call = prepared_world"
    by (simp add: prepared_world_def run_calls_def dispatch_calls_def acquire_call_def)
  have "case fst ?call of Inl e \<Rightarrow> False | Inr r \<Rightarrow> Acquired r"
    by code_simp
  then obtain r where "fst ?call = Inr r" "Acquired r"
    by (auto split: sum.splits)
  then show ?thesis
    using acquired_leases_are_held [OF safe_sample_world, of sample_store "''x1''" "''t1''" "''k''" "''p''" "''c''" "''dg''"
        sample_authority "''STANDARD''" minute r prepared_world] world by (metis prod.collapse)
qed

end
