(* ===== verification/StoreFinality.thy ===== *)
theory StoreFinality
  imports StoreContracts
begin

text \<open>
  The contracts of finalisation, the cluster epoch fence, recovery mode and the distribution of
  reconciliation work.
\<close>

section \<open>Finalisation\<close>

text \<open>The record of an execution is final, and its stored receipt digest is the one of this receipt.\<close>

definition finalized_as :: "crypto \<Rightarrow> string \<Rightarrow> terminal_receipt \<Rightarrow> world \<Rightarrow> bool" where
  "finalized_as C eid receipt w \<longleftrightarrow>
    (\<exists>er\<in>set (execution_requests (w_db w)). \<exists>rd.
       er_execution_id er = eid \<and> terminal_row er
       \<and> receipt_digest C (complete_receipt eid er receipt) = Inr rd \<and> er_terminal_receipt_digest er = Some rd)"

lemma finalized_as_bump [simp]: "finalized_as C eid r (bump_by n c w) = finalized_as C eid r w"
  by (simp add: finalized_as_def)

lemma complete_receipt_identity:
  "identity_cols er = identity_cols er' \<Longrightarrow> complete_receipt eid er r = complete_receipt eid er' r"
  by (simp add: complete_receipt_def identity_cols_def)

lemma durably_final_terminal: "row_inv OK er \<Longrightarrow> IsDurablyFinal (er_state er) \<Longrightarrow> terminal_row er"
  by (cases "er_state er") (auto simp: terminal_row_def row_inv_def)

lemma replay_finalized:
  assumes "safe any_store w" "er \<in> set (execution_requests (w_db w))" "er_execution_id er = eid"
    and "IsDurablyFinal (er_state er)" "replay_verdict er rd = None"
    and "receipt_digest C (complete_receipt eid er receipt) = Inr rd"
  shows "finalized_as C eid receipt w"
proof -
  have inv: "row_inv any_store er"
    using assms(1,2) reachable_row_inv [of any_store] unfolding safe_def by blast
  then have fin: "terminal_row er"
    using durably_final_terminal assms(4) by blast
  then have "er_terminal_receipt_digest er \<noteq> None"
    using inv by (auto simp: row_inv_terminal attested_by_def)
  then have "er_terminal_receipt_digest er = Some rd"
    using assms(5) by (auto simp: replay_verdict_def str_def coalesce_to_def split: if_splits)
  then show ?thesis
    unfolding finalized_as_def using assms(2,3,6) fin by blast
qed

lemma finalize_failure_finalized:
  assumes "safe any_store w" "existing \<in> set (execution_requests d0)" "reachable any_store d0"
    and "db_steps any_store d0 (w_db w)" "er_execution_id existing = eid"
    and "receipt_digest C (complete_receipt eid existing receipt) = Inr rd"
    and "finalize_failure s eid t g es r rd w = (None, w')"
  shows "finalized_as C eid receipt w'"
proof -
  obtain cur where cur: "Lookup eid w = (Inr cur, w')" "IsDurablyFinal (er_state cur)" "replay_verdict cur rd = None"
    using assms(7) by (auto simp: finalize_failure_def split: prod.splits sum.splits if_splits)
  note found = Lookup_found [OF cur(1)]
  have w': "safe any_store w'" "db_steps any_store d0 (w_db w')"
    using follows_Lookup [OF cur(1), of any_store] assms(1,4) db_steps_trans by (auto simp: follows_def)
  have "same_identity existing cur"
    using identity_history.steps_related_row [OF w'(2) assms(3,2) found(1)] found(2) assms(5) by simp
  then have "complete_receipt eid cur receipt = complete_receipt eid existing receipt"
    by (intro complete_receipt_identity) (simp add: same_identity_def)
  then show ?thesis
    using replay_finalized [OF w'(1) found cur(2,3)] assms(6) by simp
qed

lemma guarded_event_related:
  assumes "guarded_update p f (commit_event now eid ev) d = TxCommit d' x" "\<And>er. p er \<Longrightarrow> Q er (f er)"
  obtains er er' where "er \<in> set (execution_requests d)" "er' \<in> set (execution_requests d')" "Q er er'"
  using guarded_event_row [OF assms(1)] assms(2) by metis

lemma finalize_commit_finalized:
  assumes "exec_tx (tx_Finalize s eid t g es (complete_receipt eid existing receipt) rd v) w = (Inr (Some x), w')"
    and "safe any_store w" "existing \<in> set (execution_requests (w_db w))" "er_execution_id existing = eid"
    and "receipt_digest C (complete_receipt eid existing receipt) = Inr rd"
    and "check_receipt es receipt = None" "terminal_policy s existing (complete_receipt eid existing receipt) = None"
  shows "finalized_as C eid receipt w'"
proof -
  let ?r = "complete_receipt eid existing receipt"
  obtain w1 d where w1: "next_tick w = (NoFault, w1)" "w' = w1\<lparr>w_db := d\<rparr>"
      "tx_Finalize s eid t g es ?r rd v (w_now w1) (w_db w1) = TxCommit d x"
    using assms(1) unfolding exec_tx_Some by blast
  obtain er er' where er: "er \<in> set (execution_requests (w_db w1))" "er_execution_id er = eid"
    and new: "er' \<in> set (execution_requests d)" "identity_cols er' = identity_cols er" "er_execution_id er' = eid"
      "er_state er' = tr_TerminalStatus ?r" "er_terminal_receipt_digest er' = Some rd"
    by (rule guarded_event_related [OF w1(3) [unfolded tx_Finalize_def Let_def],
        where Q = "\<lambda>er er'. er_execution_id er = eid \<and> identity_cols er' = identity_cols er \<and> er_execution_id er' = eid
          \<and> er_state er' = tr_TerminalStatus ?r \<and> er_terminal_receipt_digest er' = Some rd"])
      (auto simp: identity_cols_def)
  have "db_steps any_store (w_db w) (w_db w1)" "reachable any_store (w_db w)"
    using follows_next_tick [OF w1(1), of any_store] assms(2) by (simp_all add: follows_def safe_def)
  then have "same_identity existing er"
    using identity_history.steps_related_row [OF _ _ assms(3) er(1)] er(2) assms(4) by simp
  then have ids: "identity_cols er' = identity_cols existing"
    using new(2) by (simp add: same_identity_def)
  have "terminal_row er'"
    using new(4) assms(7) by (auto simp: terminal_row_def terminal_policy_def ValidateTerminalTransition_def split: if_splits sum.splits)
  then show ?thesis
    unfolding finalized_as_def using new assms(5) complete_receipt_identity [OF ids, of eid receipt]
    by (intro bexI [of _ er'] exI [of _ rd]) (simp_all add: w1(2))
qed

lemma Finalize_durable:
  assumes "safe any_store w" "Finalize s eid token generation expectedState receipt w = (None, w')"
  shows "finalized_as (st_crypto s) eid receipt w'"
proof -
  have chk: "check_receipt expectedState receipt = None"
    using assms(2) by (auto simp: Finalize_def split: option.splits)
  obtain existing w1 where look: "Lookup eid w = (Inr existing, w1)"
    using assms(2) chk by (auto simp: Finalize_def split: prod.splits sum.splits)
  note found = Lookup_found [OF look]
  have safe: "safe any_store w1"
    using follows_Lookup [OF look, of any_store] assms(1) by (simp add: follows_def)
  let ?r = "complete_receipt eid existing receipt"
  obtain rd where rd: "receipt_digest (st_crypto s) ?r = Inr rd"
    using assms(2) chk look by (auto simp: Finalize_def Let_def split: if_splits sum.splits)
  show ?thesis
  proof (cases "IsDurablyFinal (er_state existing)")
    case True
    then have "replay_verdict existing rd = None" "w' = w1"
      using assms(2) chk look rd by (auto simp: Finalize_def Let_def split: if_splits)
    then show ?thesis
      using replay_finalized [OF safe found True _ rd] by simp
  next
    case False
    then have pol: "terminal_policy s existing ?r = None"
      using assms(2) chk look rd by (auto simp: Finalize_def Let_def split: if_splits option.splits)
    obtain x w2 where tx: "exec_tx (tx_Finalize s eid token generation expectedState ?r rd (er_version existing)) w1 = (x, w2)"
      by fastforce
    consider "x = Inr None" | y where "x = Inr (Some y)" "w_db w' = w_db w2"
      using assms(2) chk look rd False pol tx
      by (cases x) (auto simp: Finalize_def Let_def split: if_splits option.splits)
    then show ?thesis
    proof cases
      case 1
      then have fail: "finalize_failure s eid token generation expectedState ?r rd w2 = (None, w')"
        using assms(2) chk look rd False pol tx by (simp add: Finalize_def Let_def split: if_splits)
      have "follows any_store w1 w2"
        using follows_finalize_tx [of any_store s expectedState ?r, OF _ _ found _ _ _ _ pol rd tx] chk by simp
      then show ?thesis
        using finalize_failure_finalized [OF _ found(1) _ _ found(2) rd fail] safe by (auto simp: follows_def safe_def)
    next
      case (2 y)
      then have "finalized_as (st_crypto s) eid receipt w2"
        using finalize_commit_finalized [OF _ safe found rd chk pol] tx by blast
      then show ?thesis
        using 2 by (simp add: finalized_as_def)
    qed
  qed
qed

text \<open>
  C17. \<open>Finalize\<close> is durable and idempotent: when it reports success, on whichever path (its own
  commit, a record that was final already, or a race lost to an equal finalisation), the record is
  final and its stored digest is the digest of exactly this receipt.
\<close>

theorem finalize_success_is_durable:
  assumes "safe any_store w" "Finalize s eid token generation expectedState receipt w = (None, w')"
  shows "finalized_as (st_crypto s) eid receipt w'"
  using assms by (rule Finalize_durable)

theorem finalize_success_is_durable_witness: "finalized_as sample_crypto ''x1'' sample_receipt committed_world"
proof -
  have "fst (Finalize sample_store ''x1'' ''t1'' 1 StateInFlight sample_receipt in_flight_world) = None"
    by code_simp
  moreover have "snd (Finalize sample_store ''x1'' ''t1'' 1 StateInFlight sample_receipt in_flight_world) = committed_world"
    by (simp add: committed_world_def finalize_calls_def run_calls_def)
  ultimately show ?thesis
    using finalize_success_is_durable [OF safe_sample_worlds(2), of sample_store "''x1''" "''t1''" 1 StateInFlight sample_receipt committed_world]
    by (simp add: prod_eq_iff sample_store_def)
qed

section \<open>The cluster epoch\<close>

lemma fenced_guard:
  assumes "\<And>er. \<not> p er"
  shows "guarded_update p f k d = TxNoRows"
  using assms by (simp add: guarded_update_def rows_affected_def)

lemma fenced_claim: "cm_epoch d \<noteq> st_epoch s \<Longrightarrow> claim_batch s p f ev n now d = TxNoRows"
  by (simp add: claim_batch_def epochGuard_def)

text \<open>
  C18. A store of another cluster epoch is fenced: whatever transaction it runs, with whatever
  arguments and at whatever time, no record and no provider observation changes.
\<close>

theorem stale_stores_are_fenced:
  assumes "db_step (\<lambda>s'. s' = s) l d d'" "cm_epoch d \<noteq> st_epoch s"
  shows "execution_requests d' = execution_requests d
    \<and> effect_provider_observations d' = effect_provider_observations d"
  using assms
  by (cases rule: db_step.cases)
    (auto simp: tx_insert_def tx_defs tx_ScrubStaleRecoveryLocators_def tx_RecordProviderObservation_def
      tx_ClaimUnknownBatch_def tx_ClaimExpiredBatch_def tx_noteContentionEvent_def tx_AdvanceClusterEpoch_def
      tx_CompleteClusterRecovery_def epochGuard_def fenced_guard fenced_claim commit_event_def scrub_due_def
      update_where_def Let_def sqliteInsertEffectEvent_def split: if_splits)

theorem stale_stores_are_fenced_witness:
  "\<exists>d'. tx_noteContentionEvent ''x1'' EventLeaseLost [] 0 (w_db in_flight_world) = TxCommit d' ()
    \<and> execution_requests d' = execution_requests (w_db in_flight_world)"
proof -
  let ?s = "sample_store\<lparr>st_epoch := 7\<rparr>"
  obtain d' where d': "tx_noteContentionEvent ''x1'' EventLeaseLost [] 0 (w_db in_flight_world) = TxCommit d' ()"
    by (simp add: tx_noteContentionEvent_def commit_event_def)
  then have "db_step (\<lambda>s'. s' = ?s) None (w_db in_flight_world) d'"
    using db_step.contention [of EventLeaseLost] by blast
  moreover have "cm_epoch (w_db in_flight_world) \<noteq> st_epoch ?s"
    by code_simp
  ultimately show ?thesis
    using stale_stores_are_fenced [of ?s None "w_db in_flight_world" d'] d' by blast
qed


definition recovery_world :: world where
  "recovery_world =
    run_calls [(sample_store, CallAbandonPreDispatch ''x1'' ''t1'' 1),
               (sample_store, CallAdvanceClusterEpoch 1 ''restore'')] prepared_world"


section \<open>Reconciliation work\<close>

lemma claim_batch_recs:
  assumes "claim_batch s p f ev n now d = TxCommit d' recs"
  shows "recs = map f (filter (\<lambda>er. er_execution_id er \<in> set (claim_candidates p n d)) (execution_requests d))"
    and "execution_requests d' = update_where (\<lambda>er. er_execution_id er \<in> set (claim_candidates p n d)) f (execution_requests d)"
proof -
  have "cm_epoch d = st_epoch s"
    using assms fenced_claim [of d s p f ev n now] by auto
  then show "recs = map f (filter (\<lambda>er. er_execution_id er \<in> set (claim_candidates p n d)) (execution_requests d))"
    and "execution_requests d' = update_where (\<lambda>er. er_execution_id er \<in> set (claim_candidates p n d)) f (execution_requests d)"
    using assms by (auto simp: claim_batch_def Let_def epochGuard_def split: if_splits)
qed

lemma claim_candidates_chosen:
  "eid \<in> set (claim_candidates p n d) \<Longrightarrow> \<exists>er\<in>set (execution_requests d). er_execution_id er = eid \<and> p er"
  unfolding claim_candidates_def by (auto dest!: in_set_takeD)

lemma claimed_row:
  assumes "unique_rows rows" "er \<in> set rows" "er_execution_id er \<in> set (claim_candidates p n d)" "execution_requests d = rows"
  shows "p er"
proof -
  obtain er0 where "er0 \<in> set rows" "er_execution_id er0 = er_execution_id er" "p er0"
    using claim_candidates_chosen [OF assms(3)] assms(4) by blast
  moreover have "inj_on er_execution_id (set rows)"
    using assms(1) by (simp add: unique_rows_def distinct_map)
  ultimately show ?thesis
    using assms(2) by (metis inj_onD)
qed

lemma claim_batch_length:
  assumes "unique_rows (execution_requests d)" "claim_batch s p f ev n now d = TxCommit d' recs"
  shows "length recs \<le> n"
proof -
  let ?ids = "claim_candidates p n d"
  let ?hit = "filter (\<lambda>er. er_execution_id er \<in> set ?ids) (execution_requests d)"
  have "distinct (map er_execution_id ?hit)"
    using assms(1) by (simp add: unique_rows_def distinct_map_filter)
  then have "length ?hit = card (set (map er_execution_id ?hit))"
    using distinct_card by fastforce
  also have "\<dots> \<le> card (set ?ids)"
    by (intro card_mono) auto
  also have "\<dots> \<le> n"
    by (rule le_trans [OF card_length]) (simp add: claim_candidates_def)
  finally show ?thesis
    using claim_batch_recs(1) [OF assms(2)] by simp
qed

lemma ClaimUnknownBatch_calm:
  assumes "calm w" "ClaimUnknownBatch s owner n dur w = (Inr recs, w')"
  shows "recs = [] \<and> w_db w' = w_db w
    \<or> tx_ClaimUnknownBatch s owner (batch_size n) (claim_duration dur) (w_now w) (w_db w) = TxCommit (w_db w') recs"
  using assms by (auto simp: ClaimUnknownBatch_def exec_calm checkEpoch_calm split: tx.splits if_splits)


definition unknown_world :: world where
  "unknown_world = run_calls [(sample_store, CallEnterRecovery ''x1'' StateInFlight 3)] in_flight_world"

definition claimed_world :: world where
  "claimed_world = snd (ClaimUnknownBatch sample_store ''worker-a'' 10 minute unknown_world)"

lemma reachable_unknown_world: "reachable any_store (w_db unknown_world)"
  by (simp add: unknown_world_def run_reachable safe_sample_worlds)


lemma suspend_commit:
  assumes "calm w" "SuspendReconciliation s eid v reason w = (None, w')"
  shows "tx_SuspendReconciliation s eid v reason (w_now w) (w_db w) = TxCommit (w_db w') ()"
  using assms
  by (auto simp: SuspendReconciliation_def exec_calm claim_lost_def checkEpoch_calm split: tx.splits if_splits)

lemma suspend_milliseconds: "msDuration suspend_duration = 100 * 365 * 24 * 3600 * 1000"
  by code_simp



end
