(* ===== verification/DispatchRuns.thy ===== *)
theory DispatchRuns
  imports Dispatch StoreFinality EvidenceRoundTrip
begin

text \<open>
  Runs of the dispatch executor over the store.  Every stage moves the store along committed
  transactions, and only the stage behind \<open>MarkInFlight\<close> calls the provider.  Hence, across any number
  of executors, requests, crashes, faults and concurrent writers, the provider is called at most once
  for an idempotency key, and only while the record of the key is durably \<open>IN_FLIGHT\<close>.
\<close>

section \<open>Stages that do not call the provider\<close>

definition quiet :: "(store \<Rightarrow> bool) \<Rightarrow> xstate \<Rightarrow> xstate \<Rightarrow> bool" where
  "quiet OK x x' \<longleftrightarrow> follows OK (xs_world x) (xs_world x') \<and> xs_invocations x' = xs_invocations x"

lemma quiet_refl [simp]: "quiet OK x x"
  by (simp add: quiet_def)

lemma quiet_trans: "quiet OK a b \<Longrightarrow> quiet OK b c \<Longrightarrow> quiet OK a c"
  unfolding quiet_def using follows_trans by metis

lemma quiet_gate [simp]:
  "quiet OK x (x'\<lparr>xs_gate := g\<rparr>) = quiet OK x x'" "quiet OK (x\<lparr>xs_gate := g\<rparr>) x' = quiet OK x x'"
  by (simp_all add: quiet_def)

lemma quiet_release [simp]: "quiet OK x (release l x') = quiet OK x x'"
  by (simp add: release_def)

lemma quiet_on_store:
  assumes "on_store f x = (r, x')" "follows OK (xs_world x) (snd (f (xs_world x)))"
  shows "quiet OK x x'"
  using assms by (auto simp: on_store_def quiet_def split: prod.splits)

lemma quiet_gate_acquire: "gate_acquire ce a x = (r, x') \<Longrightarrow> quiet OK x x'"
  by (auto simp: gate_acquire_def split: prod.splits)

lemma quiet_observe [simp]:
  "quiet OK x (observeProviderOutcome ce desc out st x') = quiet OK x x'"
  "quiet OK (observeProviderOutcome ce desc out st x) x' = quiet OK x x'"
  by (simp_all add: observeProviderOutcome_def)

lemmas store_follows = follows_BeginExecution follows_MarkInFlight follows_AbandonPreDispatch follows_Finalize
  follows_EnterRecoveryWithObservation follows_RecordProviderObservation follows_AcquireWithAuthority

lemma quiet_Lookup: "on_store (Lookup eid) x = (r, x') \<Longrightarrow> quiet OK x x'"
  by (erule quiet_on_store) (metis follows_Lookup prod.collapse)

lemma quiet_store:
  assumes "OK s"
  shows "on_store (BeginExecution s eid t g) x = (r, x') \<Longrightarrow> quiet OK x x'"
    and "on_store (MarkInFlight s eid t g p raw) x = (r, x') \<Longrightarrow> quiet OK x x'"
    and "on_store (Finalize s eid t g st rcpt) x = (r, x') \<Longrightarrow> quiet OK x x'"
    and "on_store (EnterRecoveryWithObservation s eid st v obs) x = (r, x') \<Longrightarrow> quiet OK x x'"
    and "on_store (RecordProviderObservation s eid t g obs) x = (r, x') \<Longrightarrow> quiet OK x x'"
  using assms by (auto elim!: quiet_on_store intro: store_follows)

lemma quiet_acquire:
  "OK s \<Longrightarrow> acquire_request s genID token req desc digest x = (r, x') \<Longrightarrow> quiet OK x x'"
  unfolding acquire_request_def by (erule quiet_on_store) (rule store_follows)

lemma quiet_abandon: "OK s \<Longrightarrow> quiet OK x (abandonPreDispatch s eid t g x)"
  unfolding abandonPreDispatch_def
  using quiet_on_store [of "AbandonPreDispatch s eid t g" x] by (metis follows_AbandonPreDispatch prod.collapse)

lemma quiet_refuse: "OK s \<Longrightarrow> refuse s eid t g l resp x = (r, x') \<Longrightarrow> quiet OK x x'"
  using quiet_abandon by (auto simp: refuse_def)

lemma quiet_recovery_attempts:
  "OK s \<Longrightarrow> recovery_attempts n ce s eid obs x = (r, x') \<Longrightarrow> quiet OK x x'"
proof (induction n arbitrary: x)
  case (Suc n)
  obtain look x1 where look: "on_store (Lookup eid) x = (look, x1)"
    by (cases "on_store (Lookup eid) x")
  note q1 = quiet_Lookup [OF look, of OK]
  show ?case
  proof (cases look)
    case (Inr rec)
    obtain e x2 where enter: "on_store (EnterRecoveryWithObservation s eid StateInFlight (er_version rec) obs) x1 = (e, x2)"
      by fastforce
    obtain e' x3 where obs: "on_store (RecordProviderObservation s eid [] 0 obs) x1 = (e', x3)"
      by fastforce
    note q2 = quiet_store(4) [of OK s, OF Suc.prems(1) enter] and q3 = quiet_store(5) [of OK s, OF Suc.prems(1) obs]
    show ?thesis
      using Suc.prems(2) Suc.IH [OF Suc.prems(1)] look Inr enter obs q1 quiet_trans [OF q1 q2] quiet_trans [OF q1 q3]
      by (auto simp: recovered_def split: if_splits option.splits intro: quiet_trans)
  qed (use Suc.prems look q1 in auto)
qed simp

lemma quiet_recover_uncertain:
  "OK s \<Longrightarrow> recover_uncertain ce s eid pr desc err m x = (r, x') \<Longrightarrow> quiet OK x x'"
  unfolding recover_uncertain_def enterRecovery_def
  by (auto split: prod.splits option.splits if_splits dest: quiet_recovery_attempts)

lemma quiet_finalize_stage:
  assumes "OK s" "finalize_stage ex ce s req desc digest eid t pr st resp x = (r, x')"
  shows "quiet OK x x'"
  using assms(2) unfolding finalize_stage_def Let_def
  by (auto split: sum.splits prod.splits option.splits if_splits
      dest!: quiet_Lookup [of _ _ _ _ OK] quiet_store(3) [of OK s, OF assms(1)] quiet_recover_uncertain [of OK s, OF assms(1)]
      intro: quiet_trans)

lemma quiet_post_dispatch:
  assumes "OK s" "post_dispatch ex ce s req desc digest eid t g out x = (r, x')"
  shows "quiet OK x x'"
proof -
  let ?pr = "attested_response (st_crypto s) (do_Response out) (do_ProvableNoEffect out)"
  obtain e x1 where obs: "on_store (RecordProviderObservation s eid t g (buildObservation ?pr desc)) x = (e, x1)"
    by fastforce
  obtain st resp where cl: "classifyPostDispatch ?pr desc = (st, resp)"
    by fastforce
  note q = quiet_store(5) [of OK s, OF assms(1) obs]
  show ?thesis
    using assms(2) obs cl q quiet_trans [OF q]
    by (auto simp: post_dispatch_def Let_def split: if_splits
        dest!: quiet_recover_uncertain [of OK s, OF assms(1)] quiet_finalize_stage [of OK s, OF assms(1)])
qed

section \<open>The call of the provider\<close>

definition request_key :: "request \<Rightarrow> string \<times> string \<times> string" where
  "request_key req = (ra_Principal (rq_Authority req), rq_Capability req, rq_IdempotencyKey req)"

text \<open>The state right after the provider was called: the log has one more entry, the world is the same.\<close>

definition called :: "request \<Rightarrow> resolved_descriptor \<Rightarrow> xstate \<Rightarrow> xstate \<Rightarrow> bool" where
  "called req desc x x' \<longleftrightarrow>
    xs_world x' = xs_world x
    \<and> (\<exists>token. xs_invocations x' = xs_invocations x
         @ [\<lparr> iv_request = req, iv_descriptor = desc, iv_token = token, iv_db = w_db (xs_world x) \<rparr>])"

lemma dispatch_leased_effect:
  assumes "dispatch_leased ex ce req desc token lease x = (out, x')"
  shows "xs_world x' = xs_world x"
    and "xs_invocations x' = xs_invocations x \<or> called req desc x x'"
    and "out = Some o1 \<Longrightarrow> \<not> do_ProviderInvoked o1 \<Longrightarrow> xs_invocations x' = xs_invocations x"
  using assms
  by (auto simp: dispatch_leased_def call_provider_def release_def called_def invoked_def not_invoked_def Let_def
      split: if_splits arrival.splits)

text \<open>
  What one durable execution does: nothing the provider sees, or it calls the provider right after
  this execution moved the record of its key to \<open>IN_FLIGHT\<close>.
\<close>

definition marked :: "store \<Rightarrow> string \<times> string \<times> string \<Rightarrow> xstate \<Rightarrow> xstate \<Rightarrow> bool" where
  "marked s k x x' \<longleftrightarrow>
    (\<exists>eid t g p raw er. er \<in> set (execution_requests (w_db (xs_world x))) \<and> er_execution_id er = eid \<and> key_of er = k
       \<and> on_store (MarkInFlight s eid t g p raw) x = (None, x'))"

definition one_call :: "store \<Rightarrow> request \<Rightarrow> resolved_descriptor \<Rightarrow> xstate \<Rightarrow> xstate \<Rightarrow> bool" where
  "one_call s req desc x x' \<longleftrightarrow>
    quiet any_store x x'
    \<or> (\<exists>x1 x2 x3. quiet any_store x x1 \<and> marked s (request_key req) x1 x2 \<and> called req desc x2 x3
         \<and> quiet any_store x3 x')"

lemma key_persists:
  assumes "db_steps any_store d d'" "reachable any_store d" "er \<in> set (execution_requests d)"
  shows "\<exists>er'\<in>set (execution_requests d'). er_execution_id er' = er_execution_id er \<and> key_of er' = key_of er"
  using identity_history.steps_related [OF assms] identity_key unfolding same_identity_def by blast

lemma quiet_key_persists:
  assumes "quiet any_store x x'" "safe any_store (xs_world x)" "er \<in> set (execution_requests (w_db (xs_world x)))"
  shows "\<exists>er'\<in>set (execution_requests (w_db (xs_world x'))). er_execution_id er' = er_execution_id er \<and> key_of er' = key_of er"
  using assms key_persists [of "w_db (xs_world x)" "w_db (xs_world x')" er]
  by (simp add: quiet_def follows_def safe_def)

lemma execute_leased_effect:
  assumes "execute_leased ex ce s req desc digest eid t g lease x = (r, x')"
    and "safe any_store (xs_world x)" "er \<in> set (execution_requests (w_db (xs_world x)))" "er_execution_id er = eid"
    and "key_of er = request_key req"
  shows "one_call s req desc x x'"
proof -
  obtain e1 x1 where start: "on_store (BeginExecution s eid t g) x = (e1, x1)"
    by fastforce
  note q1 = quiet_store(1) [of any_store s, OF _ start, simplified]
  show ?thesis
  proof (cases "e1 = None \<and> \<not> dies ce CrashAfterBeginExecution \<and> (\<exists>lr. encoded_locator (ce_handler ce) req desc digest eid = Inr lr)")
    case False
    then have "quiet any_store x x'"
      using assms(1) start q1 quiet_trans [OF q1] quiet_refuse [of any_store s]
      by (auto simp: execute_leased_def split: option.splits sum.splits if_splits)
    then show ?thesis
      by (simp add: one_call_def)
  next
    case True
    then obtain locator raw where enc: "encoded_locator (ce_handler ce) req desc digest eid = Inr (locator, raw)"
      by auto
    obtain e2 x2 where mark: "on_store (MarkInFlight s eid t g (rd_AdapterID desc) raw) x1 = (e2, x2)"
      by fastforce
    note q2 = quiet_trans [OF q1 quiet_store(2) [of any_store s, OF _ mark, simplified]]
    show ?thesis
    proof (cases "e2 = None \<and> \<not> dies ce CrashAfterMarkInFlight \<and> \<not> dies ce CrashBeforeProvider")
      case False
      then have "quiet any_store x x'"
        using assms(1) start True enc mark q2 quiet_trans [OF q2] quiet_refuse [of any_store s]
        by (auto simp: execute_leased_def split: option.splits if_splits)
      then show ?thesis
        by (simp add: one_call_def)
    next
      case marked: True
      obtain out x3 where disp: "dispatch_leased ex ce req desc (rl_ExternalToken locator) lease x2 = (out, x3)"
        by fastforce
      have rest: "quiet any_store x3 x'"
        using assms(1) start True enc mark marked disp
        by (auto simp: execute_leased_def dispatch_def split: option.splits if_splits dest: quiet_post_dispatch [of any_store s, simplified])
      obtain er1 where "er1 \<in> set (execution_requests (w_db (xs_world x1)))" "er_execution_id er1 = eid" "key_of er1 = request_key req"
        using quiet_key_persists [OF q1 assms(2,3)] assms(4,5) by auto
      then have "marked s (request_key req) x1 x2"
        using mark marked unfolding marked_def by blast
      moreover have "quiet any_store x x3" if "xs_invocations x3 = xs_invocations x2"
        using q2 that dispatch_leased_effect(1) [OF disp] by (simp add: quiet_def)
      ultimately show ?thesis
        using dispatch_leased_effect(2) [OF disp] rest q1 quiet_trans unfolding one_call_def by blast
    qed
  qed
qed

lemma one_call_after: "quiet any_store x x1 \<Longrightarrow> one_call s req desc x1 x' \<Longrightarrow> one_call s req desc x x'"
  unfolding one_call_def using quiet_trans by blast

lemma one_call_quiet: "quiet any_store x x' \<Longrightarrow> one_call s req desc x x'"
  by (simp add: one_call_def)

lemma quiet_safe: "quiet any_store x x' \<Longrightarrow> safe any_store (xs_world x) \<Longrightarrow> safe any_store (xs_world x')"
  by (simp add: quiet_def follows_def)

lemma execute_acquired_effect:
  assumes "execute_acquired ex ce s req desc digest eid t g x = (r, x')"
    and "safe any_store (xs_world x)" "er \<in> set (execution_requests (w_db (xs_world x)))" "er_execution_id er = eid"
    and "key_of er = request_key req"
  shows "one_call s req desc x x'"
proof -
  obtain l x1 where gate: "gate_acquire ce (rd_AdapterID desc) x = (l, x1)"
    by fastforce
  then have x1: "xs_world x1 = xs_world x" and q: "quiet any_store x x1"
    by (auto simp: gate_acquire_def split: prod.splits)
  show ?thesis
  proof (cases "(\<exists>lease. l = Inr lease) \<and> \<not> dies ce CrashAfterAcquire \<and> \<not> deadlineExpired (rq_Deadline req) (ce_preflight ce)")
    case True
    then obtain lease where "execute_leased ex ce s req desc digest eid t g lease x1 = (r, x')"
      using assms(1) gate by (auto simp: execute_acquired_def)
    then have "one_call s req desc x1 x'"
      using execute_leased_effect assms(2-5) x1 by metis
    then show ?thesis
      by (rule one_call_after [OF q])
  next
    case False
    then have "quiet any_store x x'"
      using assms(1) gate q quiet_trans [OF q] quiet_abandon [of any_store s]
      by (auto simp: execute_acquired_def split: sum.splits if_splits)
    then show ?thesis
      by (rule one_call_quiet)
  qed
qed

text \<open>The acquisition, with its one retry: what was acquired is a record of this key.\<close>

lemma acquire_request_holds:
  assumes "acquire_request s genID token req desc digest x = (Inr acq, x')" "safe any_store (xs_world x)" "Acquired acq"
  shows "\<exists>er\<in>set (execution_requests (w_db (xs_world x'))).
    er_execution_id er = er_execution_id (ar_Record acq) \<and> key_of er = request_key req"
proof -
  obtain w' where "AcquireWithAuthority s genID token (rq_IdempotencyKey req) (ra_Principal (rq_Authority req))
      (rq_Capability req) digest (authority_of req) (rd_ExecutionClass desc) (lease_duration s) (xs_world x) = (Inr acq, w')"
    and x': "xs_world x' = w'"
    using assms(1) by (auto simp: acquire_request_def on_store_def split: prod.splits)
  from Acquire_holds [OF assms(2) this(1) assms(3)] show ?thesis
    unfolding x' by (auto simp: holds_lease_def request_key_def)
qed

lemma legacy_retry_effect:
  assumes "legacy_retry ce s req desc digest acq0 x1 = (acq, x2)" "safe any_store (xs_world x1)"
  shows "quiet any_store x1 x2"
    and "(acq = acq0 \<and> (x2 = x1 \<or> ar_Kind acq0 = IdempotencyConflict))
      \<or> (\<exists>genID token digest. acquire_request s genID token req desc digest x1 = (Inr acq, x2))"
  using assms(1) quiet_acquire [of any_store s]
  by (auto simp: legacy_retry_def split: if_splits sum.splits prod.splits)

lemma execute_durable_effect:
  assumes "execute_durable ex ce s req desc digest x = (r, x')" "safe any_store (xs_world x)"
  shows "one_call s req desc x x'"
proof -
  obtain a x1 where acquire: "acquire_request s (ce_genID ce) (ce_token ce) req desc digest x = (a, x1)"
    by fastforce
  note q1 = quiet_acquire [of any_store s, OF _ acquire, simplified]
  note safe1 = quiet_safe [OF q1 assms(2)]
  show ?thesis
  proof (cases a)
    case (Inl e)
    then show ?thesis
      using assms(1) acquire q1 by (simp add: execute_durable_def one_call_quiet)
  next
    case (Inr acq0)
    obtain acq x2 where retry: "legacy_retry ce s req desc digest acq0 x1 = (acq, x2)"
      by fastforce
    note q2 = quiet_trans [OF q1 legacy_retry_effect(1) [OF retry safe1]]
    show ?thesis
    proof (cases "Acquired acq")
      case True
      then have "acq = acq0 \<Longrightarrow> x2 = x1"
        using legacy_retry_effect(2) [OF retry safe1] retry
        by (auto simp: Acquired_def legacy_retry_def split: if_splits)
      then obtain er where "er \<in> set (execution_requests (w_db (xs_world x2)))"
          "er_execution_id er = er_execution_id (ar_Record acq)" "key_of er = request_key req"
        using legacy_retry_effect(2) [OF retry safe1] acquire_request_holds [OF _ safe1 True]
          acquire_request_holds [OF acquire [unfolded Inr] assms(2)] True by metis
      moreover have "execute_acquired ex ce s req desc digest (er_execution_id (ar_Record acq)) (ar_LeaseToken acq)
          (ar_Generation acq) x2 = (r, x')"
        using assms(1) acquire Inr retry True by (auto simp: execute_durable_def Acquired_def)
      ultimately have "one_call s req desc x2 x'"
        using execute_acquired_effect quiet_safe [OF q2 assms(2)] by metis
      then show ?thesis
        by (rule one_call_after [OF q2])
    next
      case False
      then show ?thesis
        using assms(1) acquire Inr retry q2 by (auto simp: execute_durable_def one_call_quiet split: if_splits)
    qed
  qed
qed

definition durable_class :: "resolved_descriptor \<Rightarrow> bool" where
  "durable_class desc \<longleftrightarrow> rd_ExecutionClass desc \<noteq> ClassPure \<and> rd_ExecutionClass desc \<noteq> ClassRead"

lemma execute_unguarded_effect:
  assumes "execute_unguarded ex ce req desc x = (r, x')"
  shows "xs_world x' = xs_world x \<and> (xs_invocations x' = xs_invocations x \<or> called req desc x x')"
proof -
  obtain l x1 where gate: "gate_acquire ce (rd_AdapterID desc) x = (l, x1)"
    by fastforce
  then have x1: "xs_world x1 = xs_world x" "xs_invocations x1 = xs_invocations x"
    by (auto simp: gate_acquire_def split: prod.splits)
  show ?thesis
  proof (cases l)
    case (Inr lease)
    obtain out x2 where disp: "dispatch_leased ex ce req desc [] lease x1 = (out, x2)"
      by fastforce
    have "xs_world x' = xs_world x2" "xs_invocations x' = xs_invocations x2"
      using assms gate Inr disp
      by (auto simp: execute_unguarded_def dispatch_def observeProviderOutcome_def split: option.splits if_splits)
    then show ?thesis
      using dispatch_leased_effect(1,2) [OF disp] x1 by (auto simp: called_def)
  qed (use assms gate x1 in \<open>auto simp: execute_unguarded_def dispatch_def observeProviderOutcome_def not_invoked_def\<close>)
qed

lemma Execute_effect:
  assumes "ExecuteWithIdempotency ex ce req desc x = (r, x')" "safe any_store (xs_world x)" "durable_class desc"
  shows "\<exists>s. one_call s req desc x x'"
  using assms execute_durable_effect [of ex ce _ req desc _ x r x'] one_call_quiet [OF quiet_refl]
  by (auto simp: ExecuteWithIdempotency_def durable_class_def split: option.splits sum.splits if_splits)

section \<open>Runs\<close>

record execution =
  xn_executor :: executor
  xn_env :: call_env
  xn_request :: request
  xn_descriptor :: resolved_descriptor

definition run_executions :: "execution list \<Rightarrow> xstate \<Rightarrow> xstate" where
  "run_executions xs x =
    fold (\<lambda>n x. snd (ExecuteWithIdempotency (xn_executor n) (xn_env n) (xn_request n) (xn_descriptor n) x)) xs x"

definition durable_calls :: "xstate \<Rightarrow> invocation list" where
  "durable_calls x = filter (\<lambda>iv. durable_class (iv_descriptor iv)) (xs_invocations x)"

definition call_key :: "invocation \<Rightarrow> string \<times> string \<times> string" where
  "call_key iv = request_key (iv_request iv)"

text \<open>At the call, the record of the key was \<open>IN_FLIGHT\<close>.\<close>

definition in_flight_at_call :: "invocation \<Rightarrow> bool" where
  "in_flight_at_call iv \<longleftrightarrow>
    (\<exists>er\<in>set (execution_requests (iv_db iv)). key_of er = call_key iv \<and> er_state er = StateInFlight)"

definition crossed :: "string \<times> string \<times> string \<Rightarrow> db \<Rightarrow> bool" where
  "crossed k d \<longleftrightarrow> (\<exists>er\<in>set (execution_requests d). key_of er = k \<and> \<not> pre_dispatch er)"

definition log_ok :: "xstate \<Rightarrow> bool" where
  "log_ok x \<longleftrightarrow>
    safe any_store (xs_world x)
    \<and> distinct (map call_key (durable_calls x))
    \<and> (\<forall>iv\<in>set (durable_calls x). in_flight_at_call iv \<and> crossed (call_key iv) (w_db (xs_world x)))"

lemma pre_dispatch_stage: "pre_dispatch er \<longleftrightarrow> stage (er_state er) = 0"
  by (cases "er_state er") (simp_all add: pre_dispatch_def)

lemma crossed_persists:
  assumes "crossed k d" "db_steps any_store d d'" "reachable any_store d"
  shows "crossed k d'"
proof -
  obtain er where er: "er \<in> set (execution_requests d)" "key_of er = k" "\<not> pre_dispatch er"
    using assms(1) by (auto simp: crossed_def)
  obtain er' where er': "er' \<in> set (execution_requests d')" "er_execution_id er' = er_execution_id er" "progress er er'"
    using progress_history.steps_related [OF assms(2,3) er(1)] by blast
  have "same_identity er er'"
    by (rule identity_history.steps_related_row [OF assms(2,3) er(1) er'(1,2)])
  then have "key_of er' = k"
    using er(2) identity_key unfolding same_identity_def by metis
  moreover have "\<not> pre_dispatch er'"
    using er(3) er'(3) by (simp add: pre_dispatch_stage progress_def)
  ultimately show ?thesis
    using er'(1) unfolding crossed_def by blast
qed

text \<open>A successful \<open>MarkInFlight\<close> found the record before the dispatch boundary and moved it across.\<close>

lemma MarkInFlight_crosses:
  assumes "MarkInFlight s eid t g p raw w = (None, w')" "safe any_store w"
    and "er0 \<in> set (execution_requests (w_db w))" "er_execution_id er0 = eid" "key_of er0 = k"
  shows "\<not> crossed k (w_db w)"
    and "\<exists>er\<in>set (execution_requests (w_db w')). key_of er = k \<and> er_state er = StateInFlight"
proof -
  obtain loc w2 where run: "exec_tx (tx_MarkInFlight s eid t g p loc) w = (Inr (Some ()), w2)" and w': "w_db w' = w_db w2"
    using assms(1) by (auto simp: MarkInFlight_def split: sum.splits option.splits prod.splits)
  obtain w1 d where w1: "next_tick w = (NoFault, w1)" "w2 = w1\<lparr>w_db := d\<rparr>"
      "tx_MarkInFlight s eid t g p loc (w_now w1) (w_db w1) = TxCommit d ()"
    using run unfolding exec_tx_Some by blast
  obtain er er' where er: "er \<in> set (execution_requests (w_db w1))" "er_execution_id er = eid" "er_state er = StateExecuting"
    and er': "er' \<in> set (execution_requests d)" "identity_cols er' = identity_cols er" "er_state er' = StateInFlight"
    by (rule guarded_event_related [OF w1(3) [unfolded tx_MarkInFlight_def Let_def],
        where Q = "\<lambda>er er'. er_execution_id er = eid \<and> er_state er = StateExecuting
          \<and> identity_cols er' = identity_cols er \<and> er_state er' = StateInFlight"])
      (auto simp: identity_cols_def)
  have steps: "db_steps any_store (w_db w) (w_db w1)" "reachable any_store (w_db w)"
    using follows_next_tick [OF w1(1), of any_store] assms(2) by (simp_all add: follows_def safe_def)
  have "same_identity er0 er"
    using identity_history.steps_related_row [OF steps assms(3) er(1)] er(2) assms(4) by simp
  then have key: "key_of er = k"
    using assms(5) identity_key unfolding same_identity_def by metis
  then have "key_of er' = k"
    using er'(2) identity_key by metis
  then show "\<exists>er\<in>set (execution_requests (w_db w')). key_of er = k \<and> er_state er = StateInFlight"
    using er'(1,3) by (auto simp: w' w1(2))
  show "\<not> crossed k (w_db w)"
  proof
    assume "crossed k (w_db w)"
    then have "crossed k (w_db w1)"
      using crossed_persists steps by blast
    then obtain er2 where er2: "er2 \<in> set (execution_requests (w_db w1))" "key_of er2 = k" "\<not> pre_dispatch er2"
      by (auto simp: crossed_def)
    have "inj_on key_of (set (execution_requests (w_db w1)))"
      using reachable_unique [OF reachable_steps [OF steps]] by (simp add: unique_rows_def distinct_map)
    then have "er2 = er"
      using er2(1,2) er(1) key by (simp add: inj_onD)
    then show False
      using er2(3) er(3) by (simp add: pre_dispatch_def)
  qed
qed

lemma log_ok_quiet:
  assumes "log_ok x" "quiet any_store x x'"
  shows "log_ok x'"
proof -
  have "safe any_store (xs_world x')" "db_steps any_store (w_db (xs_world x)) (w_db (xs_world x'))" "reachable any_store (w_db (xs_world x))"
      "durable_calls x' = durable_calls x"
    using assms by (simp_all add: log_ok_def quiet_def follows_def safe_def durable_calls_def)
  then show ?thesis
    using assms(1) crossed_persists unfolding log_ok_def by metis
qed

lemma log_ok_call:
  assumes "log_ok x" "marked s (request_key req) x x1" "called req desc x1 x2"
  shows "log_ok x2"
proof -
  obtain eid t g p raw er where er: "er \<in> set (execution_requests (w_db (xs_world x)))" "er_execution_id er = eid"
      "key_of er = request_key req" and mark: "on_store (MarkInFlight s eid t g p raw) x = (None, x1)"
    using assms(2) by (auto simp: marked_def)
  then have run: "MarkInFlight s eid t g p raw (xs_world x) = (None, xs_world x1)"
    by (auto simp: on_store_def split: prod.splits)
  have ok1: "log_ok x1"
    by (rule log_ok_quiet [OF assms(1) quiet_store(2) [of any_store s, OF _ mark, simplified]])
  have same: "durable_calls x1 = durable_calls x"
    using mark by (auto simp: on_store_def durable_calls_def split: prod.splits)
  note crosses = MarkInFlight_crosses [OF run _ er]
  have new: "request_key req \<notin> set (map call_key (durable_calls x1))"
    using crosses(1) assms(1) unfolding same by (auto simp: log_ok_def)
  obtain token where x2: "xs_world x2 = xs_world x1" "xs_invocations x2 = xs_invocations x1
      @ [\<lparr> iv_request = req, iv_descriptor = desc, iv_token = token, iv_db = w_db (xs_world x1) \<rparr>]"
    using assms(3) by (auto simp: called_def)
  have safe: "safe any_store (xs_world x)"
    using assms(1) by (simp add: log_ok_def)
  have "in_flight_at_call \<lparr> iv_request = req, iv_descriptor = desc, iv_token = token, iv_db = w_db (xs_world x1) \<rparr>"
      "crossed (request_key req) (w_db (xs_world x1))"
    using crosses(2) [OF safe] by (auto simp: in_flight_at_call_def call_key_def crossed_def pre_dispatch_def)
  then show ?thesis
    using ok1 new by (auto simp: log_ok_def durable_calls_def x2 call_key_def)
qed

lemma log_ok_one_call: "log_ok x \<Longrightarrow> one_call s req desc x x' \<Longrightarrow> log_ok x'"
  unfolding one_call_def using log_ok_quiet log_ok_call by blast

lemma log_ok_Execute:
  assumes "log_ok x"
  shows "log_ok (snd (ExecuteWithIdempotency ex ce req desc x))"
proof (cases "durable_class desc")
  case True
  then show ?thesis
    using Execute_effect [of ex ce req desc x] log_ok_one_call [OF assms] assms
    by (metis log_ok_def prod.collapse)
next
  case False
  then have "ExecuteWithIdempotency ex ce req desc x = execute_unguarded ex ce req desc x"
    by (auto simp: ExecuteWithIdempotency_def durable_class_def)
  moreover obtain r x' where run: "execute_unguarded ex ce req desc x = (r, x')"
    by fastforce
  moreover have "durable_calls x' = durable_calls x" "xs_world x' = xs_world x"
    using execute_unguarded_effect [OF run] False by (auto simp: called_def durable_calls_def)
  ultimately show ?thesis
    using assms by (simp add: log_ok_def)
qed

lemma log_ok_run: "log_ok x \<Longrightarrow> log_ok (run_executions xs x)"
  by (induction xs arbitrary: x) (simp_all add: run_executions_def log_ok_Execute)


text \<open>An execution that dies right after its provider call, and its retry.\<close>

definition sample_request :: request where
  "sample_request =
    \<lparr> rq_Capability = ''repo.push'', rq_Arguments = ''{}'',
      rq_Authority = \<lparr> ra_Principal = ''alice'', ra_AuthorityRef = [], ra_GrantID = [], ra_AuthorityGeneration = 0,
                      ra_AuthorityDigest = [] \<rparr>,
      rq_ExecutionClass = [], rq_IdempotencyKey = ''k'', rq_Deadline = [] \<rparr>"

definition sample_descriptor :: resolved_descriptor where
  "sample_descriptor =
    \<lparr> rd_ID = ''repo.push'', rd_DescriptorVersion = 1, rd_PolicyRevision = [], rd_ExecutionClass = ClassMutation,
      rd_AssuranceProfile = AssuranceDurable, rd_ExecutionRoute = RouteCrabedence, rd_Schema = [],
      rd_AuthorityPolicy = \<lparr> ap_ID = [], ap_GrantRequired = False, ap_ResourceArguments = [] \<rparr>, rd_AdapterID = ''gh'' \<rparr>"

definition sample_executor :: executor where
  "sample_executor = \<lparr> ex_store = Some (sample_store\<lparr>st_crypto := toy_crypto\<rparr>), ex_signer = None, ex_timeouts = DefaultExecutorTimeouts \<rparr>"

definition sample_answer :: response where
  "sample_answer = (response_of StatusSucceeded [] [])\<lparr>rs_Result := ''{}''\<rparr>"

definition sample_env :: "string \<Rightarrow> arrival \<Rightarrow> crash_point option \<Rightarrow> call_env" where
  "sample_env eid answer crash =
    \<lparr> ce_genID = eid, ce_token = ''t'' @ eid, ce_legacyID = [], ce_legacyToken = [], ce_preflight = 0, ce_gateNow = 0,
      ce_dispatchNow = 0, ce_outcomeNow = 0, ce_gateOthers = (\<lambda>g. g),
      ce_handler = \<lparr> hd_Execute = (\<lambda>req desc token. answer), hd_Capabilities = None, hd_PrepareRecovery = None \<rparr>,
      ce_issuedAt = [], ce_crash = crash \<rparr>"

definition sample_xstate :: xstate where
  "sample_xstate = \<lparr> xs_world = sample_world, xs_gate = NewProviderGate no_config, xs_invocations = [] \<rparr>"

definition sample_execution :: "string \<Rightarrow> crash_point option \<Rightarrow> execution" where
  "sample_execution eid crash =
    \<lparr> xn_executor = sample_executor, xn_env = sample_env eid (InTime sample_answer) crash,
      xn_request = sample_request, xn_descriptor = sample_descriptor \<rparr>"

definition crash_and_retry :: "execution list" where
  "crash_and_retry = [sample_execution ''e1'' (Some CrashAfterProvider), sample_execution ''e2'' None]"

lemma safe_sample_xstate: "safe any_store (xs_world sample_xstate)" "xs_invocations sample_xstate = []"
  using safe_sample_world [of any_store] by (simp_all add: sample_xstate_def)


end
