(* ===== verification/DispatchOutcomes.thy ===== *)
theory DispatchOutcomes
  imports DispatchRuns
begin

text \<open>
  What the answers of the dispatch executor mean.  A definitive answer is backed by the durable record
  or nothing was called; an uncertain outcome leaves the record in recovery; entering recovery takes a
  bounded number of store calls.
\<close>

section \<open>Replayed records\<close>

definition replays :: "string \<times> string \<times> string \<Rightarrow> (store_error + acquire_result) \<times> world \<Rightarrow> bool" where
  "replays k x \<longleftrightarrow>
    (\<forall>r. fst x = Inr r \<and> ar_Kind r = TerminalReplay \<longrightarrow>
       ar_Record r \<in> set (execution_requests (w_db (snd x))) \<and> key_of (ar_Record r) = k
       \<and> ar_State r = er_state (ar_Record r) \<and> IsDurablyFinal (ar_State r))"

lemma replays_simps [simp]:
  "replays k (Inl e, w)"
  "kind \<noteq> TerminalReplay \<Longrightarrow> replays k (Inr (outcome kind rec), w)"
  "kind \<noteq> TerminalReplay \<Longrightarrow> replays k (Inr (leased kind t rec), w)"
  by (simp_all add: replays_def outcome_def leased_def)

lemma settled_replays:
  assumes "settled rec = Some r" "rec \<in> set (execution_requests (w_db w))" "key_of rec = k"
  shows "replays k (Inr r, w)"
  using assms by (auto simp: settled_def replays_def outcome_def split: if_splits)

lemma refetch_replays:
  assumes "\<And>rec w. replays k (cont rec w)"
  shows "replays k (refetch k cont w)"
proof (cases "LookupByKey (fst k) (fst (snd k)) (snd (snd k)) w")
  case (Pair x w1)
  show ?thesis
  proof (cases x)
    case (Inr rec)
    note found = LookupByKey_found [OF Pair [unfolded Inr]]
    show ?thesis
      using Pair Inr assms settled_replays [OF _ found(1), of _ k] found(2)
      by (simp add: refetch_def split: option.split)
  qed (simp add: refetch_def Pair)
qed

lemma acquire_stages_replay:
  "replays k (acquire_held rec w)"
  "replays k (acquire_unleased_stage s k t dur rec w)"
  "replays k (acquire_in_flight_stage s k t dur rec w)"
  "replays k (acquire_reclaim_stage s k t dur rec w)"
proof -
  show held: "replays k (acquire_held rec w)" for rec w
    by (simp add: acquire_held_def)
  show unleased: "replays k (acquire_unleased_stage s k t dur rec w)" for rec w
    unfolding acquire_unleased_stage_def
    by (auto simp: held refetch_replays split: prod.split sum.split option.split)
  show in_flight: "replays k (acquire_in_flight_stage s k t dur rec w)" for rec w
    unfolding acquire_in_flight_stage_def
    by (auto simp: unleased refetch_replays split: prod.split sum.split option.split)
  show "replays k (acquire_reclaim_stage s k t dur rec w)"
    unfolding acquire_reclaim_stage_def
    by (auto simp: in_flight refetch_replays split: prod.split sum.split option.split)
qed

lemma acquire_existing_replays: "replays k (acquire_existing s k dg t dur w)"
proof (cases "LookupByKey (fst k) (fst (snd k)) (snd (snd k)) w")
  case (Pair x w1)
  show ?thesis
  proof (cases x)
    case (Inl e)
    then show ?thesis
      using Pair by (cases e) (simp_all add: acquire_existing_def split: prod.split option.split)
  next
    case (Inr rec)
    note found = LookupByKey_found [OF Pair [unfolded Inr]]
    show ?thesis
      using Pair Inr acquire_stages_replay settled_replays [OF _ found(1), of _ k] found(2)
      by (simp add: acquire_existing_def split: option.split)
  qed
qed

lemma Acquire_replays: "replays (p, c, key) (AcquireWithAuthority s genID token key p c dg a kl dur w)"
  unfolding AcquireWithAuthority_def
  by (auto simp: acquire_existing_replays split: option.split sum.split prod.split)

lemma acquire_request_replays:
  assumes "acquire_request s genID token req desc digest x = (Inr acq, x')" "ar_Kind acq = TerminalReplay"
  shows "ar_Record acq \<in> set (execution_requests (w_db (xs_world x')))" "key_of (ar_Record acq) = request_key req"
    "ar_State acq = er_state (ar_Record acq)" "IsDurablyFinal (ar_State acq)"
proof -
  obtain w' where "AcquireWithAuthority s genID token (rq_IdempotencyKey req) (ra_Principal (rq_Authority req))
      (rq_Capability req) digest (authority_of req) (rd_ExecutionClass desc) (lease_duration s) (xs_world x) = (Inr acq, w')"
    and x': "xs_world x' = w'"
    using assms(1) by (auto simp: acquire_request_def on_store_def split: prod.splits)
  then have "replays (request_key req) (Inr acq, w')"
    using Acquire_replays by (metis request_key_def)
  then show "ar_Record acq \<in> set (execution_requests (w_db (xs_world x')))" "key_of (ar_Record acq) = request_key req"
    "ar_State acq = er_state (ar_Record acq)" "IsDurablyFinal (ar_State acq)"
    using assms(2) unfolding replays_def x' by (metis fst_conv snd_conv)+
qed

section \<open>Definitive answers\<close>

text \<open>The record of the key holds exactly this outcome, written earlier.\<close>

definition replayed :: "request \<Rightarrow> state \<Rightarrow> response \<Rightarrow> xstate \<Rightarrow> bool" where
  "replayed req st resp x \<longleftrightarrow>
    (\<exists>er\<in>set (execution_requests (w_db (xs_world x))).
       key_of er = request_key req \<and> er_state er = st \<and> rs_Result resp = str (er_result er))"

text \<open>The record of the key is final, and its receipt digest is that of a receipt with this outcome.\<close>

definition receipted :: "store \<Rightarrow> request \<Rightarrow> state \<Rightarrow> response \<Rightarrow> xstate \<Rightarrow> bool" where
  "receipted s req st resp x \<longleftrightarrow>
    (\<exists>er\<in>set (execution_requests (w_db (xs_world x))). \<exists>receipt rd.
       key_of er = request_key req \<and> terminal_row er
       \<and> receipt_digest (st_crypto s) receipt = Inr rd \<and> er_terminal_receipt_digest er = Some rd
       \<and> tr_TerminalStatus receipt = st \<and> tr_CanonicalResult receipt = canonical_result st resp)"

definition answered :: "store \<Rightarrow> request \<Rightarrow> xstate \<Rightarrow> response \<Rightarrow> xstate \<Rightarrow> bool" where
  "answered s req x resp x' \<longleftrightarrow>
    rs_Status resp \<in> {StatusSucceeded, StatusFailed, StatusDenied, StatusUnknown, StatusInFlight}
    \<and> (rs_Status resp = StatusSucceeded \<longrightarrow>
         replayed req StateCommitted resp x' \<or> receipted s req StateCommitted resp x')
    \<and> (rs_Status resp = StatusFailed \<or> rs_Status resp = StatusDenied \<longrightarrow>
         xs_invocations x' = xs_invocations x \<or> receipted s req StateFailed resp x')"

lemma answered_after:
  "quiet any_store x x1 \<Longrightarrow> answered s req x1 resp x' \<Longrightarrow> answered s req x resp x'"
  by (simp add: answered_def quiet_def)

lemma status_distinct:
  "StatusFailed \<noteq> StatusSucceeded" "StatusDenied \<noteq> StatusSucceeded" "StatusUnknown \<noteq> StatusSucceeded"
  "StatusInFlight \<noteq> StatusSucceeded" "StatusUnknown \<noteq> StatusFailed" "StatusUnknown \<noteq> StatusDenied"
  "StatusInFlight \<noteq> StatusFailed" "StatusInFlight \<noteq> StatusDenied"
  by (simp_all add: status_defs)

lemmas status_simps [simp] = status_distinct status_distinct [THEN not_sym]

lemma answered_uncalled:
  assumes "rs_Status resp = StatusFailed \<or> rs_Status resp = StatusDenied" "quiet any_store x x'"
  shows "answered s req x resp x'"
  using assms by (auto simp: answered_def quiet_def)

lemma answered_open: "rs_Status resp = StatusUnknown \<or> rs_Status resp = StatusInFlight \<Longrightarrow> answered s req x resp x'"
  by (auto simp: answered_def)

lemma uncertain_status [simp]: "rs_Status (uncertain err m) = StatusUnknown"
  by (simp add: uncertain_def)

lemma recover_uncertain_status:
  "recover_uncertain ce s eid pr desc err m x = (Some r, x') \<Longrightarrow> rs_Status r = StatusUnknown"
  by (auto simp: recover_uncertain_def split: prod.splits option.splits)

lemma with_execution_simps [simp]:
  "rs_Status (with_execution desc eid resp) = rs_Status resp" "rs_Result (with_execution desc eid resp) = rs_Result resp"
  "rs_Error (with_execution desc eid resp) = rs_Error resp"
  "rs_FailureCode (with_execution desc eid resp) = rs_FailureCode resp"
  by (simp_all add: with_execution_def split: option.split)

lemma canonical_result_with_execution [simp]:
  "canonical_result st (with_execution desc eid resp) = canonical_result st resp"
  by (simp add: canonical_result_def)

lemma sign_receipt_keeps:
  "sign_receipt ex ce s desc resp r = Inr r' \<Longrightarrow>
    tr_TerminalStatus r' = tr_TerminalStatus r \<and> tr_CanonicalResult r' = tr_CanonicalResult r"
  by (auto simp: sign_receipt_def split: option.splits prod.splits if_splits sum.splits)

lemma classify_definitive:
  assumes "classifyPostDispatch pr desc = (st, resp)" "st \<noteq> StateUnknown"
  shows "resp = pr"
    and "st = StateCommitted \<and> rs_Status pr = StatusSucceeded \<or> st = StateFailed \<and> rs_Status pr = StatusFailed"
  using assms by (auto simp: classifyPostDispatch_def unknown_response_def split: if_splits option.splits)

lemma finalize_stage_answer:
  assumes "finalize_stage ex ce s req desc digest eid t pr st resp x = (Some r, x')" "safe any_store (xs_world x)"
    and "rs_Status r \<noteq> StatusUnknown"
  shows "\<exists>receipt. finalized_as (st_crypto s) eid receipt (xs_world x') \<and> tr_TerminalStatus receipt = st
    \<and> tr_CanonicalResult receipt = canonical_result st resp \<and> r = with_execution desc eid resp"
proof -
  obtain receipt where sign: "sign_receipt ex ce s desc resp (receipt_of req desc digest eid st resp) = Inr receipt"
    using assms(1,3) by (auto simp: finalize_stage_def Let_def dest: recover_uncertain_status split: sum.splits)
  obtain rec x1 where look: "on_store (Lookup eid) x = (Inr rec, x1)"
    using assms(1,3) sign by (auto simp: finalize_stage_def Let_def split: sum.splits prod.splits)
  obtain x2 where fin: "on_store (Finalize s eid t (er_lease_generation rec) StateInFlight receipt) x1 = (None, x2)"
      and r: "r = with_execution desc eid resp" "x' = x2"
    using assms(1,3) sign look
    by (auto simp: finalize_stage_def Let_def dest: recover_uncertain_status split: sum.splits prod.splits if_splits option.splits)
  have "safe any_store (xs_world x1)"
    by (rule quiet_safe [OF quiet_Lookup [OF look] assms(2)])
  moreover have "Finalize s eid t (er_lease_generation rec) StateInFlight receipt (xs_world x1) = (None, xs_world x2)"
    using fin by (auto simp: on_store_def split: prod.splits)
  ultimately have "finalized_as (st_crypto s) eid receipt (xs_world x')"
    unfolding r(2) by (rule Finalize_durable)
  then show ?thesis
    using sign_receipt_keeps [OF sign] r(1) by (auto simp: receipt_of_def)
qed

lemma finalized_receipted:
  assumes "finalized_as (st_crypto s) eid receipt (xs_world x')" "tr_TerminalStatus receipt = st"
    and "tr_CanonicalResult receipt = canonical_result st resp"
    and "\<And>er. er \<in> set (execution_requests (w_db (xs_world x'))) \<Longrightarrow> er_execution_id er = eid \<Longrightarrow> key_of er = request_key req"
  shows "receipted s req st resp x'"
proof -
  obtain er rd where "er \<in> set (execution_requests (w_db (xs_world x')))" "er_execution_id er = eid" "terminal_row er"
      "receipt_digest (st_crypto s) (complete_receipt eid er receipt) = Inr rd" "er_terminal_receipt_digest er = Some rd"
    using assms(1) unfolding finalized_as_def by blast
  moreover have "tr_TerminalStatus (complete_receipt eid er receipt) = st"
      "tr_CanonicalResult (complete_receipt eid er receipt) = canonical_result st resp"
    using assms(2,3) by (simp_all add: complete_receipt_def)
  ultimately show ?thesis
    using assms(4) unfolding receipted_def by blast
qed

lemma post_dispatch_answer:
  assumes "post_dispatch ex ce s req desc digest eid t g out x = (Some r, x')" "safe any_store (xs_world x)"
    and key: "\<And>er. er \<in> set (execution_requests (w_db (xs_world x'))) \<Longrightarrow> er_execution_id er = eid \<Longrightarrow> key_of er = request_key req"
  shows "answered s req x0 r x'"
proof (cases "rs_Status r = StatusUnknown")
  case False
  let ?pr = "attested_response (st_crypto s) (do_Response out) (do_ProvableNoEffect out)"
  obtain e x1 where obs: "on_store (RecordProviderObservation s eid t g (buildObservation ?pr desc)) x = (e, x1)"
    by fastforce
  obtain st resp where cl: "classifyPostDispatch ?pr desc = (st, resp)"
    by fastforce
  let ?x2 = "observeProviderOutcome ce desc out st x1"
  have st: "st \<noteq> StateUnknown" and fin: "finalize_stage ex ce s req desc digest eid t ?pr st resp ?x2 = (Some r, x')"
    using assms(1) False obs cl by (auto simp: post_dispatch_def Let_def dest: recover_uncertain_status split: if_splits)
  have "quiet any_store x ?x2"
    using quiet_store(5) [of any_store s, OF _ obs] by simp
  then obtain receipt where "finalized_as (st_crypto s) eid receipt (xs_world x')" "tr_TerminalStatus receipt = st"
      "tr_CanonicalResult receipt = canonical_result st resp" and r: "r = with_execution desc eid resp"
    using finalize_stage_answer [OF fin quiet_safe False] assms(2) by blast
  then have "receipted s req st resp x'"
    by (intro finalized_receipted) (use key in auto)
  then have "receipted s req st r x'"
    by (simp add: receipted_def r)
  then show ?thesis
    using classify_definitive [OF cl st] by (auto simp: answered_def r)
qed (simp add: answered_open)

lemma one_call_follows:
  assumes "one_call s req desc x x'"
  shows "follows any_store (xs_world x) (xs_world x')"
proof -
  have "follows any_store (xs_world a) (xs_world b)" if "marked s k a b" for k a b
    using that quiet_store(2) [of any_store s] by (auto simp: marked_def quiet_def)
  then show ?thesis
    using assms follows_trans unfolding one_call_def quiet_def called_def by metis
qed

lemma key_kept:
  assumes "follows any_store w w'" "safe any_store w" "er \<in> set (execution_requests (w_db w))" "er_execution_id er = eid"
    and "er' \<in> set (execution_requests (w_db w'))" "er_execution_id er' = eid"
  shows "key_of er' = key_of er"
proof -
  have "same_identity er er'"
    using identity_history.steps_related_row [of any_store "w_db w" "w_db w'" er er'] assms by (simp add: follows_def safe_def)
  then show ?thesis
    using identity_key unfolding same_identity_def by metis
qed

lemma refuse_answer:
  "refuse s eid t g l (internal_error err) x = (Some r, x') \<Longrightarrow> answered s req x r x'"
  using quiet_refuse [of any_store s eid t g l "internal_error err" x] answered_uncalled
  by (auto simp: refuse_def internal_error_def)

lemma execute_leased_answer:
  assumes run: "execute_leased ex ce s req desc digest eid t g lease x = (Some r, x')"
    and safe: "safe any_store (xs_world x)" and er: "er \<in> set (execution_requests (w_db (xs_world x)))" "er_execution_id er = eid"
    and key: "key_of er = request_key req"
  shows "answered s req x r x'"
proof -
  obtain e1 x1 where start: "on_store (BeginExecution s eid t g) x = (e1, x1)"
    by fastforce
  note q1 = quiet_store(1) [of any_store s, OF _ start, simplified]
  show ?thesis
  proof (cases "e1 = None \<and> (\<exists>lr. encoded_locator (ce_handler ce) req desc digest eid = Inr lr)")
    case False
    then show ?thesis
      using run start answered_after [OF q1 refuse_answer]
      by (auto simp: execute_leased_def split: option.splits sum.splits if_splits)
  next
    case True
    then obtain locator raw where enc: "encoded_locator (ce_handler ce) req desc digest eid = Inr (locator, raw)"
      by auto
    obtain e2 x2 where mark: "on_store (MarkInFlight s eid t g (rd_AdapterID desc) raw) x1 = (e2, x2)"
      by fastforce
    note q2 = quiet_trans [OF q1 quiet_store(2) [of any_store s, OF _ mark, simplified]]
    obtain out x3 where disp: "dispatch_leased ex ce req desc (rl_ExternalToken locator) lease x2 = (out, x3)"
      by fastforce
    show ?thesis
    proof (cases "e2 = None")
      case False
      then show ?thesis
        using run start True enc mark answered_after [OF q2 refuse_answer]
        by (auto simp: execute_leased_def split: if_splits)
    next
      case e2: True
      then obtain o1 where out: "out = Some o1" and post: "post_dispatch ex ce s req desc digest eid t g o1 x3 = (Some r, x')"
        using run start True enc mark disp by (auto simp: execute_leased_def dispatch_def split: if_splits option.splits)
      have world: "xs_world x3 = xs_world x2"
        by (rule dispatch_leased_effect(1) [OF disp])
      have safe3: "safe any_store (xs_world x3)"
        using quiet_safe [OF q2 safe] by (simp add: world)
      have "follows any_store (xs_world x) (xs_world x')"
        using one_call_follows [OF execute_leased_effect [OF run safe er key]] .
      then have "key_of er' = request_key req"
        if "er' \<in> set (execution_requests (w_db (xs_world x')))" "er_execution_id er' = eid" for er'
        using key_kept [OF _ safe er] that key by metis
      then show ?thesis
        by (rule post_dispatch_answer [OF post safe3])
    qed
  qed
qed

lemma execute_acquired_answer:
  assumes run: "execute_acquired ex ce s req desc digest eid t g x = (Some r, x')"
    and safe: "safe any_store (xs_world x)" and er: "er \<in> set (execution_requests (w_db (xs_world x)))" "er_execution_id er = eid"
    and key: "key_of er = request_key req"
  shows "answered s req x r x'"
proof -
  obtain l x1 where gate: "gate_acquire ce (rd_AdapterID desc) x = (l, x1)"
    by fastforce
  then have x1: "xs_world x1 = xs_world x" and q: "quiet any_store x x1"
    by (auto simp: gate_acquire_def split: prod.splits)
  show ?thesis
  proof (cases "deadlineExpired (rq_Deadline req) (ce_preflight ce)")
    case True
    then show ?thesis
      using run quiet_abandon [of any_store s x eid t g]
      by (auto simp: execute_acquired_def deadline_response_def intro!: answered_uncalled split: if_splits)
  next
    case False
    show ?thesis
    proof (cases l)
      case (Inl e)
      then show ?thesis
        using run False gate quiet_trans [OF q quiet_abandon [of any_store s]]
        by (auto simp: execute_acquired_def providerRefusedResponse_def intro!: answered_uncalled split: if_splits)
    next
      case (Inr lease)
      then have "execute_leased ex ce s req desc digest eid t g lease x1 = (Some r, x')"
        using run False gate by (auto simp: execute_acquired_def split: if_splits)
      then show ?thesis
        using answered_after [OF q] execute_leased_answer safe er key x1 by metis
    qed
  qed
qed

lemma replay_answer:
  assumes "acquire_request s genID token req desc digest x1 = (Inr acq, x2)" "ar_Kind acq = TerminalReplay" "quiet any_store x x2"
  shows "answered s req x (replay_response desc acq) x2"
proof -
  note rep = acquire_request_replays [OF assms(1,2)]
  have "replayed req (ar_State acq) (replay_response desc acq) x2"
    unfolding replayed_def using rep(1-3) by (intro bexI [of _ "ar_Record acq"]) (simp_all add: replay_response_def Let_def)
  moreover have "rs_Status (replay_response desc acq) = stateToStatus (ar_State acq)"
    by (simp add: replay_response_def Let_def)
  moreover have "ar_State acq = StateCommitted \<or> stateToStatus (ar_State acq) = StatusFailed \<or> stateToStatus (ar_State acq) = StatusDenied"
    using rep(4) by (cases "ar_State acq") (simp_all add: stateToStatus_def)
  ultimately show ?thesis
    using answered_uncalled [OF _ assms(3)] by (auto simp: answered_def stateToStatus_def)
qed

lemma execute_durable_answer:
  assumes run: "execute_durable ex ce s req desc digest x = (Some r, x')" and safe: "safe any_store (xs_world x)"
  shows "answered s req x r x'"
proof -
  obtain a x1 where acquire: "acquire_request s (ce_genID ce) (ce_token ce) req desc digest x = (a, x1)"
    by fastforce
  note q1 = quiet_acquire [of any_store s, OF _ acquire, simplified]
  note safe1 = quiet_safe [OF q1 safe]
  show ?thesis
  proof (cases a)
    case (Inl e)
    then show ?thesis
      using run acquire q1 by (auto simp: execute_durable_def internal_error_def intro: answered_uncalled)
  next
    case (Inr acq0)
    obtain acq x2 where retry: "legacy_retry ce s req desc digest acq0 x1 = (acq, x2)"
      by fastforce
    note q2 = quiet_trans [OF q1 legacy_retry_effect(1) [OF retry safe1]]
    have from_acquire: "\<exists>genID token digest x0. acquire_request s genID token req desc digest x0 = (Inr acq, x2)
        \<and> safe any_store (xs_world x0)" if "ar_Kind acq \<noteq> IdempotencyConflict"
      using legacy_retry_effect(2) [OF retry safe1] acquire Inr safe safe1 that by metis
    consider "ar_Kind acq = IdempotencyConflict" | "ar_Kind acq = TerminalReplay" | "ar_Kind acq \<noteq> IdempotencyConflict"
        "ar_Kind acq \<noteq> TerminalReplay" "\<not> Acquired acq" | "Acquired acq"
      by blast
    then show ?thesis
    proof cases
      case 1
      then show ?thesis
        using run acquire Inr retry q2 by (auto simp: execute_durable_def intro: answered_uncalled)
    next
      case 2
      then show ?thesis
        using run acquire Inr retry q2 from_acquire replay_answer by (auto simp: execute_durable_def)
    next
      case 3
      then show ?thesis
        using run acquire Inr retry
        by (auto simp: execute_durable_def held_response_def Let_def intro!: answered_open)
    next
      case 4
      then obtain er where "er \<in> set (execution_requests (w_db (xs_world x2)))"
          "er_execution_id er = er_execution_id (ar_Record acq)" "key_of er = request_key req"
        using from_acquire acquire_request_holds Acquired_def by (metis acquire_kind.distinct)
      moreover have "execute_acquired ex ce s req desc digest (er_execution_id (ar_Record acq)) (ar_LeaseToken acq)
          (ar_Generation acq) x2 = (Some r, x')"
        using run acquire Inr retry 4 by (auto simp: execute_durable_def Acquired_def)
      ultimately show ?thesis
        using answered_after [OF q2] execute_acquired_answer quiet_safe [OF q2 safe] by metis
    qed
  qed
qed

text \<open>
  C31. An answer means what it says: whenever a durable execution answers, whatever crashes, faults and
  other writers there were, the status is one of the five.  On \<open>SUCCEEDED\<close> the record of the key is
  durably \<open>COMMITTED\<close> with this result, or is final under a receipt that says so.  On \<open>FAILED\<close> or
  \<open>DENIED\<close> this execution did not call the provider, or the record is final under a receipt of a failure.
\<close>

theorem answers_are_backed_by_the_record:
  assumes "safe any_store (xs_world x)" "durable_class desc" "ex_store ex = Some s"
    and "ExecuteWithIdempotency ex ce req desc x = (Some resp, x')"
  shows "answered s req x resp x'"
proof -
  have "answered s req x resp x" if "rs_Status resp = StatusFailed \<or> rs_Status resp = StatusDenied"
    by (rule answered_uncalled [OF that quiet_refl])
  then show ?thesis
    using assms execute_durable_answer
    by (auto simp: ExecuteWithIdempotency_def durable_class_def checkCriticalProviderCapability_def internal_error_def Let_def
        split: sum.splits if_splits option.splits)
qed

definition sample_run :: "response option \<times> xstate" where
  "sample_run = ExecuteWithIdempotency sample_executor (sample_env ''e1'' (InTime sample_answer) None) sample_request
     sample_descriptor sample_xstate"

theorem answers_are_backed_by_the_record_witness:
  "\<exists>resp. fst sample_run = Some resp \<and> rs_Status resp = StatusSucceeded
    \<and> (replayed sample_request StateCommitted resp (snd sample_run)
       \<or> receipted (sample_store\<lparr>st_crypto := toy_crypto\<rparr>) sample_request StateCommitted resp (snd sample_run))"
proof -
  have "map_option rs_Status (fst sample_run) = Some StatusSucceeded" "durable_class sample_descriptor"
    by code_simp+
  then obtain resp where resp: "fst sample_run = Some resp" "rs_Status resp = StatusSucceeded"
    by blast
  then have run: "ExecuteWithIdempotency sample_executor (sample_env ''e1'' (InTime sample_answer) None) sample_request
     sample_descriptor sample_xstate = (Some resp, snd sample_run)"
    by (metis sample_run_def prod.collapse)
  have "ex_store sample_executor = Some (sample_store\<lparr>st_crypto := toy_crypto\<rparr>)"
    by (simp add: sample_executor_def)
  from answers_are_backed_by_the_record [OF safe_sample_xstate(1) \<open>durable_class sample_descriptor\<close> this run]
  show ?thesis
    using resp by (auto simp: answered_def)
qed

end
