(* ===== verification/DispatchProgress.thy ===== *)
theory DispatchProgress
  imports DispatchOutcomes
begin

text \<open>
  The executor makes progress.  Every store method makes a bounded number of database round trips,
  hence so does a whole execution, the bounded recovery loop included, whatever the schedule.  And
  when no other writer interferes, an execution that called its provider leaves the record final or
  in recovery.
\<close>

section \<open>Round trips\<close>

text \<open>
  A step of the store's world that makes at most \<open>n\<close> database round trips and leaves the cluster epoch
  alone when nobody else moves it.
\<close>

definition spends :: "nat \<Rightarrow> world \<Rightarrow> world \<Rightarrow> bool" where
  "spends n w w' \<longleftrightarrow>
    length (w_ticks w') \<le> length (w_ticks w) \<and> length (w_ticks w) \<le> length (w_ticks w') + n
    \<and> (calm w \<longrightarrow> cm_epoch (w_db w') = cm_epoch (w_db w))"

lemma spends_refl [simp]: "spends n w w"
  by (simp add: spends_def)

lemma spends_bump [simp]: "spends n w (bump_by m c w') = spends n w w'" "spends n (bump_by m c w) w' = spends n w w'"
  by (simp_all add: spends_def bump_by_def calm_def)

lemma spends_trans: "spends m a b \<Longrightarrow> spends n b c \<Longrightarrow> spends (m + n) a c"
  by (auto simp: spends_def calm_def)

lemma spends_mono: "spends m a b \<Longrightarrow> m \<le> n \<Longrightarrow> spends n a b"
  by (auto simp: spends_def)

lemma spends_then: "spends m a b \<Longrightarrow> spends n b c \<Longrightarrow> m + n \<le> k \<Longrightarrow> spends k a c"
  using spends_trans spends_mono by blast

lemma spends_calm: "spends n w w' \<Longrightarrow> calm w \<Longrightarrow> calm w' \<and> cm_epoch (w_db w') = cm_epoch (w_db w)"
  by (simp add: spends_def calm_def)

lemma spends_next_tick: "next_tick w = (f, w') \<Longrightarrow> spends 1 w w'"
  by (auto simp: next_tick_def spends_def calm_def split: list.splits)

lemma spends_query: "query q w = (r, w') \<Longrightarrow> spends 1 w w'"
  by (auto simp: query_def dest!: spends_next_tick split: prod.splits fault.splits)

definition keeps_epoch :: "(int \<Rightarrow> db \<Rightarrow> 'a tx) \<Rightarrow> bool" where
  "keeps_epoch body \<longleftrightarrow> (\<forall>now d d' x. body now d = TxCommit d' x \<longrightarrow> cm_epoch d' = cm_epoch d)"

lemma spends_exec:
  assumes "exec_tx body w = (r, w')" "keeps_epoch body"
  shows "spends 1 w w'"
proof -
  obtain f w1 where tick: "next_tick w = (f, w1)"
    by fastforce
  have "w' = w1 \<or> (\<exists>d x. body (w_now w1) (w_db w1) = TxCommit d x \<and> w' = w1\<lparr>w_db := d\<rparr>)"
    using assms(1) tick by (auto simp: exec_tx_def split: fault.splits tx.splits if_splits)
  moreover have "cm_epoch d = cm_epoch (w_db w1)" if "body (w_now w1) (w_db w1) = TxCommit d x" for d x
    using assms(2) that unfolding keeps_epoch_def by blast
  ultimately show ?thesis
    using spends_next_tick [OF tick] by (auto simp: spends_def)
qed

lemma epoch_inserts [simp]:
  "cm_epoch (sqliteInsertEffectEvent now eid ev d) = cm_epoch d"
  "cm_epoch (sqliteInsertObservationRow C now eid k raw obs d) = cm_epoch d"
  by (simp_all add: sqliteInsertEffectEvent_def sqliteInsertObservationRow_def Let_def)

lemma guarded_epoch:
  assumes "guarded_update p f k d = TxCommit d' x" "\<And>d1 d' x. k d1 = TxCommit d' x \<Longrightarrow> cm_epoch d' = cm_epoch d1"
  shows "cm_epoch d' = cm_epoch d"
  using assms(2) [OF guarded_update_commit [OF assms(1)]] by simp

lemma keeps_epoch_tx:
  "keeps_epoch (tx_insert s gid k p c dg a kl t dur)"
  "keeps_epoch (tx_acquireUnleased s rec t dur)" "keeps_epoch (tx_reclaimExpiredLease s rec t dur)"
  "keeps_epoch (tx_markInFlightExpiredAsUnknown s rec act)"
  "keeps_epoch (tx_leaseFencedTransition s eid t g es ts)" "keeps_epoch (tx_MarkInFlight s eid t g p loc)"
  "keeps_epoch (tx_AbandonPreDispatch s eid t g)" "keeps_epoch (tx_Finalize s eid t g es r rd v)"
  "keeps_epoch (tx_EnterRecoveryWithObservation s eid es v raw obs)"
  "keeps_epoch (tx_RecordProviderObservation s eid t g raw obs)"
  "keeps_epoch (tx_noteContentionEvent eid ev meta)"
  unfolding keeps_epoch_def
  by (auto simp: tx_insert_def tx_defs tx_RecordProviderObservation_def tx_noteContentionEvent_def commit_event_def Let_def
      elim!: guarded_epoch split: if_splits list.splits)

text \<open>Rules that compute the bound along the text of a method.\<close>

lemma spends_return: "spends 0 w (snd (x, w))"
  by simp

lemma spends_case_pair:
  "spends m w (snd p) \<Longrightarrow> (\<And>x w1. spends n w1 (snd (f x w1))) \<Longrightarrow> spends (m + n) w (snd (case p of (x, w1) \<Rightarrow> f x w1))"
  by (cases p) (auto intro: spends_trans)

lemma spends_max: "spends m a b \<Longrightarrow> spends (max m n) a b" "spends n a b \<Longrightarrow> spends (max m n) a b"
  by (auto elim: spends_mono)

lemma spends_if: "spends m w (snd x) \<Longrightarrow> spends n w (snd y) \<Longrightarrow> spends (max m n) w (snd (if b then x else y))"
  by (simp add: spends_max)

lemma spends_case_sum:
  "(\<And>e. spends m w (snd (f e))) \<Longrightarrow> (\<And>x. spends n w (snd (g x)))
    \<Longrightarrow> spends (max m n) w (snd (case s of Inl e \<Rightarrow> f e | Inr x \<Rightarrow> g x))"
  by (cases s) (simp_all add: spends_max)

lemma spends_case_option:
  "spends m w (snd f) \<Longrightarrow> (\<And>x. spends n w (snd (g x)))
    \<Longrightarrow> spends (max m n) w (snd (case s of None \<Rightarrow> f | Some x \<Rightarrow> g x))"
  by (cases s) (simp_all add: spends_max)

lemma spends_snd: "(\<And>r w'. m = (r, w') \<Longrightarrow> spends n w w') \<Longrightarrow> spends n w (snd m)"
  by (cases m) simp

lemma spends_tx: "keeps_epoch body \<Longrightarrow> spends 1 w (snd (exec_tx body w))"
  by (rule spends_snd) (rule spends_exec)

lemma spends_reads:
  "spends 1 w (snd (Lookup eid w))" "spends 1 w (snd (LookupByKey p c k w))"
  "spends 1 w (snd (checkEpoch s w))" "spends 1 w (snd (checkRecoveryMode w))"
  by (auto simp: Lookup_def LookupByKey_def first_row_def checkEpoch_def checkRecoveryMode_def
      dest!: spends_query split: prod.splits sum.splits list.splits if_splits)

lemma spends_note: "spends 1 w (noteContentionEvent eid t meta w)"
  using spends_tx [OF keeps_epoch_tx(11), of "if t = EventLeaseLost then bump leaseLost w else w" eid t meta]
  by (simp add: noteContentionEvent_def split: if_splits)

lemma spends_hints:
  "spends 1 w (snd (x, noteContentionEvent eid t meta w))"
  "spends 1 w (snd (Lookup eid (bump_by n c w)))" "spends 0 w (snd (x, bump_by n c w))"
  "spends 0 w (snd (x, bump_by n c (bump_by n' c' w)))"
  using spends_note spends_reads(1) [of "bump_by n c w" eid] by simp_all

lemma spends_classify_lease: "spends 1 w (snd (classify_lease eid t g a b rec w))"
  using spends_note by (simp add: classify_lease_def)

lemmas spends_rules = spends_return spends_hints spends_case_pair spends_if spends_case_sum spends_case_option
  spends_reads spends_classify_lease spends_tx keeps_epoch_tx

lemma spends_classify:
  "spends 3 w (snd (classifyTransitionFailure s eid t g es w))"
  "spends 3 w (snd (classifyAbandonFailure s eid t g w))"
  "spends 3 w (snd (classifyEnterRecoveryFailure s eid es v w))"
  "spends 3 w (snd (classifyObservationFailure s eid t g w))"
  unfolding classifyTransitionFailure_def classifyAbandonFailure_def classifyEnterRecoveryFailure_def
    classifyObservationFailure_def
  by (rule spends_mono, (rule spends_rules)+, simp)+

lemma spends_transitions:
  "spends 4 w (snd (leaseFencedTransition s eid t g es ts w))"
  "spends 4 w (snd (MarkInFlight s eid t g p raw w))"
  "spends 4 w (snd (AbandonPreDispatch s eid t g w))"
  "spends 4 w (snd (EnterRecoveryWithObservation s eid es v obs w))"
  "spends 4 w (snd (RecordProviderObservation s eid t g obs w))"
  unfolding leaseFencedTransition_def MarkInFlight_def AbandonPreDispatch_def EnterRecoveryWithObservation_def
    RecordProviderObservation_def
  by (rule spends_mono, (rule spends_rules spends_classify)+, simp)+

lemma spends_BeginExecution: "spends 4 w (snd (BeginExecution s eid t g w))"
  unfolding BeginExecution_def by (rule spends_mono, (rule spends_rules spends_transitions)+, simp)

lemma spends_finalize_failure: "spends 4 w (snd (finalize_failure s eid t g es r rd w))"
  unfolding finalize_failure_def by (rule spends_mono, (rule spends_rules spends_classify)+, simp)

lemma spends_Finalize: "spends 6 w (snd (Finalize s eid t g es r w))"
  unfolding Finalize_def Let_def by (rule spends_mono, (rule spends_rules spends_finalize_failure)+, simp)

lemma spends_refetch: "(\<And>rec w. spends n w (snd (next rec w))) \<Longrightarrow> spends (1 + n) w (snd (refetch k next w))"
  unfolding refetch_def by (rule spends_mono, (rule spends_rules | assumption)+, simp)

lemma spends_acquire_stages:
  "spends 0 w (snd (acquire_held rec w))"
  "spends 3 w (snd (acquire_unleased_stage s k t dur rec w))"
  "spends 6 w (snd (acquire_in_flight_stage s k t dur rec w))"
  "spends 10 w (snd (acquire_reclaim_stage s k t dur rec w))"
proof -
  show held: "spends 0 w (snd (acquire_held rec w))" for rec w
    by (simp add: acquire_held_def)
  show unleased: "spends 3 w (snd (acquire_unleased_stage s k t dur rec w))" for rec w
    unfolding acquire_unleased_stage_def acquireUnleased_def
    by (rule spends_mono, (rule spends_rules spends_refetch held)+, simp)
  show in_flight: "spends 6 w (snd (acquire_in_flight_stage s k t dur rec w))" for rec w
    unfolding acquire_in_flight_stage_def markInFlightExpiredAsUnknown_def
    by (rule spends_mono, (rule spends_rules spends_refetch unleased)+, simp)
  show "spends 10 w (snd (acquire_reclaim_stage s k t dur rec w))"
    unfolding acquire_reclaim_stage_def reclaimExpiredLease_def
    by (rule spends_mono, (rule spends_rules spends_refetch in_flight)+, simp)
qed

lemma spends_Acquire: "spends 12 w (snd (AcquireWithAuthority s gid t key p c dg a kl dur w))"
proof -
  have existing: "spends 11 w (snd (acquire_existing s k dg t dur w))" for k w
  proof (cases "LookupByKey (fst k) (fst (snd k)) (snd (snd k)) w")
    case (Pair r w1)
    then have "spends 1 w w1"
      using spends_reads(2) by (metis snd_conv)
    moreover have "spends 10 w1 (snd (acquire_existing s k dg t dur w))"
    proof (cases r)
      case (Inl e)
      have "spends 10 w1 (snd (case checkEpoch s w1 of (None, w2) \<Rightarrow> (case checkRecoveryMode w2 of (None, w3) \<Rightarrow> (Inl (LeaseErr LeaseStateConflict), w3)
          | (Some e, w3) \<Rightarrow> (Inl e, w3)) | (Some e, w2) \<Rightarrow> (Inl e, w2)))"
        by (rule spends_mono, (rule spends_rules)+, simp)
      then show ?thesis
        using Pair Inl by (cases e) (simp_all add: acquire_existing_def)
    next
      case (Inr rec)
      then show ?thesis
        using Pair spends_acquire_stages(4) by (simp add: acquire_existing_def split: option.split)
    qed
    ultimately show ?thesis
      by (rule spends_then) simp
  qed
  show ?thesis
    unfolding AcquireWithAuthority_def by (rule spends_mono, (rule spends_rules existing)+, simp)
qed

section \<open>Round trips of an execution\<close>

definition xspends :: "nat \<Rightarrow> xstate \<Rightarrow> xstate \<Rightarrow> bool" where
  "xspends n x x' \<longleftrightarrow> spends n (xs_world x) (xs_world x')"

lemma xspends_mono: "xspends m a b \<Longrightarrow> m \<le> n \<Longrightarrow> xspends n a b"
  by (simp add: xspends_def spends_mono)

lemma xspends_return: "xspends 0 x (snd (r, x))"
  by (simp add: xspends_def)

lemma xspends_case_pair:
  "xspends m x (snd p) \<Longrightarrow> (\<And>r x1. xspends n x1 (snd (f r x1))) \<Longrightarrow> xspends (m + n) x (snd (case p of (r, x1) \<Rightarrow> f r x1))"
  unfolding xspends_def by (cases p) (auto intro: spends_trans)

lemma xspends_case_pure: "(\<And>a b. xspends n x (snd (f a b))) \<Longrightarrow> xspends n x (snd (case p of (a, b) \<Rightarrow> f a b))"
  by (cases p) simp

lemma xspends_if: "xspends m x (snd a) \<Longrightarrow> xspends n x (snd b) \<Longrightarrow> xspends (max m n) x (snd (if c then a else b))"
  by (simp add: xspends_def spends_max)

lemma xspends_case_sum:
  "(\<And>e. xspends m x (snd (f e))) \<Longrightarrow> (\<And>y. xspends n x (snd (g y)))
    \<Longrightarrow> xspends (max m n) x (snd (case s of Inl e \<Rightarrow> f e | Inr y \<Rightarrow> g y))"
  by (cases s) (simp_all add: xspends_def spends_max)

lemma xspends_case_option:
  "xspends m x (snd f) \<Longrightarrow> (\<And>y. xspends n x (snd (g y)))
    \<Longrightarrow> xspends (max m n) x (snd (case s of None \<Rightarrow> f | Some y \<Rightarrow> g y))"
  by (cases s) (simp_all add: xspends_def spends_max)

lemma xspends_store: "(\<And>w. spends n w (snd (f w))) \<Longrightarrow> xspends n x (snd (on_store f x))"
  by (simp add: xspends_def on_store_def split: prod.split)
    (metis snd_conv)

lemmas xspends_rules = xspends_return xspends_case_pair xspends_case_pure xspends_if xspends_case_sum xspends_case_option
  xspends_store spends_reads spends_transitions spends_BeginExecution spends_Finalize spends_Acquire

lemma xspends_quiet_stages:
  "xspends 0 x (snd (recovered ce x))" "xspends 0 x (snd (gate_acquire ce a x))"
  "xspends 0 x (snd (dispatch ex ce req desc tok (Some lease) x))"
  using dispatch_leased_effect(1) [OF prod.collapse [symmetric]]
  by (simp_all add: xspends_def recovered_def gate_acquire_def dispatch_def split: prod.split)

lemma xspends_abandon: "xspends 4 x (abandonPreDispatch s eid t g x)"
  unfolding abandonPreDispatch_def by (rule xspends_store) (rule spends_transitions)

lemma xspends_refusals:
  "xspends 4 x (snd (r, abandonPreDispatch s eid t g x))" "xspends 4 x (snd (refuse s eid t g l resp x))"
  using xspends_abandon by (simp_all add: refuse_def release_def xspends_def)

lemma xspends_recovery_attempts: "xspends (5 * n) x (snd (recovery_attempts n ce s eid obs x))"
proof (induction n arbitrary: x)
  case (Suc n)
  show ?case
    unfolding recovery_attempts.simps
    by (rule xspends_mono, (rule xspends_rules xspends_quiet_stages Suc)+, simp)
qed (simp add: xspends_def)

lemma xspends_recover_uncertain:
  "xspends 15 x (snd (recover_uncertain ce s eid pr desc err m x))"
  "xspends 15 x (snd (recover_uncertain ce s eid pr desc err m (observeProviderOutcome ce desc out st x)))"
proof -
  show "xspends 15 x (snd (recover_uncertain ce s eid pr desc err m x))" for x
    unfolding recover_uncertain_def enterRecovery_def
    by (rule xspends_mono, (rule xspends_rules xspends_recovery_attempts)+, simp add: recoveryCASMaxAttempts_def)
  from this [of "observeProviderOutcome ce desc out st x"]
  show "xspends 15 x (snd (recover_uncertain ce s eid pr desc err m (observeProviderOutcome ce desc out st x)))"
    by (simp add: xspends_def observeProviderOutcome_def split: if_splits)
qed

lemma xspends_finalize_stage:
  "xspends 22 x (snd (finalize_stage ex ce s req desc dg eid t pr st resp x))"
  "xspends 22 x (snd (finalize_stage ex ce s req desc dg eid t pr st resp (observeProviderOutcome ce desc out st' x)))"
proof -
  show "xspends 22 x (snd (finalize_stage ex ce s req desc dg eid t pr st resp x))" for x
    unfolding finalize_stage_def Let_def
    by (rule xspends_mono, (rule xspends_rules xspends_recover_uncertain)+, simp)
  from this [of "observeProviderOutcome ce desc out st' x"]
  show "xspends 22 x (snd (finalize_stage ex ce s req desc dg eid t pr st resp (observeProviderOutcome ce desc out st' x)))"
    by (simp add: xspends_def observeProviderOutcome_def split: if_splits)
qed

lemma xspends_post_dispatch: "xspends 26 x (snd (post_dispatch ex ce s req desc dg eid t g out x))"
  unfolding post_dispatch_def Let_def
  by (rule xspends_mono, (rule xspends_rules xspends_recover_uncertain xspends_finalize_stage)+, simp)

lemma xspends_execute_leased: "xspends 34 x (snd (execute_leased ex ce s req desc dg eid t g l x))"
  unfolding execute_leased_def
  by (rule xspends_mono, (rule xspends_rules xspends_refusals xspends_quiet_stages xspends_post_dispatch)+, simp)

lemma xspends_execute_acquired: "xspends 34 x (snd (execute_acquired ex ce s req desc dg eid t g x))"
  unfolding execute_acquired_def
  by (rule xspends_mono, (rule xspends_rules xspends_refusals xspends_quiet_stages xspends_execute_leased)+, simp)

lemma xspends_acquire:
  "xspends 12 x (snd (acquire_request s gid t req desc dg x))" "xspends 12 x (snd (legacy_retry ce s req desc dg acq x))"
proof -
  show acquire: "xspends 12 x (snd (acquire_request s gid t req desc dg x))" for gid t dg
    unfolding acquire_request_def by (rule xspends_store) (rule spends_Acquire)
  show "xspends 12 x (snd (legacy_retry ce s req desc dg acq x))"
    unfolding legacy_retry_def by (rule xspends_mono, (rule xspends_rules acquire)+, simp)
qed

lemma xspends_execute_durable: "xspends 58 x (snd (execute_durable ex ce s req desc dg x))"
  unfolding execute_durable_def
  by (rule xspends_mono, (rule xspends_rules xspends_acquire xspends_execute_acquired)+, simp)

section \<open>Termination\<close>

definition answers :: "'a option \<times> xstate \<Rightarrow> bool" where
  "answers r \<longleftrightarrow> fst r \<noteq> None"

lemma answers_simps [simp]: "answers (Some a, x)" "\<not> answers (None, x)"
  by (simp_all add: answers_def)

lemma answers_cases:
  "(\<And>r x1. answers (f r x1)) \<Longrightarrow> answers (case p of (r, x1) \<Rightarrow> f r x1)"
  "answers a \<Longrightarrow> answers b \<Longrightarrow> answers (if c then a else b)"
  "(\<And>e. answers (g e)) \<Longrightarrow> (\<And>y. answers (h y)) \<Longrightarrow> answers (case s of Inl e \<Rightarrow> g e | Inr y \<Rightarrow> h y)"
  "answers n \<Longrightarrow> (\<And>y. answers (m y)) \<Longrightarrow> answers (case q of None \<Rightarrow> n | Some y \<Rightarrow> m y)"
  by (auto split: prod.split sum.split option.split)

lemma survives: "ce_crash ce = None \<Longrightarrow> dies ce p = False"
  by (simp add: dies_def)

lemma answers_recovery:
  "ce_crash ce = None \<Longrightarrow> answers (recovery_attempts n ce s eid obs x)"
  by (induction n arbitrary: x) (simp_all add: recovered_def survives split: prod.split sum.split option.split)

lemma answers_recover_uncertain: "ce_crash ce = None \<Longrightarrow> answers (recover_uncertain ce s eid pr desc err m x)"
  using answers_recovery [of ce recoveryCASMaxAttempts s eid "buildObservation pr desc" x]
  by (auto simp: recover_uncertain_def enterRecovery_def survives answers_def split: prod.split option.split)

lemma answers_finalize_stage:
  "ce_crash ce = None \<Longrightarrow> answers (finalize_stage ex ce s req desc dg eid t pr st resp x)"
  unfolding finalize_stage_def Let_def
  by (simp only: survives if_False) (intro answers_cases answers_simps answers_recover_uncertain)

lemma answers_post_dispatch:
  "ce_crash ce = None \<Longrightarrow> answers (post_dispatch ex ce s req desc dg eid t g out x)"
  unfolding post_dispatch_def Let_def
  by (simp only: survives if_False) (intro answers_cases answers_simps answers_recover_uncertain answers_finalize_stage)

lemma answers_dispatch:
  assumes "0 < xt_ProviderExecution (ex_timeouts ex)"
  shows "answers (dispatch ex ce req desc tok l x)"
  using assms
  by (auto simp: dispatch_def dispatch_leased_def call_provider_def Let_def split: option.split prod.split sum.split arrival.split)

lemma answers_execute_leased:
  assumes "ce_crash ce = None" "0 < xt_ProviderExecution (ex_timeouts ex)"
  shows "answers (execute_leased ex ce s req desc dg eid t g l x)"
proof -
  have disp: "answers (case dispatch ex ce req desc tok (Some l) x2 of (None, x3) \<Rightarrow> (None, x3) | (Some out, x3) \<Rightarrow>
      post_dispatch ex ce s req desc dg eid t g out x3)" for tok x2
    using answers_dispatch [OF assms(2), of ce req desc tok "Some l" x2] answers_post_dispatch [OF assms(1)]
    by (auto simp: answers_def split: prod.split option.split)
  show ?thesis
    unfolding execute_leased_def refuse_def
    by (simp only: survives [OF assms(1)] simp_thms if_False) (rule disp answers_simps answers_cases)+
qed

lemma answers_Execute:
  assumes "ce_crash ce = None" "0 < xt_ProviderExecution (ex_timeouts ex)"
  shows "answers (ExecuteWithIdempotency ex ce req desc x)"
proof -
  have "answers (execute_acquired ex ce s req desc dg eid t g x)" for s dg eid t g x
    unfolding execute_acquired_def using assms(1) answers_execute_leased [OF assms]
    by (simp add: survives split: prod.split sum.split)
  then have "answers (execute_durable ex ce s req desc dg x)" for s dg
    unfolding execute_durable_def by (intro answers_cases answers_simps)
  moreover have "answers (execute_unguarded ex ce req desc x)"
    using answers_dispatch [OF assms(2), of ce req desc "[]" None x]
    by (auto simp: execute_unguarded_def answers_def split: prod.split option.split)
  ultimately show ?thesis
    unfolding ExecuteWithIdempotency_def by (simp split: option.split sum.split)
qed

lemma xspends_Execute: "xspends 58 x (snd (ExecuteWithIdempotency ex ce req desc x))"
proof -
  have unguarded: "xspends 0 x (snd (execute_unguarded ex ce req desc x))"
    using execute_unguarded_effect [of ex ce req desc x] by (metis prod.collapse spends_refl xspends_def)
  show ?thesis
    unfolding ExecuteWithIdempotency_def
    by (rule xspends_mono, (rule xspends_rules xspends_execute_durable unguarded)+, simp)
qed

text \<open>
  C32. Every execution ends: as long as the process lives and provider calls have a ceiling, an
  execution answers after at most 58 database round trips, whatever the schedule, the faults and the
  other writers, and whether or not the provider ever answers.
\<close>

theorem every_execution_ends:
  assumes "ce_crash ce = None" "0 < xt_ProviderExecution (ex_timeouts ex)"
  shows "\<exists>resp x'. ExecuteWithIdempotency ex ce req desc x = (Some resp, x')
    \<and> length (w_ticks (xs_world x)) \<le> length (w_ticks (xs_world x')) + 58"
proof (cases "ExecuteWithIdempotency ex ce req desc x")
  case (Pair r x')
  then show ?thesis
    using answers_Execute [OF assms, of req desc x] xspends_Execute [of x ex ce req desc]
    by (auto simp: answers_def xspends_def spends_def)
qed

definition outage_world :: world where
  "outage_world = sample_world\<lparr>w_ticks := replicate 100 \<lparr> tk_now = 0, tk_others = (\<lambda>d. d), tk_fault = FaultCommit True \<rparr>\<rparr>"

theorem every_execution_ends_witness:
  "\<exists>resp x'. ExecuteWithIdempotency sample_executor (sample_env ''e1'' NoAnswer None) sample_request sample_descriptor
      (sample_xstate\<lparr>xs_world := outage_world\<rparr>) = (Some resp, x')
    \<and> 42 \<le> length (w_ticks (xs_world x'))"
proof -
  have "ce_crash (sample_env ''e1'' NoAnswer None) = None" "0 < xt_ProviderExecution (ex_timeouts sample_executor)"
      "length (w_ticks (xs_world (sample_xstate\<lparr>xs_world := outage_world\<rparr>))) = 100"
    by (simp_all add: sample_env_def sample_executor_def DefaultExecutorTimeouts_def outage_world_def)
  then show ?thesis
    using every_execution_ends [of "sample_env ''e1'' NoAnswer None" sample_executor sample_request sample_descriptor
        "sample_xstate\<lparr>xs_world := outage_world\<rparr>"] by force
qed

section \<open>Records come to rest\<close>

text \<open>An in-flight record that can still take the observation, with nobody else writing.\<close>

definition recoverable :: "store \<Rightarrow> string \<Rightarrow> provider_observation \<Rightarrow> world \<Rightarrow> bool" where
  "recoverable s eid obs w \<longleftrightarrow>
    calm w \<and> safe any_store w \<and> cm_epoch (w_db w) = st_epoch s
    \<and> (\<exists>er\<in>set (execution_requests (w_db w)).
         er_execution_id er = eid \<and> er_state er = StateInFlight \<and> observation_agrees obs er)"

definition resting :: "string \<Rightarrow> world \<Rightarrow> bool" where
  "resting eid w \<longleftrightarrow>
    (\<exists>er\<in>set (execution_requests (w_db w)).
       er_execution_id er = eid \<and> er_state er \<in> {StateUnknown, StateCommitted, StateFailed})"

lemma recoverable_bump [simp]: "recoverable s eid obs (bump_by n c w) = recoverable s eid obs w"
  by (simp add: recoverable_def safe_def bump_by_def calm_def)

lemma resting_bump [simp]: "resting eid (bump_by n c w) = resting eid w"
  by (simp add: resting_def)

lemma recoverable_kept:
  assumes "recoverable s eid obs w" "rows_kept w w'" "spends n w w'" "follows any_store w w'"
  shows "recoverable s eid obs w'"
  using assms spends_calm [OF assms(3)] unfolding recoverable_def rows_kept_def follows_def by auto

lemma recoverable_row:
  assumes "recoverable s eid obs w"
  obtains er where "rows_of eid (w_db w) = [er]" "er \<in> set (execution_requests (w_db w))" "er_execution_id er = eid"
    "er_state er = StateInFlight" "observation_agrees obs er" "Lookup eid w = (Inr er, w)"
proof -
  obtain er where er: "er \<in> set (execution_requests (w_db w))" "er_execution_id er = eid" "er_state er = StateInFlight"
      "observation_agrees obs er"
    using assms unfolding recoverable_def by blast
  have "reachable any_store (w_db w)" "calm w"
    using assms by (simp_all add: recoverable_def safe_def)
  then have "rows_of eid (w_db w) = [er]"
    using unique_rows_of [OF reachable_unique er(1)] er(2) by metis
  then show ?thesis
    using that er \<open>calm w\<close> by (simp add: Lookup_calm)
qed

lemma set_observation_agrees: "observation_agrees obs er \<Longrightarrow> observation_agrees obs (set_observation now obs er)"
proof -
  have col: "col_agrees (coalesce p c) p" if "col_agrees c p" for c p :: "string option"
    using that by (cases p) (simp_all add: col_agrees_def)
  assume "observation_agrees obs er"
  then show ?thesis
    by (simp add: observation_agrees_def set_observation_def col coalesce_to_def nullif_def)
qed

lemma enter_recovery_rests:
  assumes "recoverable s eid obs w" "canonicalizeObservation (st_crypto s) obs0 = Inr obs"
    and "er \<in> set (execution_requests (w_db w))" "er_execution_id er = eid" "er_state er = StateInFlight" "observation_agrees obs er"
  shows "\<exists>w'. EnterRecoveryWithObservation s eid StateInFlight (er_version er) obs0 w = (None, w') \<and> resting eid w'"
proof -
  let ?p = "\<lambda>er'. er_execution_id er' = eid \<and> er_state er' = StateInFlight \<and> er_version er' = er_version er
      \<and> observation_agrees obs er' \<and> epochGuard (st_epoch s) (w_db w)"
  let ?f = "\<lambda>er. set_observation (w_now w) obs (to_unknown (w_now w) er)"
  have p: "?p er"
    using assms by (simp add: epochGuard_def recoverable_def)
  then have "rows_affected ?p (execution_requests (w_db w)) \<noteq> 0"
    using assms(3) by (auto simp: rows_affected_def filter_empty_conv)
  then obtain d where d: "tx_EnterRecoveryWithObservation s eid StateInFlight (er_version er) (po_Result obs0) obs (w_now w) (w_db w) = TxCommit d ()"
      "execution_requests d = update_where ?p ?f (execution_requests (w_db w))"
    by (simp add: tx_EnterRecoveryWithObservation_def guarded_update_def commit_event_def)
  have "?f er \<in> set (execution_requests d)"
    using p assms(3) unfolding d(2) set_update_where by force
  then have "resting eid (w\<lparr>w_db := d\<rparr>)"
    using assms(4) unfolding resting_def by (auto simp: set_observation_def to_unknown_def intro!: bexI [of _ "?f er"])
  then show ?thesis
    using d(1) assms(1,2) by (auto simp: EnterRecoveryWithObservation_def isLegalTransition_iff exec_calm recoverable_def)
qed

lemma recovery_rests:
  assumes "recoverable s eid obs (xs_world x)" "canonicalizeObservation (st_crypto s) obs0 = Inr obs" "ce_crash ce = None"
  shows "resting eid (xs_world (snd (recovery_attempts (Suc n) ce s eid obs0 x)))"
proof -
  obtain er where er: "er \<in> set (execution_requests (w_db (xs_world x)))" "er_execution_id er = eid"
      "er_state er = StateInFlight" "observation_agrees obs er" "Lookup eid (xs_world x) = (Inr er, xs_world x)"
    using recoverable_row [OF assms(1)] by blast
  obtain w' where "EnterRecoveryWithObservation s eid StateInFlight (er_version er) obs0 (xs_world x) = (None, w')" "resting eid w'"
    using enter_recovery_rests [OF assms(1,2) er(1-4)] by blast
  then show ?thesis
    using er(3,5) by (simp add: on_store_def recovered_def survives [OF assms(3)])
qed

lemma recover_uncertain_rests:
  assumes "recoverable s eid obs (xs_world x)" "canonicalizeObservation (st_crypto s) (buildObservation pr desc) = Inr obs"
    and "ce_crash ce = None"
  shows "resting eid (xs_world (snd (recover_uncertain ce s eid pr desc err m x)))"
proof -
  have "recoveryCASMaxAttempts = Suc 2"
    by (simp add: recoveryCASMaxAttempts_def)
  then have "snd (recover_uncertain ce s eid pr desc err m x)
      = snd (recovery_attempts (Suc 2) ce s eid (buildObservation pr desc) x)"
    by (simp add: recover_uncertain_def enterRecovery_def survives [OF assms(3)] del: recovery_attempts.simps
        split: prod.split option.split)
  then show ?thesis
    using recovery_rests [OF assms, of 2] by simp
qed

lemma finalize_stage_rests:
  assumes rec: "recoverable s eid obs (xs_world x)" and obs: "canonicalizeObservation (st_crypto s) (buildObservation pr desc) = Inr obs"
    and crash: "ce_crash ce = None"
  shows "resting eid (xs_world (snd (finalize_stage ex ce s req desc dg eid t pr st resp x)))"
proof (cases "sign_receipt ex ce s desc resp (receipt_of req desc dg eid st resp)")
  case (Inl e)
  then show ?thesis
    using recover_uncertain_rests [OF assms] by (simp add: finalize_stage_def Let_def)
next
  case (Inr receipt)
  obtain er where look: "Lookup eid (xs_world x) = (Inr er, xs_world x)"
    using recoverable_row [OF rec] by blast
  obtain e w2 where fin: "Finalize s eid t (er_lease_generation er) StateInFlight receipt (xs_world x) = (e, w2)"
    by fastforce
  have w: "calm (xs_world x)" "safe any_store (xs_world x)"
    using rec by (simp_all add: recoverable_def)
  have stage: "finalize_stage ex ce s req desc dg eid t pr st resp x =
      (case e of Some _ \<Rightarrow> recover_uncertain ce s eid pr desc ''failed to finalize execution after dispatch''
           \<lparr> em_Provider = provider_of resp desc, em_RunID = run_of resp \<rparr> (x\<lparr>xs_world := w2\<rparr>)
       | None \<Rightarrow> (Some (with_execution desc eid resp), x\<lparr>xs_world := w2\<rparr>))"
    using Inr look fin by (simp add: finalize_stage_def Let_def on_store_def survives [OF crash] split: option.split)
  show ?thesis
  proof (cases e)
    case None
    then have "finalized_as (st_crypto s) eid receipt w2"
      using Finalize_durable [OF w(2)] fin by metis
    then have "resting eid w2"
      unfolding finalized_as_def resting_def terminal_row_def by blast
    then show ?thesis
      by (simp add: stage None)
  next
    case (Some err)
    then have "rows_kept (xs_world x) w2"
      using kept_terminal(1) [OF w(1), of s eid t "er_lease_generation er" StateInFlight receipt] fin by simp
    moreover have "spends 6 (xs_world x) w2" "follows any_store (xs_world x) w2"
      using spends_Finalize [of "xs_world x" s eid t "er_lease_generation er" StateInFlight receipt]
        follows_Finalize [of any_store s "xs_world x" eid t "er_lease_generation er" StateInFlight receipt] fin by simp_all
    ultimately have "recoverable s eid obs (xs_world (x\<lparr>xs_world := w2\<rparr>))"
      using recoverable_kept [OF rec] by simp
    then show ?thesis
      using recover_uncertain_rests [OF _ obs crash] by (simp add: stage Some)
  qed
qed

lemma observation_recoverable:
  assumes rec: "recoverable s eid obs w" and obs: "canonicalizeObservation (st_crypto s) obs0 = Inr obs"
    and run: "RecordProviderObservation s eid t g obs0 w = (e, w')"
  shows "recoverable s eid obs w'"
proof (cases e)
  case (Some err)
  have w: "calm w"
    using rec by (simp add: recoverable_def)
  show ?thesis
  proof (rule recoverable_kept [OF rec])
    show "rows_kept w w'"
      using kept_recovery(3) [OF w, of s eid t g obs0] run Some by simp
    show "spends 4 w w'"
      using spends_transitions(5) [of w s eid t g obs0] run by simp
    show "follows any_store w w'"
      using follows_RecordProviderObservation [of any_store s w eid t g obs0] run by simp
  qed
next
  case None
  have w: "calm w"
    using rec by (simp add: recoverable_def)
  obtain d where tx: "tx_RecordProviderObservation s eid t g (po_Result obs0) obs (w_now w) (w_db w) = TxCommit d ()"
      and w': "w' = bump observationWrites (w\<lparr>w_db := d\<rparr>)"
    using run None obs w by (auto simp: RecordProviderObservation_def exec_calm split: tx.splits prod.splits)
  let ?p = "\<lambda>er. er_execution_id er = eid
      \<and> (er_state er = StateInFlight \<and> nullableString t \<noteq> None \<and> er_lease_token er = nullableString t \<and> er_lease_generation er = g
         \<or> er_state er = StateUnknown)
      \<and> observation_agrees obs er \<and> epochGuard (st_epoch s) (w_db w)"
  have rows: "execution_requests d = update_where ?p (set_observation (w_now w) obs) (execution_requests (w_db w))"
    using guarded_update_commit [OF tx [unfolded tx_RecordProviderObservation_def]]
    by (auto simp: commit_event_def split: list.splits)
  obtain er where er: "er \<in> set (execution_requests (w_db w))" "er_execution_id er = eid" "er_state er = StateInFlight"
      "observation_agrees obs er"
    using recoverable_row [OF rec] by blast
  let ?er = "if ?p er then set_observation (w_now w) obs er else er"
  have "?er \<in> set (execution_requests d)"
    unfolding rows set_update_where using er(1) by blast
  moreover have "er_execution_id ?er = eid" "er_state ?er = StateInFlight" "observation_agrees obs ?er"
    using er set_observation_agrees by (simp_all add: set_observation_def)
  moreover have "spends 4 w w'" "follows any_store w w'"
    using spends_transitions(5) [of w s eid t g obs0] follows_RecordProviderObservation [of any_store s w eid t g obs0] run by simp_all
  ultimately show ?thesis
    using rec spends_calm [of 4 w w'] unfolding recoverable_def follows_def w' by auto
qed

lemma observe_world [simp]: "xs_world (observeProviderOutcome ce desc out st x) = xs_world x"
  by (simp add: observeProviderOutcome_def)

lemma post_dispatch_rests:
  assumes "recoverable s eid obs (xs_world x)" "ce_crash ce = None"
    and obs: "canonicalizeObservation (st_crypto s)
      (buildObservation (attested_response (st_crypto s) (do_Response out) (do_ProvableNoEffect out)) desc) = Inr obs"
  shows "resting eid (xs_world (snd (post_dispatch ex ce s req desc dg eid t g out x)))"
proof -
  let ?pr = "attested_response (st_crypto s) (do_Response out) (do_ProvableNoEffect out)"
  obtain e w1 where run: "RecordProviderObservation s eid t g (buildObservation ?pr desc) (xs_world x) = (e, w1)"
    by fastforce
  have "recoverable s eid obs w1"
    by (rule observation_recoverable [OF assms(1) obs run])
  then have "recoverable s eid obs (xs_world (observeProviderOutcome ce desc out st (x\<lparr>xs_world := w1\<rparr>)))" for st
    by simp
  then show ?thesis
    using recover_uncertain_rests [OF _ obs assms(2)] finalize_stage_rests [OF _ obs assms(2)] run
    by (simp add: post_dispatch_def Let_def on_store_def survives [OF assms(2)] split: prod.split)
qed

text \<open>
  What the executor needs of an adapter's answer to file it: the adapter names itself or nobody as the
  provider, and the result is JSON within the size bound.
\<close>

definition fileable :: "crypto \<Rightarrow> resolved_descriptor \<Rightarrow> response \<Rightarrow> bool" where
  "fileable C desc resp \<longleftrightarrow>
    (case rs_Execution resp of Some m \<Rightarrow> em_Provider m = [] \<or> em_Provider m = rd_AdapterID desc | None \<Rightarrow> True)
    \<and> \<not> isl (canonicalizeObservation C (buildObservation (attested_response C resp False) desc))"

fun well_behaved :: "crypto \<Rightarrow> resolved_descriptor \<Rightarrow> arrival \<Rightarrow> bool" where
  "well_behaved C desc (InTime resp) = fileable C desc resp"
| "well_behaved C desc (InGrace resp) = fileable C desc resp"
| "well_behaved C desc NoAnswer = True"

lemma fileable_observation:
  assumes "fileable C desc resp"
  obtains obs where "canonicalizeObservation C (buildObservation (attested_response C resp False) desc) = Inr obs"
    "po_ProviderID obs = rd_AdapterID desc"
proof -
  let ?o = "buildObservation (attested_response C resp False) desc"
  obtain obs where obs: "canonicalizeObservation C ?o = Inr obs"
    using assms by (cases "canonicalizeObservation C ?o") (auto simp: fileable_def)
  moreover have "po_ProviderID ?o = rd_AdapterID desc"
    using assms by (auto simp: fileable_def buildObservation_def attested_response_def Let_def split: option.splits)
  moreover have "po_ProviderID obs = po_ProviderID ?o"
    using obs by (auto simp: canonicalizeObservation_def Let_def split: if_splits sum.splits)
  ultimately show ?thesis
    using that by simp
qed

lemma ceiling_fileable: "fileable C desc (providerCeilingResponse desc)"
  by (simp add: fileable_def providerCeilingResponse_def attested_response_def buildObservation_def
      canonicalizeObservation_def Let_def)

lemma mark_recoverable:
  assumes run: "MarkInFlight s eid t g (rd_AdapterID desc) raw w = (None, w')" and w: "calm w" "safe any_store w"
    and obs: "po_ProviderID obs = rd_AdapterID desc"
  shows "recoverable s eid obs w'"
proof -
  obtain loc d where tx: "tx_MarkInFlight s eid t g (rd_AdapterID desc) loc (w_now w) (w_db w) = TxCommit d ()"
      and w': "w' = bump inFlight (w\<lparr>w_db := d\<rparr>)"
    using run w(1) by (auto simp: MarkInFlight_def exec_calm split: sum.splits tx.splits prod.splits)
  let ?f = "\<lambda>er. er\<lparr>er_state := StateInFlight, er_version := er_version er + 1,
      er_provider_id := nullableString (rd_AdapterID desc), er_recovery_locator := nullableString loc, er_updated_at := w_now w\<rparr>"
  obtain er where er: "er \<in> set (execution_requests (w_db w))" "er_execution_id er = eid" "er_state er = StateExecuting"
      "cm_epoch (w_db w) = st_epoch s" "?f er \<in> set (execution_requests d)"
    by (rule guarded_event_row [OF tx [unfolded tx_MarkInFlight_def]]) (simp add: epochGuard_def)
  have "row_inv any_store er"
    using w(2) er(1) reachable_row_inv [of any_store] unfolding safe_def by blast
  then have "no_provider er"
    using er(3) by (simp add: row_inv_pre pre_dispatch_def)
  then have "observation_agrees obs (?f er)"
    using obs by (simp add: observation_agrees_def no_provider_def provider_cols_def result_cols_def col_agrees_def)
  moreover have "er_execution_id (?f er) = eid" "er_state (?f er) = StateInFlight"
    using er(2) by simp_all
  moreover have "spends 4 w w'" "follows any_store w w'"
    using spends_transitions(2) [of w s eid t g "rd_AdapterID desc" raw]
      follows_MarkInFlight [of any_store s w eid t g "rd_AdapterID desc" raw] run by simp_all
  ultimately show ?thesis
    using w er(4,5) spends_calm [of 4 w w'] unfolding recoverable_def follows_def w'
    by (auto intro!: bexI [of _ "?f er"])
qed

lemma execute_leased_rests:
  assumes run: "execute_leased ex ce s req desc dg eid t g lease x = (r, x')" and calm: "calm (xs_world x)"
    and safe: "safe any_store (xs_world x)" and crash: "ce_crash ce = None" and ceiling: "0 < xt_ProviderExecution (ex_timeouts ex)"
    and answer: "\<And>tok. well_behaved (st_crypto s) desc (hd_Execute (ce_handler ce) req desc tok)"
    and called: "xs_invocations x' \<noteq> xs_invocations x"
  shows "resting eid (xs_world x')"
proof -
  obtain e1 x1 where start: "on_store (BeginExecution s eid t g) x = (e1, x1)"
    by fastforce
  note q1 = quiet_store(1) [of any_store s, OF _ start, simplified]
  have e1: "e1 = None" and "\<exists>lr. encoded_locator (ce_handler ce) req desc dg eid = Inr lr"
    using run called start quiet_trans [OF q1 quiet_refuse [of any_store s]]
    by (auto simp: execute_leased_def survives [OF crash] quiet_def split: option.splits sum.splits)
  then obtain locator raw where enc: "encoded_locator (ce_handler ce) req desc dg eid = Inr (locator, raw)"
    by auto
  obtain e2 x2 where mark: "on_store (MarkInFlight s eid t g (rd_AdapterID desc) raw) x1 = (e2, x2)"
    by fastforce
  note q2 = quiet_trans [OF q1 quiet_store(2) [of any_store s, OF _ mark, simplified]]
  have e2: "e2 = None"
    using run called start e1 enc mark quiet_trans [OF q2 quiet_refuse [of any_store s]]
    by (auto simp: execute_leased_def survives [OF crash] quiet_def split: option.splits)
  obtain out x3 where disp: "dispatch_leased ex ce req desc (rl_ExternalToken locator) lease x2 = (out, x3)"
    by fastforce
  have "answers (out, x3)"
    using answers_dispatch [OF ceiling, of ce req desc "rl_ExternalToken locator" "Some lease" x2] disp by (simp add: dispatch_def)
  then obtain o1 where out: "out = Some o1"
    by (auto simp: answers_def)
  have post: "post_dispatch ex ce s req desc dg eid t g o1 x3 = (r, x')"
    using run start e1 enc mark e2 disp out by (simp add: execute_leased_def dispatch_def survives [OF crash])
  have "xs_invocations x' = xs_invocations x3"
    using quiet_post_dispatch [of any_store s, OF _ post] by (simp add: quiet_def)
  then have "xs_invocations x3 \<noteq> xs_invocations x2"
    using called q2 by (simp add: quiet_def)
  then have "fileable (st_crypto s) desc (do_Response o1)" "\<not> do_ProvableNoEffect o1"
    using disp out ceiling answer [of "rl_ExternalToken locator"] ceiling_fileable
    by (auto simp: dispatch_leased_def call_provider_def release_def invoked_def not_invoked_def Let_def
        split: if_splits arrival.splits)
  then obtain obs where obs: "canonicalizeObservation (st_crypto s)
      (buildObservation (attested_response (st_crypto s) (do_Response o1) (do_ProvableNoEffect o1)) desc) = Inr obs"
      "po_ProviderID obs = rd_AdapterID desc"
    using fileable_observation by metis
  have "calm (xs_world x1)"
    using spends_calm [OF spends_BeginExecution calm, of s eid t g] start by (auto simp: on_store_def split: prod.splits)
  moreover have "MarkInFlight s eid t g (rd_AdapterID desc) raw (xs_world x1) = (None, xs_world x2)"
    using mark e2 by (auto simp: on_store_def split: prod.splits)
  ultimately have "recoverable s eid obs (xs_world x2)"
    using mark_recoverable quiet_safe [OF q1 safe] obs(2) by metis
  then have "recoverable s eid obs (xs_world x3)"
    using dispatch_leased_effect(1) [OF disp] by simp
  then show ?thesis
    using post_dispatch_rests [OF _ crash obs(1)] post by (metis snd_conv)
qed

definition rests :: "request \<Rightarrow> xstate \<Rightarrow> xstate \<Rightarrow> bool" where
  "rests req x x' \<longleftrightarrow>
    xs_invocations x' = xs_invocations x
    \<or> (\<exists>er\<in>set (execution_requests (w_db (xs_world x'))).
         key_of er = request_key req \<and> er_state er \<in> {StateUnknown, StateCommitted, StateFailed})"

lemma rests_quiet: "quiet any_store x x' \<Longrightarrow> rests req x x'"
  by (simp add: rests_def quiet_def)

lemma rests_after: "quiet any_store x x1 \<Longrightarrow> rests req x1 x' \<Longrightarrow> rests req x x'"
  by (simp add: rests_def quiet_def)

lemma execute_acquired_rests:
  assumes run: "execute_acquired ex ce s req desc dg eid t g x = (r, x')" and calm: "calm (xs_world x)"
    and safe: "safe any_store (xs_world x)" and crash: "ce_crash ce = None" and ceiling: "0 < xt_ProviderExecution (ex_timeouts ex)"
    and answer: "\<And>tok. well_behaved (st_crypto s) desc (hd_Execute (ce_handler ce) req desc tok)"
    and er: "er \<in> set (execution_requests (w_db (xs_world x)))" "er_execution_id er = eid" and key: "key_of er = request_key req"
  shows "rests req x x'"
proof -
  obtain l x1 where gate: "gate_acquire ce (rd_AdapterID desc) x = (l, x1)"
    by fastforce
  then have x1: "xs_world x1 = xs_world x" and q: "quiet any_store x x1"
    by (auto simp: gate_acquire_def split: prod.splits)
  have follows: "follows any_store (xs_world x) (xs_world x')"
    by (rule one_call_follows [OF execute_acquired_effect [OF run safe er key]])
  show ?thesis
  proof (cases "\<exists>lease. l = Inr lease \<and> \<not> deadlineExpired (rq_Deadline req) (ce_preflight ce)")
    case True
    then obtain lease where leased: "execute_leased ex ce s req desc dg eid t g lease x1 = (r, x')"
      using run gate by (auto simp: execute_acquired_def survives [OF crash])
    have "resting eid (xs_world x')" if "xs_invocations x' \<noteq> xs_invocations x1"
      using execute_leased_rests [OF leased] calm safe crash ceiling answer that x1 by metis
    moreover have "key_of er' = request_key req"
      if "er' \<in> set (execution_requests (w_db (xs_world x')))" "er_execution_id er' = eid" for er'
      using key_kept [OF follows safe er that] key by simp
    ultimately show ?thesis
      using q unfolding rests_def resting_def quiet_def by metis
  next
    case False
    then have "quiet any_store x x'"
      using run gate quiet_trans [OF q quiet_abandon [of any_store s]] quiet_abandon [of any_store s]
      by (auto simp: execute_acquired_def survives [OF crash] split: sum.splits if_splits)
    then show ?thesis
      by (rule rests_quiet)
  qed
qed

lemma execute_durable_rests:
  assumes run: "execute_durable ex ce s req desc dg x = (r, x')" and calm: "calm (xs_world x)"
    and safe: "safe any_store (xs_world x)" and crash: "ce_crash ce = None" and ceiling: "0 < xt_ProviderExecution (ex_timeouts ex)"
    and answer: "\<And>tok. well_behaved (st_crypto s) desc (hd_Execute (ce_handler ce) req desc tok)"
  shows "rests req x x'"
proof -
  obtain a x1 where acquire: "acquire_request s (ce_genID ce) (ce_token ce) req desc dg x = (a, x1)"
    by fastforce
  note q1 = quiet_acquire [of any_store s, OF _ acquire, simplified]
  note safe1 = quiet_safe [OF q1 safe]
  show ?thesis
  proof (cases a)
    case (Inl e)
    then show ?thesis
      using run acquire q1 by (simp add: execute_durable_def rests_quiet)
  next
    case (Inr acq0)
    obtain acq x2 where retry: "legacy_retry ce s req desc dg acq0 x1 = (acq, x2)"
      by fastforce
    note q2 = quiet_trans [OF q1 legacy_retry_effect(1) [OF retry safe1]]
    have "xspends 12 x x1" "xspends 12 x1 x2"
      using xspends_acquire(1) [of x s "ce_genID ce" "ce_token ce" req desc dg] xspends_acquire(2) [of x1 ce s req desc dg acq0]
        acquire retry by simp_all
    then have calm2: "calm (xs_world x2)"
      using calm spends_calm unfolding xspends_def by blast
    show ?thesis
    proof (cases "Acquired acq")
      case True
      then have "\<exists>genID token digest x0. acquire_request s genID token req desc digest x0 = (Inr acq, x2) \<and> safe any_store (xs_world x0)"
        using legacy_retry_effect(2) [OF retry safe1] acquire Inr safe safe1 retry
        by (auto simp: Acquired_def legacy_retry_def split: if_splits)
      then obtain er where "er \<in> set (execution_requests (w_db (xs_world x2)))"
          "er_execution_id er = er_execution_id (ar_Record acq)" "key_of er = request_key req"
        using acquire_request_holds True by metis
      moreover have "execute_acquired ex ce s req desc dg (er_execution_id (ar_Record acq)) (ar_LeaseToken acq)
          (ar_Generation acq) x2 = (r, x')"
        using run acquire Inr retry True by (auto simp: execute_durable_def Acquired_def)
      ultimately show ?thesis
        using rests_after [OF q2] execute_acquired_rests [OF _ calm2 quiet_safe [OF q2 safe] crash ceiling answer] by blast
    next
      case False
      then show ?thesis
        using run acquire Inr retry q2 by (auto simp: execute_durable_def rests_quiet split: if_splits)
    qed
  qed
qed


definition silent_run :: "response option \<times> xstate" where
  "silent_run = ExecuteWithIdempotency sample_executor (sample_env ''e1'' NoAnswer None) sample_request
     sample_descriptor sample_xstate"


text \<open>
  The condition on the result is needed: a result that is not JSON is refused by the observation and by
  the recovery entry alike, and the record stays in flight until its lease expires.
\<close>

definition garbled_run :: "response option \<times> xstate" where
  "garbled_run = ExecuteWithIdempotency sample_executor
     (sample_env ''e1'' (InTime (sample_answer\<lparr>rs_Result := ''garbled''\<rparr>)) None) sample_request sample_descriptor sample_xstate"

lemma malformed_result_strands_the_record:
  "map er_state (execution_requests (w_db (xs_world (snd garbled_run)))) = [StateInFlight]"
  by code_simp

end
