(* ===== verification/Reconcile.thy ===== *)
theory Reconcile
  imports ProviderGate StoreOperations
begin

text \<open>
  The reconciliation worker and its supervisor (\<^verbatim>\<open>internal/reconcile/worker.go\<close>,
  \<^verbatim>\<open>supervisor.go\<close>).  A worker claims records in recovery, asks a resolver what happened and
  files the answer; it also recovers executions whose lease expired.  Resolvers are adapter code, a
  parameter here.  The heartbeats that renew claims while a resolver runs are other writers of the
  store's world.

  The state is the store's world, the counters of every worker object, and the list of resolver calls
  made so far.  How the errors of the store and of the signer print is a parameter of the worker.
\<close>

section \<open>Worker\<close>

type_synonym resolver = "Record \<Rightarrow> string + recovery_result"

text \<open>\<open>wk_self\<close> identifies the worker object, to which its counters belong.\<close>

record worker =
  wk_self :: nat
  wk_store :: store
  wk_resolvers :: "(string \<times> resolver) list"
  wk_default :: "resolver option"
  wk_workerID :: string
  wk_batchSize :: int
  wk_claimDuration :: int
  wk_locatorRetention :: int
  wk_signer :: "(bytes \<times> (bytes \<Rightarrow> bytes)) option"
  wk_maxAttempts :: int
  wk_storeErrorText :: "store_error \<Rightarrow> string"
  wk_signErrorText :: "evidence_error \<Rightarrow> string"

definition NewWorker ::
    "nat \<Rightarrow> (store_error \<Rightarrow> string) \<Rightarrow> (evidence_error \<Rightarrow> string) \<Rightarrow> store \<Rightarrow> resolver option \<Rightarrow> string \<Rightarrow> worker" where
  "NewWorker self storeErrorText signErrorText s defaultResolver pid =
    \<lparr> wk_self = self, wk_store = s, wk_resolvers = [], wk_default = defaultResolver, wk_workerID = ''reconcile-'' @ pid,
      wk_batchSize = 100, wk_claimDuration = 5 * 60 * 1000000000,
      wk_locatorRetention = 7 * 24 * 3600 * 1000000000, wk_signer = None, wk_maxAttempts = 15,
      wk_storeErrorText = storeErrorText, wk_signErrorText = signErrorText \<rparr>"

definition SetWorkerID :: "string \<Rightarrow> worker \<Rightarrow> worker" where
  "SetWorkerID i w = w\<lparr>wk_workerID := i\<rparr>"

definition SetClaimDuration :: "int \<Rightarrow> worker \<Rightarrow> worker" where
  "SetClaimDuration d w = w\<lparr>wk_claimDuration := d\<rparr>"

definition SetEvidenceSigner :: "(bytes \<times> (bytes \<Rightarrow> bytes)) option \<Rightarrow> worker \<Rightarrow> worker" where
  "SetEvidenceSigner s w = w\<lparr>wk_signer := s\<rparr>"

definition SetMaxAttempts :: "int \<Rightarrow> worker \<Rightarrow> worker" where
  "SetMaxAttempts n w = w\<lparr>wk_maxAttempts := n\<rparr>"

definition RegisterResolver :: "string \<Rightarrow> resolver \<Rightarrow> worker \<Rightarrow> worker" where
  "RegisterResolver capabilityID r w = w\<lparr>wk_resolvers := (capabilityID, r) # wk_resolvers w\<rparr>"

definition unknown_result :: recovery_result where
  "unknown_result =
    \<lparr> rr_Decision = RecoveryUnknown, rr_Result = [], rr_EvidenceDigest = [], rr_ReceiptVersion = 0, rr_ProviderID = [],
      rr_ProviderRunID = [], rr_EvidenceReceipt = [], rr_EvidenceArtifact = [] \<rparr>"

definition resolve :: "worker \<Rightarrow> Record \<Rightarrow> string + recovery_result" where
  "resolve w rec =
    (case map_of (wk_resolvers w) (er_capability_id rec) of
       Some r \<Rightarrow> r rec
     | None \<Rightarrow> (case wk_default w of Some r \<Rightarrow> r rec | None \<Rightarrow> Inr unknown_result))"

definition NoopResolver :: resolver where
  "NoopResolver rec = Inr unknown_result"

text \<open>A resolver that reports inconclusive lookups to the provider gate.\<close>

definition observedResolver :: "string \<Rightarrow> resolver \<Rightarrow> Record \<Rightarrow> gate \<Rightarrow> (string + recovery_result) \<times> gate" where
  "observedResolver providerID inner rec g =
    (case inner rec of
       Inl e \<Rightarrow> (Inl e, RecordReconciliationFailure providerID g)
     | Inr res \<Rightarrow>
         (Inr res, if rr_Decision res = RecoveryUnknown then RecordReconciliationFailure providerID g else g))"

record worker_metrics =
  wm_CyclesStarted :: int
  wm_CyclesCompleted :: int
  wm_CyclesFailed :: int
  wm_ResolverFailures :: int
  wm_DeadLetters :: int

record lookup =
  lu_execution :: string
  lu_attempt :: int

record rstate =
  rc_world :: world
  rc_metrics :: "nat \<Rightarrow> worker_metrics"
  rc_lookups :: "lookup list"

definition Metrics :: "worker \<Rightarrow> rstate \<Rightarrow> worker_metrics" where
  "Metrics w st = rc_metrics st (wk_self w)"

definition tally :: "worker \<Rightarrow> (worker_metrics \<Rightarrow> worker_metrics) \<Rightarrow> rstate \<Rightarrow> rstate" where
  "tally w f st = st\<lparr>rc_metrics := (rc_metrics st)(wk_self w := f (Metrics w st))\<rparr>"

definition in_store :: "(world \<Rightarrow> 'a \<times> world) \<Rightarrow> rstate \<Rightarrow> 'a \<times> rstate" where
  "in_store f st = (case f (rc_world st) of (r, w) \<Rightarrow> (r, st\<lparr>rc_world := w\<rparr>))"

section \<open>Releasing a claim\<close>

definition reconcileBackoff :: "int \<Rightarrow> int" where
  "reconcileBackoff attempt =
    (let base = 30 * 1000000000;
         maxBackoff = 30 * 60 * 1000000000;
         a = (if attempt < 0 then 0 else attempt) in
     if a > 6 then maxBackoff
     else (let d = wrap64 (base * 2 ^ nat a) in if d > maxBackoff \<or> d \<le> 0 then maxBackoff else d))"

datatype reconcile_error =
    ClaimLostBeforeResolver store_error
  | SuspendFailed store_error
  | ResolverError string
  | NoSigner
  | NoArtifact
  | SignFailed evidence_error
  | ResolveFailed store_error
  | DeadLetterFailed store_error "reconcile_error option"
  | ReleaseFailed store_error "reconcile_error option"
  | NormalizeFailed store_error
  | MarkUnknownFailed store_error
  | ClaimUnknownFailed store_error
  | ClaimExpiredFailed store_error

text \<open>The dash of two error texts, in UTF-8.\<close>

definition em_dash :: string where
  "em_dash = [CHR 0xE2, CHR 0x80, CHR 0x94]"

fun reconcile_error_text :: "worker \<Rightarrow> reconcile_error \<Rightarrow> string" where
  "reconcile_error_text w (ClaimLostBeforeResolver e) =
     ''reconcile claim lost before resolver invocation: '' @ wk_storeErrorText w e"
| "reconcile_error_text w (SuspendFailed e) = wk_storeErrorText w e"
| "reconcile_error_text w (ResolverError e) = ''resolver error: '' @ e"
| "reconcile_error_text w NoSigner = ''no evidence signer configured '' @ em_dash @ '' cannot attest CRITICAL recovery''"
| "reconcile_error_text w NoArtifact = ''no evidence artifact supplied '' @ em_dash @ '' cannot attest CRITICAL recovery''"
| "reconcile_error_text w (SignFailed e) = ''failed to sign recovery evidence receipt: '' @ wk_signErrorText w e"
| "reconcile_error_text w (ResolveFailed e) = ''failed to resolve recovery: '' @ wk_storeErrorText w e"
| "reconcile_error_text w (DeadLetterFailed e orig) =
     ''failed to dead-letter reconcile claim: '' @ wk_storeErrorText w e @ '' (original: ''
     @ (case orig of None \<Rightarrow> ''<nil>'' | Some e' \<Rightarrow> reconcile_error_text w e') @ '')''"
| "reconcile_error_text w (ReleaseFailed e orig) =
     ''failed to release reconcile claim: '' @ wk_storeErrorText w e @ '' (original: ''
     @ (case orig of None \<Rightarrow> ''<nil>'' | Some e' \<Rightarrow> reconcile_error_text w e') @ '')''"
| "reconcile_error_text w (NormalizeFailed e) =
     ''failed to normalize expired pre-dispatch execution: '' @ wk_storeErrorText w e"
| "reconcile_error_text w (MarkUnknownFailed e) =
     ''failed to mark crashed execution as UNKNOWN: '' @ wk_storeErrorText w e"
| "reconcile_error_text w (ClaimUnknownFailed e) = ''failed to claim unknown records: '' @ wk_storeErrorText w e"
| "reconcile_error_text w (ClaimExpiredFailed e) = ''failed to claim expired leases: '' @ wk_storeErrorText w e"

definition ceiling_reason :: "worker \<Rightarrow> reconcile_error option \<Rightarrow> string" where
  "ceiling_reason w resolveErr =
    ''reconcile attempt ceiling reached''
    @ (case resolveErr of None \<Rightarrow> [] | Some e \<Rightarrow> '' (last error: '' @ reconcile_error_text w e @ '')'')"

definition releaseClaim :: "worker \<Rightarrow> Record \<Rightarrow> reconcile_error option \<Rightarrow> rstate \<Rightarrow> reconcile_error option \<times> rstate" where
  "releaseClaim w rec resolveErr st =
    (let effectiveAttempt = (if er_reconcile_attempt rec - 1 < 0 then 0 else er_reconcile_attempt rec - 1) in
     if 0 < wk_maxAttempts w \<and> wk_maxAttempts w \<le> er_reconcile_attempt rec then
       (case in_store (SuspendReconciliation (wk_store w) (er_execution_id rec) (er_version rec) (ceiling_reason w resolveErr)) st of
          (Some e, st1) \<Rightarrow> (Some (DeadLetterFailed e resolveErr), st1)
        | (None, st1) \<Rightarrow> (resolveErr, tally w (\<lambda>m. m\<lparr>wm_DeadLetters := wm_DeadLetters m + 1\<rparr>) st1))
     else
       (case in_store (ReleaseReconcileClaim (wk_store w) (er_execution_id rec) (er_version rec)
                         (reconcileBackoff effectiveAttempt)
                         (case resolveErr of None \<Rightarrow> [] | Some e \<Rightarrow> reconcile_error_text w e)) st of
          (Some e, st1) \<Rightarrow> (Some (ReleaseFailed e resolveErr), st1)
        | (None, st1) \<Rightarrow> (resolveErr, st1)))"

section \<open>Reconciling one record\<close>

definition recoveryOutcome :: "recovery_decision \<Rightarrow> string" where
  "recoveryOutcome d = (if d = RecoveryCommitted then OutcomeCompleted else OutcomeNoEffect)"

text \<open>The evidence boundary: the digest is computed from the artifact, or dropped with the receipt.\<close>

definition attested_result :: "crypto \<Rightarrow> recovery_result \<Rightarrow> recovery_result" where
  "attested_result C res =
    (if rr_EvidenceArtifact res \<noteq> [] then
       res\<lparr>rr_EvidenceDigest := sha256_hex C (rr_EvidenceArtifact res),
           rr_ReceiptVersion := (if rr_ReceiptVersion res = 0 then 3 else rr_ReceiptVersion res)\<rparr>
     else res\<lparr>rr_EvidenceDigest := [], rr_EvidenceReceipt := []\<rparr>)"

definition recovery_binding :: "Record \<Rightarrow> recovery_result \<Rightarrow> binding" where
  "recovery_binding rec res =
    \<lparr> bd_ExecutionID = er_execution_id rec, bd_Capability = er_capability_id rec,
      bd_Principal = er_principal_id rec, bd_RequestDigest = er_request_digest rec,
      bd_ProviderID = rr_ProviderID res, bd_ProviderRunID = rr_ProviderRunID res,
      bd_Outcome = recoveryOutcome (rr_Decision res), bd_EvidenceSHA256 = rr_EvidenceDigest res \<rparr>"

definition sign_result ::
    "worker \<Rightarrow> string \<Rightarrow> Record \<Rightarrow> recovery_result \<Rightarrow> reconcile_error + recovery_result" where
  "sign_result w issuedAt rec res =
    (if er_execution_class rec = ''CRITICAL'' \<and> (rr_Decision res = RecoveryCommitted \<or> rr_Decision res = RecoveryFailed) then
       (case wk_signer w of
          None \<Rightarrow> Inl NoSigner
        | Some (pub, sign) \<Rightarrow>
            if rr_EvidenceArtifact res = [] then Inl NoArtifact
            else
              (case Sign (st_crypto (wk_store w)) pub sign issuedAt (recovery_binding rec res) of
                 Inl e \<Rightarrow> Inl (SignFailed e)
               | Inr signed \<Rightarrow> Inr (res\<lparr>rr_EvidenceReceipt := signed\<rparr>)))
     else if er_execution_class rec \<noteq> ''CRITICAL'' then Inr (res\<lparr>rr_EvidenceReceipt := []\<rparr>)
     else Inr res)"

text \<open>What happens to the resolver's answer.\<close>

definition file_result ::
    "worker \<Rightarrow> string \<Rightarrow> Record \<Rightarrow> string + recovery_result \<Rightarrow> rstate \<Rightarrow> reconcile_error option \<times> rstate" where
  "file_result w issuedAt rec answer st =
    (case answer of
       Inl e \<Rightarrow>
         releaseClaim w rec (Some (ResolverError e))
           (tally w (\<lambda>m. m\<lparr>wm_ResolverFailures := wm_ResolverFailures m + 1\<rparr>) st)
     | Inr res \<Rightarrow>
         if rr_Decision res = RecoveryUnknown then releaseClaim w rec None st
         else
           (case sign_result w issuedAt rec (attested_result (st_crypto (wk_store w)) res) of
              Inl e \<Rightarrow> releaseClaim w rec (Some e) st
            | Inr signed \<Rightarrow>
                (case in_store (ResolveRecovery (wk_store w) (er_execution_id rec) (er_version rec) signed) st of
                   (Some e, st1) \<Rightarrow> releaseClaim w rec (Some (ResolveFailed e)) st1
                 | (None, st1) \<Rightarrow> (None, st1))))"

definition reconcileOne :: "worker \<Rightarrow> string \<Rightarrow> Record \<Rightarrow> rstate \<Rightarrow> reconcile_error option \<times> rstate" where
  "reconcileOne w issuedAt rec st =
    (if 0 < wk_maxAttempts w \<and> wk_maxAttempts w < er_reconcile_attempt rec then
       (case in_store (SuspendReconciliation (wk_store w) (er_execution_id rec) (er_version rec) (ceiling_reason w None)) st of
          (Some e, st1) \<Rightarrow> (Some (SuspendFailed e), st1)
        | (None, st1) \<Rightarrow> (None, tally w (\<lambda>m. m\<lparr>wm_DeadLetters := wm_DeadLetters m + 1\<rparr>) st1))
     else
       (case in_store (RenewReconcileClaim (wk_store w) (er_execution_id rec) (er_version rec) (wk_claimDuration w)) st of
          (Some e, st1) \<Rightarrow> (Some (ClaimLostBeforeResolver e), st1)
        | (None, st1) \<Rightarrow>
            file_result w issuedAt rec (resolve w rec)
              (st1\<lparr>rc_lookups := rc_lookups st1
                     @ [\<lparr> lu_execution = er_execution_id rec, lu_attempt = er_reconcile_attempt rec \<rparr>]\<rparr>)))"

text \<open>The deadline of the resolver and the period of the heartbeats that renew its claim.\<close>

definition resolve_timeout :: "worker \<Rightarrow> int" where
  "resolve_timeout w =
    (let t = wrap64 (wk_claimDuration w * 4) in if t \<le> 0 then 20 * 60 * 1000000000 else t)"

definition claim_heartbeat_interval :: "worker \<Rightarrow> int" where
  "claim_heartbeat_interval w =
    (let i = trunc_div (wk_claimDuration w) 3;
         i' = (if i \<le> 0 then 60 * 1000000000 else i) in
     if i' < 50 * 1000000 then 50 * 1000000 else i')"

definition batchClaimHeartbeat_tick :: "worker \<Rightarrow> Record list \<Rightarrow> world \<Rightarrow> world" where
  "batchClaimHeartbeat_tick w recs =
    fold (\<lambda>rec wd. snd (RenewReconcileClaim (wk_store w) (er_execution_id rec) (er_version rec) (wk_claimDuration w) wd)) recs"

section \<open>Crashed executions\<close>

definition recoverCrashed :: "worker \<Rightarrow> Record \<Rightarrow> rstate \<Rightarrow> reconcile_error option \<times> rstate" where
  "recoverCrashed w rec st =
    (let release = (\<lambda>st. snd (in_store (ReleaseReconcileClaim (wk_store w) (er_execution_id rec) (er_version rec) 0 []) st)) in
     if er_state rec = StatePrepared \<or> er_state rec = StateExecuting then
       (case in_store (RecoverExpiredPreDispatch (wk_store w) (er_execution_id rec) (er_version rec)) st of
          (e, st1) \<Rightarrow> (map_option NormalizeFailed e, release st1))
     else if er_state rec = StateInFlight then
       (case in_store (EnterRecovery (wk_store w) (er_execution_id rec) StateInFlight (er_version rec)) st of
          (e, st1) \<Rightarrow> (map_option MarkUnknownFailed e, st1))
     else (None, release st))"

section \<open>Cycles\<close>

definition reconcileAllOnce :: "worker \<Rightarrow> string \<Rightarrow> rstate \<Rightarrow> reconcile_error option \<times> rstate" where
  "reconcileAllOnce w issuedAt st =
    (case in_store (ClaimUnknownBatch (wk_store w) (wk_workerID w) (wk_batchSize w) (wk_claimDuration w)) st of
       (Inl e, st1) \<Rightarrow> (Some (ClaimUnknownFailed e), st1)
     | (Inr claimed, st1) \<Rightarrow>
         (let st2 = fold (\<lambda>rec st. snd (reconcileOne w issuedAt rec st)) claimed st1 in
          case in_store (ClaimExpiredBatch (wk_store w) (wk_workerID w) (wk_batchSize w) (wk_claimDuration w)) st2 of
            (Inl e, st3) \<Rightarrow> (Some (ClaimExpiredFailed e), st3)
          | (Inr expired, st3) \<Rightarrow>
              (let st4 = fold (\<lambda>rec st. snd (recoverCrashed w rec st)) expired st3 in
               (None,
                if 0 < wk_locatorRetention w
                then snd (in_store (ScrubStaleRecoveryLocators (wk_store w) (wk_locatorRetention w)) st4)
                else st4))))"

definition reconcileAll :: "worker \<Rightarrow> string \<Rightarrow> rstate \<Rightarrow> reconcile_error option \<times> rstate" where
  "reconcileAll w issuedAt st =
    (case reconcileAllOnce w issuedAt (tally w (\<lambda>m. m\<lparr>wm_CyclesStarted := wm_CyclesStarted m + 1\<rparr>) st) of
       (Some e, st1) \<Rightarrow> (Some e, tally w (\<lambda>m. m\<lparr>wm_CyclesFailed := wm_CyclesFailed m + 1\<rparr>) st1)
     | (None, st1) \<Rightarrow> (None, tally w (\<lambda>m. m\<lparr>wm_CyclesCompleted := wm_CyclesCompleted m + 1\<rparr>) st1))"

definition RunCycle :: "worker \<Rightarrow> string \<Rightarrow> rstate \<Rightarrow> reconcile_error option \<times> rstate" where
  "RunCycle w issuedAt st = reconcileAll w issuedAt st"

section \<open>Supervisor\<close>

record supervisor_config =
  sc_Interval :: int
  sc_DegradedAfterCycleAge :: int
  sc_NotReadyAfterCycleAge :: int
  sc_MaxConsecutiveFailures :: int
  sc_MaxUnknownAge :: int

datatype health_state = HealthReady | HealthDegraded | HealthNotReady

text \<open>A zero \<^verbatim>\<open>time.Time\<close> is \<open>None\<close>.\<close>

record supervisor =
  sv_worker :: worker
  sv_hasStore :: bool
  sv_config :: supervisor_config
  sv_running :: bool
  sv_stopped :: bool
  sv_lastCycleStarted :: "int option"
  sv_lastCycleCompleted :: "int option"
  sv_lastSuccess :: "int option"
  sv_consecutiveFailures :: int
  sv_lastError :: string
  sv_state :: health_state

definition supervisor_defaults :: "supervisor_config \<Rightarrow> supervisor_config" where
  "supervisor_defaults c =
    (let i = (if sc_Interval c \<le> 0 then 30 * 1000000000 else sc_Interval c) in
     c\<lparr>sc_Interval := i,
       sc_DegradedAfterCycleAge := (if sc_DegradedAfterCycleAge c \<le> 0 then wrap64 (3 * i) else sc_DegradedAfterCycleAge c),
       sc_NotReadyAfterCycleAge := (if sc_NotReadyAfterCycleAge c \<le> 0 then wrap64 (10 * i) else sc_NotReadyAfterCycleAge c)\<rparr>)"

definition NewSupervisor :: "worker \<Rightarrow> bool \<Rightarrow> supervisor_config \<Rightarrow> supervisor" where
  "NewSupervisor w hasStore config =
    \<lparr> sv_worker = w, sv_hasStore = hasStore, sv_config = supervisor_defaults config, sv_running = False, sv_stopped = False,
      sv_lastCycleStarted = None, sv_lastCycleCompleted = None, sv_lastSuccess = None, sv_consecutiveFailures = 0,
      sv_lastError = [], sv_state = HealthNotReady \<rparr>"

datatype health_reason =
    ReconcilerStopped | ReconcilerNotStarted | StaleCycle int int | ConsecutiveFailures int
  | BacklogUnreadable store_error | OldUnknown int int

record health =
  hl_State :: health_state
  hl_Reasons :: "health_reason list"
  hl_ReconcilerRunning :: bool
  hl_ReconcilerStopped :: bool
  hl_LastCycleStarted :: "int option"
  hl_LastCycleCompleted :: "int option"
  hl_LastSuccess :: "int option"
  hl_ConsecutiveFailures :: int
  hl_LastError :: string
  hl_UnknownPending :: int
  hl_UnknownOldestAge :: int
  hl_Metrics :: worker_metrics

text \<open>\<^verbatim>\<open>time.Time.Sub\<close> saturates at the range of a duration.\<close>

definition time_sub :: "int \<Rightarrow> int \<Rightarrow> int" where
  "time_sub a b = max (- (2 ^ 63)) (min (2 ^ 63 - 1) (a - b))"

definition lifecycle_reasons :: "supervisor \<Rightarrow> health_reason list" where
  "lifecycle_reasons s =
    (if sv_stopped s then [ReconcilerStopped]
     else if \<not> (sv_running s \<and> \<not> sv_stopped s) \<and> sv_lastCycleStarted s = None then [ReconcilerNotStarted]
     else [])"

definition cycle_age :: "int \<Rightarrow> supervisor \<Rightarrow> int option" where
  "cycle_age now s = map_option (time_sub now) (sv_lastSuccess s)"

definition stale_not_ready :: "int \<Rightarrow> supervisor \<Rightarrow> health_reason list" where
  "stale_not_ready now s =
    (case cycle_age now s of
       None \<Rightarrow> []
     | Some age \<Rightarrow> if age > sc_NotReadyAfterCycleAge (sv_config s) then [StaleCycle age (sc_NotReadyAfterCycleAge (sv_config s))] else [])"

definition stale_degraded :: "int \<Rightarrow> supervisor \<Rightarrow> health_reason list" where
  "stale_degraded now s =
    (case cycle_age now s of
       None \<Rightarrow> []
     | Some age \<Rightarrow>
         if age > sc_NotReadyAfterCycleAge (sv_config s) then []
         else if age > sc_DegradedAfterCycleAge (sv_config s) then [StaleCycle age (sc_DegradedAfterCycleAge (sv_config s))] else [])"

definition failure_reasons :: "supervisor \<Rightarrow> health_reason list" where
  "failure_reasons s =
    (if 0 < sc_MaxConsecutiveFailures (sv_config s)
        \<and> sc_MaxConsecutiveFailures (sv_config s) \<le> sv_consecutiveFailures s
     then [ConsecutiveFailures (sv_consecutiveFailures s)] else [])"

definition Health :: "int \<Rightarrow> supervisor \<Rightarrow> rstate \<Rightarrow> health \<times> rstate" where
  "Health now s st =
    (let notReady = lifecycle_reasons s @ stale_not_ready now s @ failure_reasons s;
         backlog = (if sv_hasStore s then in_store ReconciliationBacklog st else (Inr (0, None), st));
         pending = (case fst backlog of Inl e \<Rightarrow> 0 | Inr (n, oldest) \<Rightarrow> int n);
         oldestAge = (case fst backlog of
            Inl e \<Rightarrow> 0
          | Inr (n, None) \<Rightarrow> 0
          | Inr (n, Some t) \<Rightarrow> time_sub now (t * 1000000));
         degraded = stale_degraded now s
           @ (case fst backlog of
                Inl e \<Rightarrow> [BacklogUnreadable e]
              | Inr (n, None) \<Rightarrow> []
              | Inr (n, Some t) \<Rightarrow>
                  if 0 < sc_MaxUnknownAge (sv_config s) \<and> oldestAge > sc_MaxUnknownAge (sv_config s)
                  then [OldUnknown oldestAge (sc_MaxUnknownAge (sv_config s))] else []) in
     (\<lparr> hl_State = (if notReady \<noteq> [] then HealthNotReady else if degraded \<noteq> [] then HealthDegraded else HealthReady),
        hl_Reasons = (if notReady \<noteq> [] then notReady else degraded),
        hl_ReconcilerRunning = (sv_running s \<and> \<not> sv_stopped s), hl_ReconcilerStopped = sv_stopped s,
        hl_LastCycleStarted = sv_lastCycleStarted s, hl_LastCycleCompleted = sv_lastCycleCompleted s,
        hl_LastSuccess = sv_lastSuccess s, hl_ConsecutiveFailures = sv_consecutiveFailures s,
        hl_LastError = sv_lastError s,
        hl_UnknownPending = pending, hl_UnknownOldestAge = oldestAge, hl_Metrics = Metrics (sv_worker s) st \<rparr>,
      snd backlog))"

text \<open>One tick of the loop: the cycle, its bookkeeping and the health that is published.\<close>

definition supervisor_runCycle ::
    "int \<Rightarrow> int \<Rightarrow> int \<Rightarrow> string \<Rightarrow> supervisor \<times> rstate \<Rightarrow> health \<times> supervisor \<times> rstate" where
  "supervisor_runCycle started completed now issuedAt sst =
    (let s = fst sst in
     case RunCycle (sv_worker s) issuedAt (snd sst) of
       (err, st1) \<Rightarrow>
         (let s1 = (case err of
                Some e \<Rightarrow> s\<lparr>sv_lastCycleStarted := Some started, sv_lastCycleCompleted := Some completed,
                            sv_consecutiveFailures := sv_consecutiveFailures s + 1, sv_lastError := reconcile_error_text (sv_worker s) e\<rparr>
              | None \<Rightarrow> s\<lparr>sv_lastCycleStarted := Some started, sv_lastCycleCompleted := Some completed,
                          sv_consecutiveFailures := 0, sv_lastSuccess := Some completed, sv_lastError := []\<rparr>) in
          case Health now s1 st1 of
            (h, st2) \<Rightarrow> (h, s1\<lparr>sv_state := hl_State h\<rparr>, st2)))"

definition supervisor_start :: "supervisor \<Rightarrow> supervisor" where
  "supervisor_start s = s\<lparr>sv_running := True\<rparr>"

definition supervisor_stop :: "supervisor \<Rightarrow> supervisor" where
  "supervisor_stop s = s\<lparr>sv_running := False, sv_stopped := True\<rparr>"

end
