(* ===== verification/ReconcileRuns.thy ===== *)
theory ReconcileRuns
  imports Reconcile StoreFinality
begin

text \<open>
  Reconciliation over time.  First, the claim counter of a record never goes back, whoever writes to the
  database.  Then a pool of workers that claim and reconcile in any order, among other clients and among
  crashes: every claim is a ticket no other claim repeats, so the attempt ceiling bounds the provider
  lookups of a record.
\<close>

section \<open>The claim counter\<close>

definition counts_up :: "exec_row \<Rightarrow> exec_row \<Rightarrow> bool" where
  "counts_up er er' \<longleftrightarrow>
    er_execution_id er' = er_execution_id er \<and> er_reconcile_attempt er \<le> er_reconcile_attempt er'"

lemma counts_up_refl [simp]: "counts_up er er"
  by (simp add: counts_up_def)

definition attempts_grow :: "exec_row list \<Rightarrow> exec_row list \<Rightarrow> bool" where
  "attempts_grow rs rs' \<longleftrightarrow>
    (\<exists>old new. rs' = old @ new \<and> list_all2 counts_up rs old \<and> (\<forall>er\<in>set new. er_reconcile_attempt er = 0))"

lemma grow_same: "rs' = rs \<Longrightarrow> attempts_grow rs rs'"
  unfolding attempts_grow_def by (rule exI [of _ rs], rule exI [of _ "[]"]) (simp add: list_all2_same)

lemma grow_update:
  assumes "\<And>er. er \<in> set rs \<Longrightarrow> p er \<Longrightarrow> counts_up er (f er)"
  shows "attempts_grow rs (update_where p f rs)"
  unfolding attempts_grow_def
  by (rule exI [of _ "update_where p f rs"], rule exI [of _ "[]"])
    (use assms in \<open>auto simp: update_where_def list_all2_map2 list_all2_same\<close>)

lemma grow_guarded:
  assumes "guarded_update p f k d = TxCommit d' x"
    and "\<And>d1 d2 y. k d1 = TxCommit d2 y \<Longrightarrow> execution_requests d2 = execution_requests d1"
    and "\<And>er. er \<in> set (execution_requests d) \<Longrightarrow> p er \<Longrightarrow> counts_up er (f er)"
  shows "attempts_grow (execution_requests d) (execution_requests d')"
proof -
  have "execution_requests d' = update_where p f (execution_requests d)"
    using assms(2) [OF guarded_update_commit [OF assms(1)]] by simp
  then show ?thesis
    using grow_update assms(3) by simp
qed

lemma grow_event:
  assumes "guarded_update p f (commit_event now eid ev) d = TxCommit d' x"
    and "\<And>er. er \<in> set (execution_requests d) \<Longrightarrow> p er \<Longrightarrow> counts_up er (f er)"
  shows "attempts_grow (execution_requests d) (execution_requests d')"
  using assms(1) commit_event_rows assms(2) by (rule grow_guarded)

lemma grow_claim:
  assumes "claim_batch s p f ev n now d = TxCommit d' recs"
    and "\<And>er. counts_up er (f er)"
  shows "attempts_grow (execution_requests d) (execution_requests d')"
  by (simp add: claim_batch_commit(3) [OF assms(1)] grow_update assms(2))

lemma grow_insert:
  assumes "tx_insert s g k p c dg a kl t dur now d = TxCommit d' x"
  shows "attempts_grow (execution_requests d) (execution_requests d')"
proof -
  obtain er where "execution_requests d' = execution_requests d @ [er]" "er_reconcile_attempt er = 0"
    using assms by (auto simp: tx_insert_def Let_def new_row_def split: if_splits)
  then show ?thesis
    unfolding attempts_grow_def by (intro exI conjI) (auto simp: list_all2_same)
qed

lemma grow_events:
  "tx_acquireUnleased s rec t dur now d = TxCommit d' x \<Longrightarrow> attempts_grow (execution_requests d) (execution_requests d')"
  "tx_reclaimExpiredLease s rec t dur now d = TxCommit d' x \<Longrightarrow> attempts_grow (execution_requests d) (execution_requests d')"
  "tx_markInFlightExpiredAsUnknown s rec act now d = TxCommit d' x \<Longrightarrow> attempts_grow (execution_requests d) (execution_requests d')"
  "tx_leaseFencedTransition s eid t g fs ts now d = TxCommit d' x \<Longrightarrow> attempts_grow (execution_requests d) (execution_requests d')"
  "tx_MarkInFlight s eid t g p loc now d = TxCommit d' x \<Longrightarrow> attempts_grow (execution_requests d) (execution_requests d')"
  "tx_RenewLease s eid t g dur now d = TxCommit d' x \<Longrightarrow> attempts_grow (execution_requests d) (execution_requests d')"
  "tx_AbandonPreDispatch s eid t g now d = TxCommit d' x \<Longrightarrow> attempts_grow (execution_requests d) (execution_requests d')"
  "tx_Finalize s eid t g es receipt rd v now d = TxCommit d' x \<Longrightarrow> attempts_grow (execution_requests d) (execution_requests d')"
  "tx_EnterRecovery s eid es v now d = TxCommit d' x \<Longrightarrow> attempts_grow (execution_requests d) (execution_requests d')"
  "tx_RecoverExpiredPreDispatch s eid v now d = TxCommit d' x \<Longrightarrow> attempts_grow (execution_requests d) (execution_requests d')"
  "tx_ReleaseReconcileClaim s eid v bo le now d = TxCommit d' x \<Longrightarrow> attempts_grow (execution_requests d) (execution_requests d')"
  "tx_SuspendReconciliation s eid v reason now d = TxCommit d' x \<Longrightarrow> attempts_grow (execution_requests d) (execution_requests d')"
  "tx_RenewReconcileClaim s eid v dur now d = TxCommit d' x \<Longrightarrow> attempts_grow (execution_requests d) (execution_requests d')"
  by (simp only: tx_defs Let_def, erule grow_event, simp add: counts_up_def to_unknown_def)+

lemma grow_observed:
  "tx_EnterRecoveryWithObservation s eid es v raw obs now d = TxCommit d' x \<Longrightarrow> attempts_grow (execution_requests d) (execution_requests d')"
  "tx_RecordProviderObservation s eid t g raw obs now d = TxCommit d' x \<Longrightarrow> attempts_grow (execution_requests d) (execution_requests d')"
  "tx_ResolveUnknown s eid v now d = TxCommit d' x \<Longrightarrow> attempts_grow (execution_requests d) (execution_requests d')"
  "tx_ResolveRecovery s eid v ns res robs rd now d = TxCommit d' x \<Longrightarrow> attempts_grow (execution_requests d) (execution_requests d')"
     apply (simp only: tx_defs Let_def, erule grow_guarded; force simp: commit_event_def counts_up_def to_unknown_def set_observation_def)
    apply (simp only: tx_RecordProviderObservation_def, erule grow_guarded;
      force simp: commit_event_def counts_up_def set_observation_def split: list.splits)
   apply (simp only: tx_defs Let_def, erule grow_guarded; force simp: counts_up_def)
  apply (simp only: tx_defs Let_def, erule grow_guarded; force simp: commit_event_def counts_up_def)
  done

lemma grow_claims:
  "tx_ClaimUnknownBatch s owner n dur now d = TxCommit d' x \<Longrightarrow> attempts_grow (execution_requests d) (execution_requests d')"
  "tx_ClaimExpiredBatch s owner n dur now d = TxCommit d' x \<Longrightarrow> attempts_grow (execution_requests d) (execution_requests d')"
  by (simp only: tx_ClaimUnknownBatch_def tx_ClaimExpiredBatch_def, erule grow_claim, simp add: counts_up_def)+

lemma grow_scrub:
  "tx_ScrubStaleRecoveryLocators s older now d = TxCommit d' x \<Longrightarrow> attempts_grow (execution_requests d) (execution_requests d')"
  by (auto simp: tx_ScrubStaleRecoveryLocators_def counts_up_def intro!: grow_update)

lemma db_step_attempts: "db_step OK l d d' \<Longrightarrow> attempts_grow (execution_requests d) (execution_requests d')"
  by (cases rule: db_step.cases, assumption)
    (blast intro: grow_same grow_insert grow_events grow_observed grow_claims grow_scrub evolve_cluster)+

lemma grow_row:
  assumes "attempts_grow rs rs'" "er \<in> set rs"
  shows "\<exists>er'\<in>set rs'. counts_up er er'"
proof -
  obtain old new where split: "rs' = old @ new" "list_all2 counts_up rs old"
    using assms(1) by (auto simp: attempts_grow_def)
  obtain i where i: "i < length rs" "er = rs ! i"
    using assms(2) by (auto simp: in_set_conv_nth)
  then have "counts_up er (old ! i)" "i < length old"
    using split(2) by (auto simp: list_all2_conv_all_nth)
  then show ?thesis
    using split(1) by (auto intro!: bexI [of _ "old ! i"])
qed

lemma attempts_kept:
  assumes "db_steps OK d d'" "er \<in> set (execution_requests d)"
  shows "\<exists>er'\<in>set (execution_requests d'). counts_up er er'"
  using assms(1) unfolding db_steps_def
proof (induction rule: rtranclp_induct)
  case base
  then show ?case
    using assms(2) counts_up_refl by blast
next
  case (step d1 d2)
  then obtain er1 l where "er1 \<in> set (execution_requests d1)" "counts_up er er1" "db_step OK l d1 d2"
    by blast
  then obtain er2 where "er2 \<in> set (execution_requests d2)" "counts_up er1 er2"
    using grow_row db_step_attempts by blast
  then show ?case
    using \<open>counts_up er er1\<close> by (intro bexI [of _ er2]) (auto simp: counts_up_def)
qed

lemma grow_nonneg:
  assumes "attempts_grow rs rs'" "\<And>er. er \<in> set rs \<Longrightarrow> 0 \<le> er_reconcile_attempt er" "er' \<in> set rs'"
  shows "0 \<le> er_reconcile_attempt er'"
proof -
  obtain old new where split: "rs' = old @ new" "list_all2 counts_up rs old" "\<forall>er\<in>set new. er_reconcile_attempt er = 0"
    using assms(1) by (auto simp: attempts_grow_def)
  show ?thesis
  proof (cases "er' \<in> set old")
    case True
    then obtain i where i: "i < length old" "er' = old ! i"
      by (auto simp: in_set_conv_nth)
    then have "counts_up (rs ! i) er'" "i < length rs"
      using split(2) by (auto simp: list_all2_conv_all_nth)
    then show ?thesis
      using assms(2) [of "rs ! i"] by (simp add: counts_up_def)
  qed (use split assms(3) in auto)
qed

lemma attempts_nonneg:
  "reachable OK d \<Longrightarrow> er \<in> set (execution_requests d) \<Longrightarrow> 0 \<le> er_reconcile_attempt er"
proof (induction arbitrary: er rule: reachable.induct)
  case (init now)
  then show ?case
    by (simp add: initial_db_def)
next
  case (step d l d')
  then show ?case
    using grow_nonneg [OF db_step_attempts] by blast
qed

section \<open>What the steps of a cycle do to the state\<close>

definition rfollows :: "rstate \<Rightarrow> rstate \<Rightarrow> bool" where
  "rfollows st st' \<longleftrightarrow> follows any_store (rc_world st) (rc_world st')"

lemma rfollows_refl [simp]: "rfollows st st"
  by (simp add: rfollows_def)

lemma rfollows_trans: "rfollows a b \<Longrightarrow> rfollows b c \<Longrightarrow> rfollows a c"
  unfolding rfollows_def by (rule follows_trans)

lemma tally_state [simp]:
  "rc_world (tally w f st) = rc_world st" "rc_lookups (tally w f st) = rc_lookups st"
  by (simp_all add: tally_def)

lemma rfollows_tally [simp]: "rfollows st (tally w f st') = rfollows st st'"
  by (simp add: rfollows_def)

lemma in_store_lookups [simp]: "rc_lookups (snd (in_store f st)) = rc_lookups st"
  by (simp add: in_store_def split: prod.splits)

lemma in_store_lookups_eq: "in_store f st = (r, st') \<Longrightarrow> rc_lookups st' = rc_lookups st"
  using in_store_lookups [of f st] by simp

lemma rfollows_in_store: "(\<And>wd. follows any_store wd (snd (f wd))) \<Longrightarrow> rfollows st (snd (in_store f st))"
  by (simp add: rfollows_def in_store_def split: prod.splits) (metis snd_conv)

lemma rfollows_in_store_eq:
  "in_store f st = (r, st') \<Longrightarrow> (\<And>wd. follows any_store wd (snd (f wd))) \<Longrightarrow> rfollows st st'"
  using rfollows_in_store [of f st] by simp

lemmas store_follows =
  follows_SuspendReconciliation [of any_store, simplified] follows_ReleaseReconcileClaim [of any_store, simplified]
  follows_RenewReconcileClaim [of any_store, simplified] follows_ResolveRecovery [of any_store, simplified]
  follows_RecoverExpiredPreDispatch [of any_store, simplified] follows_EnterRecovery [of any_store, simplified]
  follows_ScrubStaleRecoveryLocators [of any_store, simplified] follows_claims [of any_store, simplified]

lemma releaseClaim_effect:
  "rfollows st (snd (releaseClaim w rec e st)) \<and> rc_lookups (snd (releaseClaim w rec e st)) = rc_lookups st"
  by (auto simp: releaseClaim_def Let_def in_store_lookups_eq split: prod.splits option.splits
      dest!: rfollows_in_store_eq intro: store_follows)

lemma file_result_effect:
  "rfollows st (snd (file_result w t rec answer st)) \<and> rc_lookups (snd (file_result w t rec answer st)) = rc_lookups st"
proof -
  let ?resolve = "\<lambda>signed. in_store (ResolveRecovery (wk_store w) (er_execution_id rec) (er_version rec) signed) st"
  have resolve: "rfollows st st1 \<and> rc_lookups st1 = rc_lookups st" if "?resolve signed = (r, st1)" for signed r st1
    using that rfollows_in_store_eq [OF that] store_follows in_store_lookups_eq by metis
  have chain: "rfollows st (snd (releaseClaim w rec e st1)) \<and> rc_lookups (snd (releaseClaim w rec e st1)) = rc_lookups st"
    if "rfollows st st1" "rc_lookups st1 = rc_lookups st" for e st1
    using that releaseClaim_effect [of st1 w rec e] rfollows_trans by metis
  show ?thesis
    unfolding file_result_def using resolve
    by (auto split: sum.splits prod.splits option.splits simp del: snd_conv intro!: chain) (simp_all)
qed

lemma reconcileOne_effect:
  assumes "reconcileOne w t rec st = (e, st')"
  shows "rfollows st st'"
    and "rc_lookups st' = rc_lookups st
      \<or> rc_lookups st' = rc_lookups st @ [\<lparr> lu_execution = er_execution_id rec, lu_attempt = er_reconcile_attempt rec \<rparr>]
        \<and> \<not> (0 < wk_maxAttempts w \<and> wk_maxAttempts w < er_reconcile_attempt rec)"
proof -
  let ?suspend = "in_store (SuspendReconciliation (wk_store w) (er_execution_id rec) (er_version rec) (ceiling_reason w None)) st"
  let ?renew = "in_store (RenewReconcileClaim (wk_store w) (er_execution_id rec) (er_version rec) (wk_claimDuration w)) st"
  let ?log = "\<lambda>st1. st1\<lparr>rc_lookups := rc_lookups st1
      @ [\<lparr> lu_execution = er_execution_id rec, lu_attempt = er_reconcile_attempt rec \<rparr>]\<rparr>"
  have suspend: "rfollows st (snd ?suspend)" "rc_lookups (snd ?suspend) = rc_lookups st"
    and renew: "rfollows st (snd ?renew)" "rc_lookups (snd ?renew) = rc_lookups st"
    by (simp_all add: rfollows_in_store store_follows)
  have filed: "rfollows st (snd (file_result w t rec answer (?log (snd ?renew))))"
      "rc_lookups (snd (file_result w t rec answer (?log (snd ?renew))))
        = rc_lookups st @ [\<lparr> lu_execution = er_execution_id rec, lu_attempt = er_reconcile_attempt rec \<rparr>]" for answer
    using file_result_effect [of "?log (snd ?renew)" w t rec answer] renew
    by (auto simp: rfollows_def intro: follows_trans)
  obtain e1 st1 where s1: "?suspend = (e1, st1)"
    by fastforce
  obtain e2 st2 where s2: "?renew = (e2, st2)"
    by fastforce
  note facts = suspend renew filed [of "resolve w rec"]
  show "rfollows st st'"
    using assms facts by (cases e1; cases e2) (auto simp: reconcileOne_def s1 s2 split: if_splits)
  show "rc_lookups st' = rc_lookups st
      \<or> rc_lookups st' = rc_lookups st @ [\<lparr> lu_execution = er_execution_id rec, lu_attempt = er_reconcile_attempt rec \<rparr>]
        \<and> \<not> (0 < wk_maxAttempts w \<and> wk_maxAttempts w < er_reconcile_attempt rec)"
    using assms facts by (cases e1; cases e2) (auto simp: reconcileOne_def s1 s2 split: if_splits)
qed

lemma recoverCrashed_effect:
  "rfollows st (snd (recoverCrashed w rec st)) \<and> rc_lookups (snd (recoverCrashed w rec st)) = rc_lookups st"
proof -
  let ?release = "\<lambda>st. snd (in_store (ReleaseReconcileClaim (wk_store w) (er_execution_id rec) (er_version rec) 0 []) st)"
  have release: "rfollows st1 (?release st1)" for st1
    by (simp add: rfollows_in_store store_follows)
  then show ?thesis
    by (auto simp: recoverCrashed_def Let_def in_store_lookups_eq split: prod.splits
        dest!: rfollows_in_store_eq intro: store_follows rfollows_trans [OF _ release])
qed

section \<open>A pool of workers\<close>

text \<open>
  The claims some worker holds but has not yet worked on, beside the state.  A worker claims a batch,
  works on any claim it holds, or dies with its claims; and anything else may happen to the store: other
  clients, crash recovery, retention, an operator.
\<close>

type_synonym pool = "rstate \<times> (worker \<times> Record) list"

definition limited :: "int \<Rightarrow> worker \<Rightarrow> bool" where
  "limited N w \<longleftrightarrow> 0 < wk_maxAttempts w \<and> wk_maxAttempts w \<le> N"

inductive pool_step :: "int \<Rightarrow> pool \<Rightarrow> pool \<Rightarrow> bool" for N where
  claim:
    "\<lbrakk> limited N w;
       in_store (ClaimUnknownBatch (wk_store w) (wk_workerID w) (wk_batchSize w) (wk_claimDuration w)) st = (Inr recs, st') \<rbrakk>
      \<Longrightarrow> pool_step N (st, held) (st', held @ map (Pair w) recs)"
| reconcile:
    "\<lbrakk> limited N w; reconcileOne w t rec st = (e, st') \<rbrakk>
      \<Longrightarrow> pool_step N (st, before @ (w, rec) # after) (st', before @ after)"
| die: "pool_step N (st, before @ lost @ after) (st, before @ after)"
| elsewhere: "\<lbrakk> rfollows st st'; rc_lookups st' = rc_lookups st \<rbrakk> \<Longrightarrow> pool_step N (st, held) (st', held)"

definition pool_run :: "int \<Rightarrow> pool \<Rightarrow> pool \<Rightarrow> bool" where
  "pool_run N = (pool_step N)\<^sup>*\<^sup>*"

lemma pool_run_trans: "pool_run N a b \<Longrightarrow> pool_run N b c \<Longrightarrow> pool_run N a c"
  unfolding pool_run_def by (rule rtranclp_trans)

lemma pool_run_step: "pool_step N a b \<Longrightarrow> pool_run N a b"
  unfolding pool_run_def by (rule r_into_rtranclp)

text \<open>The tickets: claims already looked up and claims still held.\<close>

definition ticket :: "Record \<Rightarrow> lookup" where
  "ticket rec = \<lparr> lu_execution = er_execution_id rec, lu_attempt = er_reconcile_attempt rec \<rparr>"

definition tickets :: "pool \<Rightarrow> lookup list" where
  "tickets p = rc_lookups (fst p) @ map (\<lambda>h. ticket (snd h)) (snd p)"

definition issued :: "db \<Rightarrow> lookup \<Rightarrow> bool" where
  "issued d l \<longleftrightarrow> 1 \<le> lu_attempt l
    \<and> (\<exists>er\<in>set (execution_requests d). er_execution_id er = lu_execution l \<and> lu_attempt l \<le> er_reconcile_attempt er)"

definition pool_ok :: "int \<Rightarrow> pool \<Rightarrow> bool" where
  "pool_ok N p \<longleftrightarrow>
    safe any_store (rc_world (fst p)) \<and> distinct (tickets p)
    \<and> (\<forall>l\<in>set (tickets p). issued (w_db (rc_world (fst p))) l)
    \<and> (\<forall>l\<in>set (rc_lookups (fst p)). lu_attempt l \<le> N)"

lemma issued_kept:
  assumes "db_steps OK d d'" "issued d l"
  shows "issued d' l"
proof -
  obtain er where er: "er \<in> set (execution_requests d)" "er_execution_id er = lu_execution l"
      "lu_attempt l \<le> er_reconcile_attempt er"
    using assms(2) by (auto simp: issued_def)
  obtain er' where "er' \<in> set (execution_requests d')" "counts_up er er'"
    using attempts_kept [OF assms(1) er(1)] by blast
  then show ?thesis
    using er assms(2) unfolding issued_def counts_up_def by fastforce
qed

lemma issued_follows:
  "rfollows st st' \<Longrightarrow> safe any_store (rc_world st) \<Longrightarrow> issued (w_db (rc_world st)) l \<Longrightarrow> issued (w_db (rc_world st')) l"
  unfolding rfollows_def follows_def using issued_kept by blast

lemma safe_follows: "rfollows st st' \<Longrightarrow> safe any_store (rc_world st) \<Longrightarrow> safe any_store (rc_world st')"
  by (simp add: rfollows_def follows_def)

text \<open>A claim issues new tickets: the counters of its records have just gone up.\<close>

lemma claim_tickets:
  assumes tx: "tx_ClaimUnknownBatch s owner n dur now d = TxCommit d' recs" and rec: "reachable OK d"
  shows "distinct (map ticket recs)" and "l \<in> set (map ticket recs) \<Longrightarrow> issued d' l \<and> \<not> issued d l"
proof -
  let ?f = "\<lambda>er. er\<lparr>er_reconcile_owner := Some owner,
               er_reconcile_lease_expires_at := Some (now + msDuration dur),
               er_reconcile_attempt := er_reconcile_attempt er + 1,
               er_version := er_version er + 1, er_updated_at := now\<rparr>"
  let ?hit = "\<lambda>er. er_execution_id er \<in> set (claim_candidates (unknown_claimable now) n d)"
  note unique = reachable_unique [OF rec]
  have recs: "recs = map ?f (filter ?hit (execution_requests d))"
    and rows: "execution_requests d' = update_where ?hit ?f (execution_requests d)"
    using claim_batch_recs [OF tx [unfolded tx_ClaimUnknownBatch_def]] by simp_all
  have "distinct (map er_execution_id (filter ?hit (execution_requests d)))"
    using unique by (simp add: unique_rows_def distinct_map_filter)
  then have "distinct (map lu_execution (map ticket recs))"
    by (simp add: recs ticket_def comp_def)
  then show "distinct (map ticket recs)"
    using distinct_map by blast
  assume "l \<in> set (map ticket recs)"
  then obtain er where er: "er \<in> set (execution_requests d)" "?hit er" "l = ticket (?f er)"
    by (auto simp: recs)
  have "?f er \<in> set (execution_requests d')"
    using er by (auto simp: rows update_where_def)
  then have "issued d' l"
    using er attempts_nonneg [OF rec er(1)] by (auto simp: issued_def ticket_def intro!: bexI [of _ "?f er"])
  moreover have "\<not> issued d l"
  proof
    assume "issued d l"
    then obtain er0 where "er0 \<in> set (execution_requests d)" "er_execution_id er0 = er_execution_id er"
        "er_reconcile_attempt er + 1 \<le> er_reconcile_attempt er0"
      by (auto simp: issued_def ticket_def er(3))
    then show False
      using unique er(1) by (auto simp: unique_rows_def distinct_map dest: inj_onD)
  qed
  ultimately show "issued d' l \<and> \<not> issued d l" ..
qed

lemma ClaimUnknownBatch_commit:
  assumes "ClaimUnknownBatch s owner n dur w = (Inr recs, w')" "recs \<noteq> []"
  shows "\<exists>w1. follows OK w w1 \<and> tx_ClaimUnknownBatch s owner (batch_size n) (claim_duration dur) (w_now w1) (w_db w1) = TxCommit (w_db w') recs"
proof -
  obtain r wt where run: "exec_tx (tx_ClaimUnknownBatch s owner (batch_size n) (claim_duration dur)) w = (r, wt)"
    by fastforce
  have r: "r = Inr (Some recs)" "w_db w' = w_db wt"
    using assms run by (auto simp: ClaimUnknownBatch_def split: sum.splits option.splits prod.splits)
  obtain f w1 where tick: "next_tick w = (f, w1)"
    by fastforce
  have "tx_ClaimUnknownBatch s owner (batch_size n) (claim_duration dur) (w_now w1) (w_db w1) = TxCommit (w_db w') recs"
    using run r by (auto simp: exec_tx_def tick split: fault.splits tx.splits if_splits)
  then show ?thesis
    using follows_next_tick [OF tick] by blast
qed

section \<open>The attempt ceiling\<close>

lemma pool_ok_claim:
  assumes ok: "pool_ok N (st, held)"
    and run: "in_store (ClaimUnknownBatch (wk_store w) owner n dur) st = (Inr recs, st')"
  shows "pool_ok N (st', held @ map (Pair w) recs)"
proof -
  have safe: "safe any_store (rc_world st)"
    using ok by (simp add: pool_ok_def)
  have claim: "ClaimUnknownBatch (wk_store w) owner n dur (rc_world st) = (Inr recs, rc_world st')"
    and log: "rc_lookups st' = rc_lookups st"
    using run by (auto simp: in_store_def split: prod.splits)
  have fol: "rfollows st st'"
    using run by (rule rfollows_in_store_eq) (rule store_follows)
  have tick: "tickets (st', held @ map (Pair w) recs) = tickets (st, held) @ map ticket recs"
    by (simp add: tickets_def log comp_def)
  have "distinct (tickets (st, held) @ map ticket recs)
    \<and> (\<forall>l\<in>set (map ticket recs). issued (w_db (rc_world st')) l)"
  proof (cases "recs = []")
    case False
    then obtain w1 where w1: "follows any_store (rc_world st) w1"
        "tx_ClaimUnknownBatch (wk_store w) owner (batch_size n) (claim_duration dur) (w_now w1) (w_db w1)
          = TxCommit (w_db (rc_world st')) recs"
      using ClaimUnknownBatch_commit [OF claim] by blast
    have reach: "reachable any_store (w_db w1)" and steps: "db_steps any_store (w_db (rc_world st)) (w_db w1)"
      using w1(1) safe by (auto simp: follows_def safe_def)
    have "issued (w_db w1) l" if "l \<in> set (tickets (st, held))" for l
      using that ok issued_kept [OF steps] by (simp add: pool_ok_def)
    then show ?thesis
      using claim_tickets [OF w1(2) reach] ok by (auto simp: pool_ok_def)
  qed (use ok in \<open>simp add: pool_ok_def\<close>)
  then show ?thesis
    using ok issued_follows [OF fol safe] safe_follows [OF fol safe]
    unfolding pool_ok_def by (auto simp: tick log)
qed

lemma pool_ok_fewer:
  assumes "pool_ok N (st, held)" "rfollows st st'"
    and "distinct (tickets (st', held'))" "set (tickets (st', held')) \<subseteq> set (tickets (st, held))"
    and "\<forall>l\<in>set (rc_lookups st'). lu_attempt l \<le> N"
  shows "pool_ok N (st', held')"
  using assms(1,3-5) issued_follows [OF assms(2)] safe_follows [OF assms(2)]
  unfolding pool_ok_def fst_conv by blast

lemma moved_ticket:
  assumes "distinct (ls @ bs @ t # as)" "ls' = ls \<or> ls' = ls @ [t]"
  shows "distinct (ls' @ bs @ as)" "set (ls' @ bs @ as) \<subseteq> set (ls @ bs @ t # as)"
  using assms by auto

lemma pool_ok_step:
  assumes "pool_step N p p'" "pool_ok N p"
  shows "pool_ok N p'"
  using assms
proof (induction rule: pool_step.induct)
  case (claim w st recs st' held)
  then show ?case
    using pool_ok_claim by blast
next
  case (reconcile w t rec st e st' before after)
  note effect = reconcileOne_effect [OF reconcile.hyps(2)]
  have old: "distinct (tickets (st, before @ (w, rec) # after))" "\<forall>l\<in>set (rc_lookups st). lu_attempt l \<le> N"
    using reconcile.prems by (simp_all add: pool_ok_def)
  show ?case
  proof (rule pool_ok_fewer [OF reconcile.prems effect(1)])
    let ?t = "\<lambda>hs. map (\<lambda>h. ticket (snd h)) hs"
    have "distinct (rc_lookups st @ ?t before @ ticket rec # ?t after)"
      using old(1) by (simp add: tickets_def)
    from moved_ticket [OF this, of "rc_lookups st'"]
    show "distinct (tickets (st', before @ after))"
      and "set (tickets (st', before @ after)) \<subseteq> set (tickets (st, before @ (w, rec) # after))"
      using effect(2) [folded ticket_def] by (auto simp only: tickets_def fst_conv snd_conv map_append list.map)
    show "\<forall>l\<in>set (rc_lookups st'). lu_attempt l \<le> N"
      using effect(2) old(2) reconcile.hyps(1) by (auto simp: limited_def)
  qed
next
  case (die st before lost after)
  then show ?case
    by (intro pool_ok_fewer [OF die rfollows_refl]) (auto simp: pool_ok_def tickets_def)
next
  case (elsewhere st st' held)
  then show ?case
    by (intro pool_ok_fewer [OF elsewhere.prems elsewhere.hyps(1)]) (simp_all add: pool_ok_def tickets_def)
qed

lemma pool_ok_run: "pool_run N p p' \<Longrightarrow> pool_ok N p \<Longrightarrow> pool_ok N p'"
  unfolding pool_run_def by (induction rule: rtranclp_induct) (auto intro: pool_ok_step)

text \<open>Distinct tickets of one record between 1 and the ceiling.\<close>

lemma distinct_lookups_bounded:
  fixes ls :: "lookup list"
  assumes "distinct ls" "\<forall>l\<in>set ls. lu_execution l = eid \<and> 1 \<le> lu_attempt l \<and> lu_attempt l \<le> N"
  shows "int (length ls) \<le> max 0 N"
proof -
  have "inj_on lu_attempt (set ls)"
    using assms(2) by (auto intro!: inj_onI lookup.equality)
  then have "length ls = card (lu_attempt ` set ls)"
    by (simp add: card_image distinct_card assms(1))
  also have "\<dots> \<le> card {1..N}"
    using assms(2) by (intro card_mono) auto
  finally show ?thesis
    by simp
qed

definition lookups_of :: "string \<Rightarrow> rstate \<Rightarrow> lookup list" where
  "lookups_of eid st = filter (\<lambda>l. lu_execution l = eid) (rc_lookups st)"

text \<open>A cycle of one worker is a run of the pool that leaves it as it found it.\<close>

lemma fold_reconcile_run:
  assumes "limited N w"
  shows "pool_run N (st, held @ map (Pair w) recs) (fold (\<lambda>rec st. snd (reconcileOne w t rec st)) recs st, held)"
proof (induction recs arbitrary: st)
  case Nil
  then show ?case
    by (simp add: pool_run_def)
next
  case (Cons rec recs)
  obtain e st1 where one: "reconcileOne w t rec st = (e, st1)"
    by fastforce
  have "pool_step N (st, held @ (w, rec) # map (Pair w) recs) (st1, held @ map (Pair w) recs)"
    using assms one by (rule pool_step.reconcile)
  then show ?case
    using Cons [of st1] pool_run_trans [OF pool_run_step] by (simp add: one)
qed

lemma recover_effect:
  "rfollows st (fold (\<lambda>rec st. snd (recoverCrashed w rec st)) recs st)
    \<and> rc_lookups (fold (\<lambda>rec st. snd (recoverCrashed w rec st)) recs st) = rc_lookups st"
proof (induction recs arbitrary: st)
  case (Cons rec recs)
  show ?case
    using Cons [of "snd (recoverCrashed w rec st)"] recoverCrashed_effect [of st w rec] rfollows_trans by auto
qed simp

lemma expired_effect:
  assumes "(case in_store (ClaimExpiredBatch (wk_store w) owner n dur) st of
              (Inl e, st3) \<Rightarrow> (Some (ClaimExpiredFailed e), st3)
            | (Inr expired, st3) \<Rightarrow>
                (let st4 = fold (\<lambda>rec st. snd (recoverCrashed w rec st)) expired st3 in
                 (None,
                  if 0 < wk_locatorRetention w
                  then snd (in_store (ScrubStaleRecoveryLocators (wk_store w) (wk_locatorRetention w)) st4)
                  else st4))) = (e, st')"
  shows "rfollows st st' \<and> rc_lookups st' = rc_lookups st"
proof -
  obtain r3 st3 where claim: "in_store (ClaimExpiredBatch (wk_store w) owner n dur) st = (r3, st3)"
    by fastforce
  have st3: "rfollows st st3" "rc_lookups st3 = rc_lookups st"
    using rfollows_in_store_eq [OF claim store_follows(9)] in_store_lookups_eq [OF claim] by simp_all
  show ?thesis
  proof (cases r3)
    case (Inr expired)
    let ?st4 = "fold (\<lambda>rec st. snd (recoverCrashed w rec st)) expired st3"
    have "rfollows st ?st4" "rc_lookups ?st4 = rc_lookups st"
      using recover_effect [of st3 w expired] st3 rfollows_trans by auto
    moreover have "rfollows ?st4 (snd (in_store (ScrubStaleRecoveryLocators (wk_store w) (wk_locatorRetention w)) ?st4))"
      by (rule rfollows_in_store) (rule store_follows)
    ultimately show ?thesis
      using assms by (auto simp: claim Inr Let_def split: if_splits intro: rfollows_trans)
  qed (use assms st3 claim in simp)
qed

lemma RunCycle_run:
  assumes "limited N w" "RunCycle w t st = (e, st')"
  shows "pool_run N (st, held) (st', held)"
proof -
  let ?start = "tally w (\<lambda>m. m\<lparr>wm_CyclesStarted := wm_CyclesStarted m + 1\<rparr>) st"
  let ?claim = "in_store (ClaimUnknownBatch (wk_store w) (wk_workerID w) (wk_batchSize w) (wk_claimDuration w)) ?start"
  have quiet: "pool_run N (a, held) (b, held)" if "rfollows a b" "rc_lookups b = rc_lookups a" for a b
    using that by (blast intro: pool_run_step pool_step.elsewhere)
  obtain e1 st1 where once: "reconcileAllOnce w t ?start = (e1, st1)"
    by fastforce
  obtain r2 st2 where claim: "?claim = (r2, st2)"
    by fastforce
  have begin_run: "pool_run N (st, held) (?start, held)" and end_run: "pool_run N (st1, held) (st', held)"
    using assms(2) once by (auto simp: RunCycle_def reconcileAll_def split: option.splits intro!: quiet)
  have "pool_run N (?start, held) (st1, held)"
  proof (cases r2)
    case (Inl err)
    then show ?thesis
      using once claim rfollows_in_store_eq [OF claim store_follows(8)] in_store_lookups_eq [OF claim]
      by (auto simp: reconcileAllOnce_def intro!: quiet)
  next
    case (Inr recs)
    let ?st3 = "fold (\<lambda>rec st. snd (reconcileOne w t rec st)) recs st2"
    have "pool_step N (?start, held) (st2, held @ map (Pair w) recs)"
      using assms(1) claim unfolding Inr by (rule pool_step.claim)
    then have "pool_run N (?start, held) (?st3, held)"
      using pool_run_trans [OF pool_run_step] fold_reconcile_run [OF assms(1)] by blast
    moreover have "pool_run N (?st3, held) (st1, held)"
      using once quiet expired_effect unfolding reconcileAllOnce_def claim Inr by simp
    ultimately show ?thesis
      by (rule pool_run_trans)
  qed
  then show ?thesis
    using begin_run end_run pool_run_trans by blast
qed

text \<open>
  C34. However many workers share the store, in whatever order they claim and work, and whatever other
  clients, crashes, driver faults and retention do in between, no record is looked up at its provider
  more often than the attempt ceiling allows; and whole cycles of a worker are such runs.
\<close>

theorem lookups_are_bounded:
  assumes "safe any_store (rc_world st)" "rc_lookups st = []" "0 < N"
    and "pool_run N (st, []) (st', held)"
  shows "int (length (lookups_of eid st')) \<le> N
    \<and> (\<forall>w t. limited N w \<longrightarrow> int (length (lookups_of eid (snd (RunCycle w t st')))) \<le> N)"
proof -
  have ok: "pool_ok N (st, [])"
    using assms(1,2) by (simp add: pool_ok_def tickets_def)
  have bound: "int (length (lookups_of eid st1)) \<le> N" if "pool_run N (st, []) (st1, held1)" for st1 held1
  proof -
    have "pool_ok N (st1, held1)"
      using pool_ok_run [OF that ok] .
    then have "distinct (rc_lookups st1)" "\<forall>l\<in>set (rc_lookups st1). 1 \<le> lu_attempt l \<and> lu_attempt l \<le> N"
      by (auto simp: pool_ok_def tickets_def issued_def)
    then have "int (length (lookups_of eid st1)) \<le> max 0 N"
      unfolding lookups_of_def by (intro distinct_lookups_bounded [of _ eid]) auto
    then show ?thesis
      using assms(3) by simp
  qed
  have "pool_run N (st, []) (snd (RunCycle w t st'), held)" if "limited N w" for w t
    using RunCycle_run [OF that surjective_pairing] assms(4) pool_run_trans by blast
  then show ?thesis
    using bound assms(4) by blast
qed

definition sample_worker :: worker where
  "sample_worker = SetWorkerID ''worker-a'' (NewWorker 0 (\<lambda>e. []) (\<lambda>e. []) sample_store (Some NoopResolver) ''1'')"

definition sample_rstate :: "world \<Rightarrow> rstate" where
  "sample_rstate w =
    \<lparr> rc_world = w, rc_metrics = (\<lambda>_. \<lparr> wm_CyclesStarted = 0, wm_CyclesCompleted = 0, wm_CyclesFailed = 0,
        wm_ResolverFailures = 0, wm_DeadLetters = 0 \<rparr>), rc_lookups = [] \<rparr>"

theorem lookups_are_bounded_witness:
  "\<exists>st. st = snd (RunCycle sample_worker [] (sample_rstate unknown_world))
     \<and> int (length (lookups_of ''x1'' st)) = 1 \<and> int (length (lookups_of ''x1'' st)) \<le> 15"
proof -
  let ?st = "snd (RunCycle sample_worker [] (sample_rstate unknown_world))"
  have "limited 15 sample_worker"
    by code_simp
  then have "pool_run 15 (sample_rstate unknown_world, []) (?st, [])"
    using RunCycle_run [OF _ surjective_pairing] by blast
  moreover have "safe any_store (rc_world (sample_rstate unknown_world))"
    by (simp add: sample_rstate_def unknown_world_def safe_run_calls safe_sample_worlds)
  moreover have "rc_lookups (sample_rstate unknown_world) = []"
    by (simp add: sample_rstate_def)
  ultimately have "int (length (lookups_of ''x1'' ?st)) \<le> 15"
    using lookups_are_bounded [of "sample_rstate unknown_world" 15 ?st "[]" "''x1''"] by simp
  moreover have "length (lookups_of ''x1'' ?st) = 1"
    by code_simp
  ultimately show ?thesis
    by simp
qed

end
