(* ===== verification/ReconcileCycle.thy ===== *)
theory ReconcileCycle
  imports ReconcileRuns
begin

text \<open>
  What one undisturbed cycle does: crashed executions are recovered, every retry is scheduled by the
  backoff, and the last attempt suspends the record.
\<close>

section \<open>Calls that touch one record\<close>

definition at_most :: "string \<Rightarrow> exec_row \<Rightarrow> exec_row \<Rightarrow> bool" where
  "at_most eid er er' \<longleftrightarrow> er' = er \<or> er_execution_id er = eid \<and> er_execution_id er' = eid"

definition touches :: "string \<Rightarrow> world \<Rightarrow> world \<Rightarrow> bool" where
  "touches eid w w' \<longleftrightarrow>
    (calm w \<longrightarrow> calm w' \<and> w_now w' = w_now w \<and> cm_epoch (w_db w') = cm_epoch (w_db w)
      \<and> list_all2 (at_most eid) (execution_requests (w_db w)) (execution_requests (w_db w')))"

lemma at_most_refl [simp]: "at_most eid er er"
  by (simp add: at_most_def)

lemma touches_refl [simp]: "touches eid w w"
  by (simp add: touches_def list_all2_same)

lemma touches_bump [simp]: "touches eid w (bump_by n c w') = touches eid w w'" "touches eid (bump_by n c w) w' = touches eid w w'"
  by (simp_all add: touches_def)

lemma all_at_most_trans:
  "list_all2 (at_most eid) as bs \<Longrightarrow> list_all2 (at_most eid) bs cs \<Longrightarrow> list_all2 (at_most eid) as cs"
  by (rule list_all2_trans) (auto simp: at_most_def)

lemma touches_trans: "touches eid a b \<Longrightarrow> touches eid b c \<Longrightarrow> touches eid a c"
  unfolding touches_def using all_at_most_trans by metis

definition tx_touches :: "string \<Rightarrow> db \<Rightarrow> db \<Rightarrow> bool" where
  "tx_touches eid d d' \<longleftrightarrow> cm_epoch d' = cm_epoch d \<and> list_all2 (at_most eid) (execution_requests d) (execution_requests d')"

lemma touches_commit: "calm w \<Longrightarrow> tx_touches eid (w_db w) d \<Longrightarrow> touches eid w (w\<lparr>w_db := d\<rparr>)"
  by (simp add: touches_def tx_touches_def)

lemma tx_touches_guarded:
  assumes "guarded_update p f k d = TxCommit d' x"
    and "\<And>er. p er \<Longrightarrow> er_execution_id er = eid \<and> er_execution_id (f er) = eid"
    and "\<And>d1 d2 y. k d1 = TxCommit d2 y \<Longrightarrow> execution_requests d2 = execution_requests d1 \<and> cm_epoch d2 = cm_epoch d1"
  shows "tx_touches eid d d'"
proof -
  have "execution_requests d' = update_where p f (execution_requests d)" "cm_epoch d' = cm_epoch d"
    using assms(3) [OF guarded_update_commit [OF assms(1)]] by simp_all
  then show ?thesis
    using assms(2) by (auto simp: tx_touches_def update_where_def list_all2_map2 list_all2_same at_most_def)
qed

lemma cm_epoch_ledger [simp]:
  "cm_epoch (sqliteInsertEffectEvent now eid ev d) = cm_epoch d"
  "cm_epoch (sqliteInsertObservationRow C now eid k raw obs d) = cm_epoch d"
  by (simp_all add: sqliteInsertEffectEvent_def sqliteInsertObservationRow_def Let_def)

lemma commit_event_keeps:
  "commit_event now eid ev d1 = TxCommit d2 y \<Longrightarrow> execution_requests d2 = execution_requests d1 \<and> cm_epoch d2 = cm_epoch d1"
  by (auto simp: commit_event_def)

lemma tx_touches:
  "tx_ReleaseReconcileClaim s eid v bo le now d = TxCommit d' x \<Longrightarrow> tx_touches eid d d'"
  "tx_SuspendReconciliation s eid v reason now d = TxCommit d' x \<Longrightarrow> tx_touches eid d d'"
  "tx_RenewReconcileClaim s eid v dur now d = TxCommit d' x \<Longrightarrow> tx_touches eid d d'"
  "tx_ResolveUnknown s eid v now d = TxCommit d' x \<Longrightarrow> tx_touches eid d d'"
  "tx_ResolveRecovery s eid v ns res robs rd now d = TxCommit d' x \<Longrightarrow> tx_touches eid d d'"
  by (simp only: tx_defs Let_def, erule tx_touches_guarded, fastforce, (rule commit_event_keeps, assumption | force simp: commit_event_def))+

lemma touches_note: "calm w \<Longrightarrow> touches eid w (noteContentionEvent eid' t meta w)"
  by (simp add: touches_def noteContentionEvent_def exec_calm tx_noteContentionEvent_def commit_event_def list_all2_same)

lemma touches_failures:
  "calm w \<Longrightarrow> touches eid w (snd (claim_lost s eid' m w))"
  "calm w \<Longrightarrow> touches eid w (snd (resolve_failure s eid' v w))"
  by (simp_all add: claim_lost_def resolve_failure_def checkEpoch_calm Lookup_calm touches_note split: list.split)

lemma touches_calm: "(calm w \<Longrightarrow> touches eid w w') \<Longrightarrow> touches eid w w'"
  by (simp add: touches_def)

lemma touches_calls:
  "touches eid w (snd (ReleaseReconcileClaim s eid v bo le w))"
  "touches eid w (snd (SuspendReconciliation s eid v reason w))"
  "touches eid w (snd (RenewReconcileClaim s eid v dur w))"
  by (rule touches_calm, simp add: ReleaseReconcileClaim_def SuspendReconciliation_def RenewReconcileClaim_def exec_calm
      touches_failures touches_commit tx_touches split: tx.split)+

lemma touches_resolve_definitive: "touches eid w (snd (resolve_definitive s eid v ns res w))"
proof (rule touches_calm)
  assume calm: "calm w"
  show "touches eid w (snd (resolve_definitive s eid v ns res w))"
  proof (cases "rows_of eid (w_db w)")
    case Nil
    then show ?thesis
      using calm by (simp add: resolve_definitive_def Lookup_calm split: sum.split)
  next
    case (Cons er rest)
    let ?receipt = "recovery_receipt eid er ns res"
    have tx: "touches eid w (snd (case exec_tx (tx_ResolveRecovery s eid v ns res robs rd) w of
          (Inl e, w2) \<Rightarrow> (Some e, w2)
        | (Inr None, w2) \<Rightarrow> resolve_failure s eid v w2
        | (Inr (Some _), w2) \<Rightarrow> (None, bump (if ns = StateCommitted then committed else failed)
                                         (bump reconcileResolutions w2))))" for robs rd
      using calm by (simp add: exec_calm touches_failures touches_commit tx_touches split: tx.split)
    have policy: "touches eid w (snd (case terminal_policy s er ?receipt of
          Some (EvidenceRejected e) \<Rightarrow> (Some (EvidenceRejected e), w)
        | Some e \<Rightarrow> (Some e, bump criticalEvidenceDenied w)
        | None \<Rightarrow> x))" if "touches eid w (snd x)" for x :: "store_error option \<times> world"
      using that by (simp split: option.split store_error.split)
    show ?thesis
    proof (cases "canonicalizeObservation (st_crypto s) (recovery_observation res)")
      case (Inr robs)
      have "touches eid w (snd (case receipt_digest (st_crypto s) ?receipt of
            Inl e \<Rightarrow> (Some (MalformedResult e), w)
          | Inr rd \<Rightarrow>
              (case exec_tx (tx_ResolveRecovery s eid v ns res robs rd) w of
                 (Inl e, w2) \<Rightarrow> (Some e, w2)
               | (Inr None, w2) \<Rightarrow> resolve_failure s eid v w2
               | (Inr (Some _), w2) \<Rightarrow> (None, bump (if ns = StateCommitted then committed else failed)
                                                (bump reconcileResolutions w2)))))"
        using tx by (cases "receipt_digest (st_crypto s) ?receipt") (simp_all only: sum.case touches_refl snd_conv)
      from policy [OF this] show ?thesis
        using calm by (simp add: resolve_definitive_def Let_def Lookup_calm Cons Inr)
    qed (simp add: resolve_definitive_def)
  qed
qed

lemma touches_ResolveRecovery: "touches eid w (snd (ResolveRecovery s eid v res w))"
  by (rule touches_calm)
    (simp add: ResolveRecovery_def exec_calm checkEpoch_calm touches_commit tx_touches touches_resolve_definitive
      split: tx.split recovery_decision.split)

definition rtouches :: "string \<Rightarrow> rstate \<Rightarrow> rstate \<Rightarrow> bool" where
  "rtouches eid st st' \<longleftrightarrow> touches eid (rc_world st) (rc_world st')"

lemma rtouches_refl [simp]: "rtouches eid st st"
  by (simp add: rtouches_def)

lemma rtouches_tally [simp]: "rtouches eid st (tally w f st') = rtouches eid st st'" "rtouches eid (tally w f st) st' = rtouches eid st st'"
  by (simp_all add: rtouches_def)

lemma rtouches_trans: "rtouches eid a b \<Longrightarrow> rtouches eid b c \<Longrightarrow> rtouches eid a c"
  unfolding rtouches_def by (rule touches_trans)

lemma rtouches_in_store:
  "in_store f st = (r, st') \<Longrightarrow> touches eid (rc_world st) (snd (f (rc_world st))) \<Longrightarrow> rtouches eid st st'"
  by (auto simp: rtouches_def in_store_def split: prod.splits)

lemma rtouches_calls:
  "in_store (ReleaseReconcileClaim s eid v bo le) st = (r, st') \<Longrightarrow> rtouches eid st st'"
  "in_store (SuspendReconciliation s eid v reason) st = (r, st') \<Longrightarrow> rtouches eid st st'"
  "in_store (RenewReconcileClaim s eid v dur) st = (r, st') \<Longrightarrow> rtouches eid st st'"
  by (erule rtouches_in_store, rule touches_calls)+

lemma rtouches_releaseClaim: "rtouches (er_execution_id rec) st (snd (releaseClaim w rec e st))"
  by (auto simp: releaseClaim_def Let_def rtouches_calls split: prod.splits option.splits)

lemma rtouches_file_result: "rtouches (er_execution_id rec) st (snd (file_result w t rec answer st))"
proof -
  have resolved: "rtouches (er_execution_id rec) st st1"
    if "in_store (ResolveRecovery (wk_store w) (er_execution_id rec) (er_version rec) signed) st = (r, st1)" for signed r st1
    using that touches_ResolveRecovery by (rule rtouches_in_store)
  have tallied: "rtouches (er_execution_id rec) st (snd (releaseClaim w rec e (tally w f st)))" for e f
    using rtouches_releaseClaim [of rec "tally w f st"] by simp
  show ?thesis
    unfolding file_result_def using resolved tallied rtouches_releaseClaim [of rec] rtouches_trans [OF resolved rtouches_releaseClaim]
    by (auto split: sum.splits prod.splits option.splits)
qed

lemma rtouches_reconcileOne: "rtouches (er_execution_id rec) st (snd (reconcileOne w t rec st))"
proof -
  let ?suspend = "in_store (SuspendReconciliation (wk_store w) (er_execution_id rec) (er_version rec) (ceiling_reason w None)) st"
  let ?renew = "in_store (RenewReconcileClaim (wk_store w) (er_execution_id rec) (er_version rec) (wk_claimDuration w)) st"
  obtain e1 st1 where s1: "?suspend = (e1, st1)"
    by fastforce
  obtain e2 st2 where s2: "?renew = (e2, st2)"
    by fastforce
  let ?st3 = "st2\<lparr>rc_lookups := rc_lookups st2
      @ [\<lparr> lu_execution = er_execution_id rec, lu_attempt = er_reconcile_attempt rec \<rparr>]\<rparr>"
  have one: "rtouches (er_execution_id rec) st st1" and two: "rtouches (er_execution_id rec) st st2"
    using rtouches_calls(2) [OF s1] rtouches_calls(3) [OF s2] by simp_all
  have "rtouches (er_execution_id rec) st ?st3"
    using two by (simp add: rtouches_def)
  then have "rtouches (er_execution_id rec) st (snd (file_result w t rec (resolve w rec) ?st3))"
    using rtouches_file_result rtouches_trans by blast
  then show ?thesis
    using one two by (cases e1; cases e2) (simp_all add: reconcileOne_def s1 s2)
qed

section \<open>Recovering crashed executions\<close>

text \<open>What recovery makes of a crashed record that was claimed.\<close>

definition recovered :: "int \<Rightarrow> exec_row \<Rightarrow> exec_row" where
  "recovered now er =
    (if er_state er = StateInFlight then to_unknown now er
     else er\<lparr>er_state := StatePrepared, er_lease_owner := None, er_lease_token := None,
             er_lease_started_at := None, er_lease_expires_at := None,
             er_reconcile_owner := None, er_reconcile_lease_expires_at := None,
             er_next_reconcile_at := None, er_version := er_version er + 1, er_updated_at := now\<rparr>)"

definition crashed :: "int \<Rightarrow> exec_row \<Rightarrow> bool" where
  "crashed now er \<longleftrightarrow>
    er_state er \<in> {StatePrepared, StateExecuting, StateInFlight} \<and> sql_lt (er_lease_expires_at er) now"

lemma update_unique:
  assumes "unique_rows rs" "rec \<in> set rs" "q rec" "\<And>er. q er \<Longrightarrow> er_execution_id er = er_execution_id rec"
  shows "update_where q f rs = update_where (\<lambda>er. er_execution_id er = er_execution_id rec) f rs"
    and "rows_affected q rs \<noteq> 0"
proof -
  have "q er \<longleftrightarrow> er_execution_id er = er_execution_id rec" if "er \<in> set rs" for er
    using that assms unfolding unique_rows_def distinct_map by (metis inj_onD)
  then show "update_where q f rs = update_where (\<lambda>er. er_execution_id er = er_execution_id rec) f rs"
    by (simp add: update_where_def)
  show "rows_affected q rs \<noteq> 0"
    using assms(2,3) by (auto simp: rows_affected_def filter_empty_conv)
qed

lemma update_the_record:
  assumes "unique_rows rs" "rec \<in> set rs" "f rec = g rec"
  shows "update_where (\<lambda>er. er_execution_id er = er_execution_id rec) f rs
    = update_where (\<lambda>er. er_execution_id er = er_execution_id rec) g rs"
  using assms by (auto simp: update_where_def unique_rows_def distinct_map dest: inj_onD)

lemma guarded_hit:
  assumes "unique_rows (execution_requests d)" "rec \<in> set (execution_requests d)" "q rec"
    and "\<And>er. q er \<Longrightarrow> er_execution_id er = er_execution_id rec"
  shows "guarded_update q f (commit_event now eid ev) d
    = TxCommit (sqliteInsertEffectEvent now eid ev
        (d\<lparr>execution_requests := update_where (\<lambda>er. er_execution_id er = er_execution_id rec) f (execution_requests d)\<rparr>)) ()"
  using update_unique [of "execution_requests d" rec q, OF assms] by (simp add: guarded_update_def commit_event_def)

lemma stale_release:
  assumes "calm w" "cm_epoch (w_db w) = st_epoch s"
    and "\<And>er. er \<in> set (execution_requests (w_db w)) \<Longrightarrow> er_execution_id er = eid \<Longrightarrow> er_version er \<noteq> v"
  shows "ReleaseReconcileClaim s eid v bo le w
    = (Some (LeaseErr LeaseStateConflict), noteContentionEvent eid EventClaimLost ''release reconcile claim CAS failed'' w)"
proof -
  have "rows_affected (\<lambda>er. er_execution_id er = eid \<and> er_version er = v \<and> epochGuard (st_epoch s) (w_db w))
      (execution_requests (w_db w)) = 0"
    using assms(3) by (auto simp: rows_affected_def filter_empty_conv)
  then show ?thesis
    using assms(1,2)
    by (simp add: ReleaseReconcileClaim_def exec_calm tx_ReleaseReconcileClaim_def guarded_update_def claim_lost_def checkEpoch_calm)
qed

lemma note_calm_frame:
  "calm w \<Longrightarrow> w_now (noteContentionEvent eid t m w) = w_now w \<and> cm_epoch (w_db (noteContentionEvent eid t m w)) = cm_epoch (w_db w)"
  by (simp add: noteContentionEvent_def exec_calm tx_noteContentionEvent_def commit_event_def)

definition frame :: "world \<Rightarrow> world \<Rightarrow> (exec_row list \<Rightarrow> exec_row list) \<Rightarrow> bool" where
  "frame w w' f \<longleftrightarrow> calm w' \<and> w_now w' = w_now w \<and> cm_epoch (w_db w') = cm_epoch (w_db w)
    \<and> execution_requests (w_db w') = f (execution_requests (w_db w))"

lemma recover_pre_dispatch:
  assumes "calm w" "unique_rows (execution_requests (w_db w))" "cm_epoch (w_db w) = st_epoch s"
    and "rec \<in> set (execution_requests (w_db w))" "crashed (w_now w) rec" "er_state rec \<noteq> StateInFlight"
  defines "r \<equiv> RecoverExpiredPreDispatch s (er_execution_id rec) (er_version rec) w"
  shows "fst r = None"
    and "frame w (snd r) (update_where (\<lambda>er. er_execution_id er = er_execution_id rec)
          (\<lambda>er. er\<lparr>er_state := StatePrepared, er_lease_owner := None, er_lease_token := None,
             er_lease_started_at := None, er_lease_expires_at := None,
             er_reconcile_owner := None, er_reconcile_lease_expires_at := None,
             er_next_reconcile_at := None, er_version := er_version er + 1, er_updated_at := w_now w\<rparr>))"
proof -
  let ?q = "\<lambda>er. er_execution_id er = er_execution_id rec \<and> er_state er \<in> {StatePrepared, StateExecuting}
            \<and> er_version er = er_version rec \<and> er_lease_expires_at er \<noteq> None
            \<and> sql_lt (er_lease_expires_at er) (w_now w) \<and> epochGuard (st_epoch s) (w_db w)"
  have "?q rec"
    using assms(3,5,6) by (auto simp: crashed_def epochGuard_def sql_lt_iff)
  then have hit: "guarded_update ?q f (commit_event now eid ev) (w_db w)
      = TxCommit (sqliteInsertEffectEvent now eid ev
          ((w_db w)\<lparr>execution_requests :=
             update_where (\<lambda>er. er_execution_id er = er_execution_id rec) f (execution_requests (w_db w))\<rparr>)) ()" for f now eid ev
    by (intro guarded_hit [OF assms(2,4)]) auto
  show "fst r = None"
    unfolding r_def RecoverExpiredPreDispatch_def exec_calm [OF assms(1)] tx_RecoverExpiredPreDispatch_def hit by simp
  show "frame w (snd r) (update_where (\<lambda>er. er_execution_id er = er_execution_id rec)
          (\<lambda>er. er\<lparr>er_state := StatePrepared, er_lease_owner := None, er_lease_token := None,
             er_lease_started_at := None, er_lease_expires_at := None,
             er_reconcile_owner := None, er_reconcile_lease_expires_at := None,
             er_next_reconcile_at := None, er_version := er_version er + 1, er_updated_at := w_now w\<rparr>))"
    using assms(1)
    unfolding r_def RecoverExpiredPreDispatch_def exec_calm [OF assms(1)] tx_RecoverExpiredPreDispatch_def hit
    by (simp add: frame_def)
qed

lemma recover_in_flight:
  assumes "calm w" "unique_rows (execution_requests (w_db w))" "cm_epoch (w_db w) = st_epoch s"
    and "rec \<in> set (execution_requests (w_db w))" "er_state rec = StateInFlight"
  defines "r \<equiv> EnterRecovery s (er_execution_id rec) StateInFlight (er_version rec) w"
  shows "fst r = None"
    and "frame w (snd r) (update_where (\<lambda>er. er_execution_id er = er_execution_id rec) (to_unknown (w_now w)))"
proof -
  let ?q = "\<lambda>er. er_execution_id er = er_execution_id rec \<and> er_state er = StateInFlight
            \<and> er_version er = er_version rec \<and> epochGuard (st_epoch s) (w_db w)"
  have "?q rec"
    using assms(3,5) by (simp add: epochGuard_def)
  then have hit: "guarded_update ?q f (commit_event now eid ev) (w_db w)
      = TxCommit (sqliteInsertEffectEvent now eid ev
          ((w_db w)\<lparr>execution_requests :=
             update_where (\<lambda>er. er_execution_id er = er_execution_id rec) f (execution_requests (w_db w))\<rparr>)) ()" for f now eid ev
    by (intro guarded_hit [OF assms(2,4)]) auto
  show "fst r = None"
    and "frame w (snd r) (update_where (\<lambda>er. er_execution_id er = er_execution_id rec) (to_unknown (w_now w)))"
    using assms(1) unfolding r_def EnterRecovery_def exec_calm [OF assms(1)] tx_EnterRecovery_def hit
    by (simp_all add: isLegalTransition_iff frame_def)
qed

lemma recoverCrashed_row:
  assumes "calm (rc_world st)" "unique_rows (execution_requests (w_db (rc_world st)))"
    and "cm_epoch (w_db (rc_world st)) = st_epoch (wk_store w)"
    and "rec \<in> set (execution_requests (w_db (rc_world st)))" "crashed (w_now (rc_world st)) rec"
  shows "fst (recoverCrashed w rec st) = None"
    and "frame (rc_world st) (rc_world (snd (recoverCrashed w rec st)))
      (update_where (\<lambda>er. er_execution_id er = er_execution_id rec) (recovered (w_now (rc_world st))))"
proof -
  let ?w = "rc_world st" and ?eid = "er_execution_id rec"
  let ?release = "ReleaseReconcileClaim (wk_store w) ?eid (er_version rec) 0 []"
  have "fst (recoverCrashed w rec st) = None
    \<and> frame ?w (rc_world (snd (recoverCrashed w rec st)))
        (update_where (\<lambda>er. er_execution_id er = ?eid) (recovered (w_now ?w)))"
  proof (cases "er_state rec = StateInFlight")
    case True
    note r = recover_in_flight [OF assms(1-4) True]
    have "update_where (\<lambda>er. er_execution_id er = ?eid) (recovered (w_now ?w)) (execution_requests (w_db ?w))
      = update_where (\<lambda>er. er_execution_id er = ?eid) (to_unknown (w_now ?w)) (execution_requests (w_db ?w))"
      using assms(2,4) by (rule update_the_record) (simp add: recovered_def True)
    then show ?thesis
      using r True by (auto simp: recoverCrashed_def in_store_def frame_def split: prod.splits)
  next
    case False
    let ?r = "RecoverExpiredPreDispatch (wk_store w) ?eid (er_version rec) ?w"
    let ?f = "\<lambda>er. er\<lparr>er_state := StatePrepared, er_lease_owner := None, er_lease_token := None,
             er_lease_started_at := None, er_lease_expires_at := None,
             er_reconcile_owner := None, er_reconcile_lease_expires_at := None,
             er_next_reconcile_at := None, er_version := er_version er + 1, er_updated_at := w_now ?w\<rparr>"
    note r = recover_pre_dispatch [OF assms(1-5) False]
    have same: "update_where (\<lambda>er. er_execution_id er = ?eid) (recovered (w_now ?w)) (execution_requests (w_db ?w))
      = update_where (\<lambda>er. er_execution_id er = ?eid) ?f (execution_requests (w_db ?w))"
      using assms(2,4) by (rule update_the_record) (simp add: recovered_def False)
    have rows: "execution_requests (w_db (snd ?r))
        = update_where (\<lambda>er. er_execution_id er = ?eid) ?f (execution_requests (w_db ?w))"
      and calm: "calm (snd ?r)" and epoch: "cm_epoch (w_db (snd ?r)) = st_epoch (wk_store w)"
      using r(2) assms(3) by (simp_all add: frame_def)
    have "er_version er \<noteq> er_version rec"
      if "er \<in> set (execution_requests (w_db (snd ?r)))" "er_execution_id er = ?eid" for er
      using that assms(2,4) by (auto simp: rows update_where_def unique_rows_def distinct_map dest: inj_onD split: if_splits)
    then have lost: "ReleaseReconcileClaim (wk_store w) ?eid (er_version rec) 0 [] (snd ?r)
        = (Some (LeaseErr LeaseStateConflict), noteContentionEvent ?eid EventClaimLost ''release reconcile claim CAS failed'' (snd ?r))"
      by (rule stale_release [OF calm epoch])
    have state: "er_state rec = StatePrepared \<or> er_state rec = StateExecuting"
      using assms(5) False by (auto simp: crashed_def)
    have "recoverCrashed w rec st = (None,
        st\<lparr>rc_world := noteContentionEvent ?eid EventClaimLost ''release reconcile claim CAS failed'' (snd ?r)\<rparr>)"
      using r(1) state lost by (cases ?r) (auto simp: recoverCrashed_def in_store_def Let_def)
    then show ?thesis
      using r(2) calm same note_calm [OF calm] note_calm_frame [OF calm] by (simp add: frame_def)
  qed
  then show "fst (recoverCrashed w rec st) = None"
    and "frame ?w (rc_world (snd (recoverCrashed w rec st)))
      (update_where (\<lambda>er. er_execution_id er = ?eid) (recovered (w_now ?w)))"
    by blast+
qed

lemma recovered_keys [simp]:
  "er_execution_id (recovered now er) = er_execution_id er" "key_of (recovered now er) = key_of er"
  by (simp_all add: recovered_def to_unknown_def key_of_def)

lemma unique_update:
  assumes "unique_rows rs" "\<And>er. er_execution_id (f er) = er_execution_id er" "\<And>er. key_of (f er) = key_of er"
  shows "unique_rows (update_where q f rs)"
proof -
  have "map er_execution_id (update_where q f rs) = map er_execution_id rs" "map key_of (update_where q f rs) = map key_of rs"
    using assms(2,3) by (simp_all add: update_where_def)
  then show ?thesis
    using assms(1) by (simp only: unique_rows_def)
qed

lemma fold_recoverCrashed:
  assumes "calm (rc_world st)" "unique_rows (execution_requests (w_db (rc_world st)))"
    and "cm_epoch (w_db (rc_world st)) = st_epoch (wk_store w)"
    and "distinct (map er_execution_id recs)" "set recs \<subseteq> set (execution_requests (w_db (rc_world st)))"
    and "\<forall>rec\<in>set recs. crashed (w_now (rc_world st)) rec"
  shows "frame (rc_world st) (rc_world (fold (\<lambda>rec st. snd (recoverCrashed w rec st)) recs st))
    (update_where (\<lambda>er. er_execution_id er \<in> er_execution_id ` set recs) (recovered (w_now (rc_world st))))"
  using assms
proof (induction recs arbitrary: st)
  case Nil
  then show ?case
    by (simp add: frame_def update_where_def)
next
  case (Cons rec recs)
  let ?w = "rc_world st" and ?st1 = "snd (recoverCrashed w rec st)"
  let ?rows = "execution_requests (w_db ?w)" and ?g = "recovered (w_now ?w)"
  have step: "frame ?w (rc_world ?st1) (update_where (\<lambda>er. er_execution_id er = er_execution_id rec) ?g)"
    using recoverCrashed_row(2) [OF Cons.prems(1-3)] Cons.prems(5,6) by simp
  then have rows: "execution_requests (w_db (rc_world ?st1)) = update_where (\<lambda>er. er_execution_id er = er_execution_id rec) ?g ?rows"
    and now: "w_now (rc_world ?st1) = w_now ?w"
    by (simp_all add: frame_def)
  have kept: "er \<in> set (execution_requests (w_db (rc_world ?st1)))" if "er \<in> set recs" for er
    using that Cons.prems(4,5) by (auto simp: rows update_where_def image_iff intro!: bexI [of _ er])
  have "frame (rc_world ?st1) (rc_world (fold (\<lambda>rec st. snd (recoverCrashed w rec st)) recs ?st1))
      (update_where (\<lambda>er. er_execution_id er \<in> er_execution_id ` set recs) ?g)"
    using Cons.IH [of ?st1] Cons.prems step kept unique_update [OF Cons.prems(2)]
    by (simp add: frame_def subset_eq)
  moreover have "update_where (\<lambda>er. er_execution_id er \<in> er_execution_id ` set recs) ?g
      (update_where (\<lambda>er. er_execution_id er = er_execution_id rec) ?g ?rows)
    = update_where (\<lambda>er. er_execution_id er \<in> er_execution_id ` set (rec # recs)) ?g ?rows"
    using Cons.prems(4) by (auto simp: update_where_def)
  ultimately show ?case
    using step by (simp add: frame_def)
qed

section \<open>The phases of a cycle\<close>

definition claimed_expired :: "string \<Rightarrow> int \<Rightarrow> int \<Rightarrow> exec_row \<Rightarrow> exec_row" where
  "claimed_expired owner dur now er =
    er\<lparr>er_reconcile_owner := Some owner, er_reconcile_lease_expires_at := Some (now + msDuration dur),
       er_version := er_version er + 1, er_updated_at := now\<rparr>"

definition claimed_unknown :: "string \<Rightarrow> int \<Rightarrow> int \<Rightarrow> exec_row \<Rightarrow> exec_row" where
  "claimed_unknown owner dur now er =
    er\<lparr>er_reconcile_owner := Some owner, er_reconcile_lease_expires_at := Some (now + msDuration dur),
       er_reconcile_attempt := er_reconcile_attempt er + 1, er_version := er_version er + 1, er_updated_at := now\<rparr>"

lemma cm_epoch_fold_events [simp]:
  "cm_epoch (fold (\<lambda>r. sqliteInsertEffectEvent now (i r) (ev r)) recs d) = cm_epoch d"
  by (induction recs arbitrary: d) simp_all

abbreviation chosen :: "(exec_row \<Rightarrow> bool) \<Rightarrow> nat \<Rightarrow> db \<Rightarrow> exec_row \<Rightarrow> bool" where
  "chosen p n d er \<equiv> er_execution_id er \<in> set (claim_candidates p n d)"

lemma update_none: "filter q rs = [] \<Longrightarrow> update_where q f rs = rs"
  by (auto simp: update_where_def filter_empty_conv intro: map_idI)

lemma ClaimExpiredBatch_calm:
  fixes n dur :: int and owner :: string and s :: store
  assumes "calm w" "cm_epoch (w_db w) = st_epoch s"
  defines "hit \<equiv> chosen (expired_claimable (w_now w)) (batch_size n) (w_db w)"
    and "g \<equiv> claimed_expired owner (claim_duration dur) (w_now w)"
    and "r \<equiv> ClaimExpiredBatch s owner n dur w"
  shows "fst r = Inr (map g (filter hit (execution_requests (w_db w)))) \<and> frame w (snd r) (update_where hit g)"
proof -
  have g: "(\<lambda>er. er\<lparr>er_reconcile_owner := Some owner,
               er_reconcile_lease_expires_at := Some (w_now w + msDuration (claim_duration dur)),
               er_version := er_version er + 1, er_updated_at := w_now w\<rparr>) = g"
    by (simp add: fun_eq_iff g_def claimed_expired_def)
  show ?thesis
    using assms(1,2) update_none [of hit "execution_requests (w_db w)" g]
    unfolding r_def ClaimExpiredBatch_def exec_calm [OF assms(1)] tx_ClaimExpiredBatch_def g
    by (auto simp: claim_batch_def Let_def epochGuard_def hit_def checkEpoch_calm frame_def)
qed

lemma ClaimUnknownBatch_frame:
  fixes n dur :: int and owner :: string and s :: store
  assumes "calm w" "cm_epoch (w_db w) = st_epoch s"
  defines "hit \<equiv> chosen (unknown_claimable (w_now w)) (batch_size n) (w_db w)"
    and "g \<equiv> claimed_unknown owner (claim_duration dur) (w_now w)"
    and "r \<equiv> ClaimUnknownBatch s owner n dur w"
  shows "fst r = Inr (map g (filter hit (execution_requests (w_db w)))) \<and> frame w (snd r) (update_where hit g)"
proof -
  have g: "(\<lambda>er. er\<lparr>er_reconcile_owner := Some owner,
               er_reconcile_lease_expires_at := Some (w_now w + msDuration (claim_duration dur)),
               er_reconcile_attempt := er_reconcile_attempt er + 1,
               er_version := er_version er + 1, er_updated_at := w_now w\<rparr>) = g"
    by (simp add: fun_eq_iff g_def claimed_unknown_def)
  show ?thesis
    using assms(1,2) update_none [of hit "execution_requests (w_db w)" g]
    unfolding r_def ClaimUnknownBatch_def exec_calm [OF assms(1)] tx_ClaimUnknownBatch_def g
    by (auto simp: claim_batch_def Let_def epochGuard_def hit_def checkEpoch_calm frame_def)
qed

text \<open>Working on unknown records leaves the rows of every other record alone.\<close>

definition within :: "string set \<Rightarrow> exec_row list \<Rightarrow> exec_row list \<Rightarrow> bool" where
  "within I = list_all2 (\<lambda>er er'. er' = er \<or> er_execution_id er \<in> I \<and> er_execution_id er' = er_execution_id er)"

lemma within_trans: "within I as bs \<Longrightarrow> within I bs cs \<Longrightarrow> within I as cs"
  unfolding within_def by (rule list_all2_trans) auto

lemma within_at_most: "list_all2 (at_most eid) as bs \<Longrightarrow> eid \<in> I \<Longrightarrow> within I as bs"
  unfolding within_def by (erule list_all2_mono) (auto simp: at_most_def)

definition calm_within :: "string set \<Rightarrow> world \<Rightarrow> world \<Rightarrow> bool" where
  "calm_within I w w' \<longleftrightarrow> calm w' \<and> w_now w' = w_now w \<and> cm_epoch (w_db w') = cm_epoch (w_db w)
    \<and> within I (execution_requests (w_db w)) (execution_requests (w_db w'))"

lemma fold_reconcileOne:
  assumes "calm (rc_world st)" "er_execution_id ` set recs \<subseteq> I"
  shows "calm_within I (rc_world st) (rc_world (fold (\<lambda>rec st. snd (reconcileOne w t rec st)) recs st))"
  using assms
proof (induction recs arbitrary: st)
  case Nil
  then show ?case
    by (simp add: calm_within_def within_def list_all2_same)
next
  case (Cons rec recs)
  let ?st1 = "snd (reconcileOne w t rec st)"
  have "calm_within I (rc_world st) (rc_world ?st1)"
    using rtouches_reconcileOne [of rec st w t] Cons.prems
    by (auto simp: rtouches_def touches_def calm_within_def intro: within_at_most)
  then show ?case
    using Cons.IH [of ?st1] Cons.prems within_trans by (auto simp: calm_within_def)
qed

lemma rfollows_fold_reconcileOne: "rfollows st (fold (\<lambda>rec st. snd (reconcileOne w t rec st)) recs st)"
proof (induction recs arbitrary: st)
  case (Cons rec recs)
  show ?case
    using Cons [of "snd (reconcileOne w t rec st)"] reconcileOne_effect(1) [OF surjective_pairing, of st w t rec] rfollows_trans
    by auto
qed simp

lemma filter_unchanged: "list_all2 (\<lambda>a b. b = a \<or> \<not> p a \<and> \<not> p b) as bs \<Longrightarrow> filter p bs = filter p as"
  by (induction rule: list_all2_induct) auto

lemma unknown_stays_settled:
  assumes "safe any_store w" "follows any_store w w'" "er \<in> set (execution_requests (w_db w))"
    and "er' \<in> set (execution_requests (w_db w'))" "er_execution_id er' = er_execution_id er" "er_state er = StateUnknown"
  shows "\<not> crashed now er'"
proof -
  have "progress er er'"
    using progress_history.steps_related_row [of any_store "w_db w" "w_db w'" er er'] assms by (simp add: follows_def safe_def)
  then show ?thesis
    using assms(6) by (auto simp: progress_def crashed_def)
qed

lemma reconcile_phase:
  assumes "calm (rc_world st)" "safe any_store (rc_world st)" "cm_epoch (w_db (rc_world st)) = st_epoch (wk_store w)"
    and "in_store (ClaimUnknownBatch (wk_store w) owner n dur) st = (r, st1)"
  defines "crash_rows \<equiv> \<lambda>st. filter (crashed (w_now (rc_world st))) (execution_requests (w_db (rc_world st)))"
  shows "\<exists>recs st2. r = Inr recs \<and> st2 = fold (\<lambda>rec st. snd (reconcileOne w t rec st)) recs st1
    \<and> calm (rc_world st2) \<and> safe any_store (rc_world st2) \<and> w_now (rc_world st2) = w_now (rc_world st)
    \<and> cm_epoch (w_db (rc_world st2)) = st_epoch (wk_store w) \<and> crash_rows st2 = crash_rows st"
proof -
  let ?w = "rc_world st"
  let ?rows = "execution_requests (w_db ?w)" and ?hit = "chosen (unknown_claimable (w_now ?w)) (batch_size n) (w_db ?w)"
  let ?g = "claimed_unknown owner (claim_duration dur) (w_now ?w)"
  let ?I = "er_execution_id ` set (filter ?hit ?rows)"
  define recs where "recs = map ?g (filter ?hit ?rows)"
  have r: "r = Inr recs" and fr: "frame ?w (rc_world st1) (update_where ?hit ?g)"
    using ClaimUnknownBatch_frame [OF assms(1,3), of owner n dur] assms(4)
    by (auto simp: in_store_def recs_def split: prod.splits)
  have unique: "unique_rows ?rows"
    using assms(2) reachable_unique by (auto simp: safe_def)
  have hits: "er_state er = StateUnknown" if "er \<in> set ?rows" "er_execution_id er \<in> ?I" for er
  proof -
    have "?hit er"
      using that(2) by auto
    then have "unknown_claimable (w_now ?w) er"
      using claimed_row [OF unique that(1)] by blast
    then show ?thesis
      by (simp add: unknown_claimable_def)
  qed
  have g: "er_execution_id (?g er) = er_execution_id er" for er
    by (simp add: claimed_unknown_def)
  have "within ?I ?rows (execution_requests (w_db (rc_world st1)))"
    using fr g by (auto simp: frame_def within_def update_where_def list_all2_map2 list_all2_same)
  moreover have "er_execution_id ` set recs \<subseteq> ?I" and calm1: "calm (rc_world st1)"
    using fr g by (auto simp: recs_def frame_def)
  ultimately have all: "calm_within ?I ?w (rc_world (fold (\<lambda>rec st. snd (reconcileOne w t rec st)) recs st1))"
    using fold_reconcileOne [of st1 recs ?I w t] fr within_trans by (auto simp: calm_within_def frame_def)
  have "rfollows st st1"
    using assms(4) by (rule rfollows_in_store_eq) (rule store_follows)
  then have fol: "rfollows st (fold (\<lambda>rec st. snd (reconcileOne w t rec st)) recs st1)"
    using rfollows_fold_reconcileOne rfollows_trans by blast
  show ?thesis
  proof (intro exI conjI)
    show "r = Inr recs"
      by (rule r)
    define st2 where "st2 = fold (\<lambda>rec st. snd (reconcileOne w t rec st)) recs st1"
    show "st2 = fold (\<lambda>rec st. snd (reconcileOne w t rec st)) recs st1"
      by (rule st2_def)
    let ?rows2 = "execution_requests (w_db (rc_world st2))"
    have "list_all2 (\<lambda>a b. b = a \<or> \<not> crashed (w_now ?w) a \<and> \<not> crashed (w_now ?w) b) ?rows ?rows2"
    proof (rule list.rel_mono_strong)
      show "list_all2 (\<lambda>er er'. er' = er \<or> er_execution_id er \<in> ?I \<and> er_execution_id er' = er_execution_id er) ?rows ?rows2"
        using all by (simp add: calm_within_def within_def st2_def)
      fix er er'
      assume rows: "er \<in> set ?rows" "er' \<in> set ?rows2"
        and "er' = er \<or> er_execution_id er \<in> ?I \<and> er_execution_id er' = er_execution_id er"
      moreover have "\<not> crashed (w_now ?w) er \<and> \<not> crashed (w_now ?w) er'"
        if "er_execution_id er \<in> ?I" "er_execution_id er' = er_execution_id er"
        using hits [OF rows(1) that(1)] unknown_stays_settled [OF assms(2) fol [unfolded rfollows_def] rows(1) _ that(2)] rows(2)
        by (simp add: st2_def crashed_def)
      ultimately show "er' = er \<or> \<not> crashed (w_now ?w) er \<and> \<not> crashed (w_now ?w) er'"
        by blast
    qed
    then show "crash_rows st2 = crash_rows st"
      using all by (simp add: crash_rows_def calm_within_def st2_def filter_unchanged)
    show "calm (rc_world st2)" "safe any_store (rc_world st2)" "w_now (rc_world st2) = w_now ?w"
        "cm_epoch (w_db (rc_world st2)) = st_epoch (wk_store w)"
      using all assms(3) safe_follows [OF fol assms(2)] by (simp_all add: calm_within_def st2_def)
  qed
qed

text \<open>Within the batch size, the expired claims take every crashed record that is free.\<close>

lemma candidates_all:
  assumes "length (filter p (execution_requests d)) \<le> n" "unique_rows (execution_requests d)" "er \<in> set (execution_requests d)"
  shows "chosen p n d er \<longleftrightarrow> p er"
proof
  assume "chosen p n d er"
  then show "p er"
    using claimed_row [OF assms(2,3)] by blast
next
  assume "p er"
  then show "chosen p n d er"
    using assms(1,3) by (simp add: claim_candidates_def)
qed

lemma expired_crashed: "expired_claimable now er \<Longrightarrow> crashed now er"
  by (simp add: expired_claimable_def crashed_def)

lemma expired_phase:
  assumes "calm (rc_world st)" "unique_rows (execution_requests (w_db (rc_world st)))"
    and "cm_epoch (w_db (rc_world st)) = st_epoch (wk_store w)"
    and "length (filter (expired_claimable (w_now (rc_world st))) (execution_requests (w_db (rc_world st)))) \<le> batch_size n"
    and "in_store (ClaimExpiredBatch (wk_store w) owner n dur) st = (r, st1)"
  shows "\<exists>recs st2. r = Inr recs \<and> st2 = fold (\<lambda>rec st. snd (recoverCrashed w rec st)) recs st1
    \<and> frame (rc_world st) (rc_world st2)
        (update_where (expired_claimable (w_now (rc_world st)))
          (\<lambda>er. recovered (w_now (rc_world st)) (claimed_expired owner (claim_duration dur) (w_now (rc_world st)) er)))"
proof -
  let ?w = "rc_world st"
  let ?rows = "execution_requests (w_db ?w)" and ?p = "expired_claimable (w_now ?w)"
  let ?hit = "chosen ?p (batch_size n) (w_db ?w)" and ?g = "claimed_expired owner (claim_duration dur) (w_now ?w)"
  define recs where "recs = map ?g (filter ?hit ?rows)"
  have r: "r = Inr recs" and fr: "frame ?w (rc_world st1) (update_where ?hit ?g)"
    using ClaimExpiredBatch_calm [OF assms(1,3), of owner n dur] assms(5)
    by (auto simp: in_store_def recs_def split: prod.splits)
  have hit: "?hit er \<longleftrightarrow> ?p er" if "er \<in> set ?rows" for er
    using candidates_all [OF assms(4,2) that] .
  have g [simp]: "er_execution_id (?g er) = er_execution_id er" "key_of (?g er) = key_of er"
      "crashed now (?g er) = crashed now er" for er now
    by (simp_all add: claimed_expired_def key_of_def crashed_def)
  have recs: "recs = map ?g (filter ?p ?rows)"
    using hit by (simp add: recs_def cong: filter_cong)
  have rows1: "execution_requests (w_db (rc_world st1)) = update_where ?p ?g ?rows"
    using fr hit by (simp add: frame_def update_where_def)
  have "frame (rc_world st1) (rc_world (fold (\<lambda>rec st. snd (recoverCrashed w rec st)) recs st1))
      (update_where (\<lambda>er. er_execution_id er \<in> er_execution_id ` set recs) (recovered (w_now ?w)))"
  proof -
    have "distinct (map er_execution_id recs)"
      using assms(2) by (simp add: recs unique_rows_def distinct_map_filter comp_def)
    moreover have "set recs \<subseteq> set (execution_requests (w_db (rc_world st1)))"
      by (auto simp: rows1 recs update_where_def)
    moreover have "\<forall>rec\<in>set recs. crashed (w_now (rc_world st1)) rec"
      using fr by (auto simp: recs frame_def dest: expired_crashed)
    moreover have "unique_rows (execution_requests (w_db (rc_world st1)))"
      unfolding rows1 using assms(2) by (rule unique_update) simp_all
    ultimately show ?thesis
      using fold_recoverCrashed [of st1 w recs] fr assms(3) by (simp add: frame_def)
  qed
  moreover have "update_where (\<lambda>er. er_execution_id er \<in> er_execution_id ` set recs) f (update_where ?p ?g ?rows)
      = update_where ?p (\<lambda>er. f (?g er)) ?rows" for f
  proof -
    have "er_execution_id er \<in> er_execution_id ` set recs \<longleftrightarrow> ?p er" if "er \<in> set ?rows" for er
      using that assms(2) by (auto simp: recs unique_rows_def distinct_map image_iff dest: inj_onD)
    then show ?thesis
      by (simp add: update_where_def)
  qed
  ultimately show ?thesis
    using r fr rows1 by (simp add: frame_def)
qed

lemma scrub_calm:
  assumes "calm w" "cm_epoch (w_db w) = st_epoch s" "0 < older"
  shows "frame w (snd (ScrubStaleRecoveryLocators s older w))
    (update_where (scrub_due s older (w_now w) (w_db w)) (\<lambda>er. er\<lparr>er_recovery_locator := None\<rparr>))"
  using assms
  by (simp add: ScrubStaleRecoveryLocators_def checkEpoch_calm exec_calm tx_ScrubStaleRecoveryLocators_def frame_def)

definition at_rest :: "int \<Rightarrow> exec_row \<Rightarrow> exec_row \<Rightarrow> bool" where
  "at_rest now er er' \<longleftrightarrow>
    identity_cols er' = identity_cols er
    \<and> er_state er' = (if er_state er = StateInFlight then StateUnknown else StatePrepared)
    \<and> lease_cols er' = (None, None, None, None) \<and> er_reconcile_owner er' = None
    \<and> (er_state er = StateInFlight \<longrightarrow> er_entered_unknown_at er' = Some now)"

lemma recovered_at_rest: "at_rest now er (recovered now (claimed_expired owner dur now er))"
  by (simp add: at_rest_def recovered_def claimed_expired_def to_unknown_def identity_cols_def lease_cols_def)

lemma at_rest_scrub: "at_rest now er (er'\<lparr>er_recovery_locator := None\<rparr>) = at_rest now er er'"
  by (simp add: at_rest_def identity_cols_def lease_cols_def)

lemma expired_scrub: "expired_claimable now (er\<lparr>er_recovery_locator := None\<rparr>) = expired_claimable now er"
  by (simp add: expired_claimable_def claim_free_def)

lemma expired_at_rest: "at_rest now er er' \<Longrightarrow> \<not> expired_claimable now er'"
  by (simp add: at_rest_def expired_claimable_def lease_cols_def)

text \<open>The rows a cycle leaves, from those that had an expired lease and were free.\<close>

lemma cycle_rows:
  assumes "calm (rc_world st)" "safe any_store (rc_world st)" "cm_epoch (w_db (rc_world st)) = st_epoch (wk_store w)"
    and "length (filter (expired_claimable (w_now (rc_world st))) (execution_requests (w_db (rc_world st))))
      \<le> batch_size (wk_batchSize w)"
    and "RunCycle w t st = (e, st')"
  defines "f \<equiv> \<lambda>er. recovered (w_now (rc_world st))
      (claimed_expired (wk_workerID w) (claim_duration (wk_claimDuration w)) (w_now (rc_world st)) er)"
  shows "e = None \<and> (\<exists>rows q. filter (expired_claimable (w_now (rc_world st))) rows
          = filter (expired_claimable (w_now (rc_world st))) (execution_requests (w_db (rc_world st)))
      \<and> execution_requests (w_db (rc_world st')) = update_where q (\<lambda>er. er\<lparr>er_recovery_locator := None\<rparr>)
          (update_where (expired_claimable (w_now (rc_world st))) f rows))"
proof -
  let ?now = "w_now (rc_world st)" and ?rows = "\<lambda>st. execution_requests (w_db (rc_world st))"
  let ?start = "tally w (\<lambda>m. m\<lparr>wm_CyclesStarted := wm_CyclesStarted m + 1\<rparr>) st"
  let ?p = "expired_claimable ?now" and ?s = "wk_store w"
  obtain r1 st1 where c1: "in_store (ClaimUnknownBatch ?s (wk_workerID w) (wk_batchSize w) (wk_claimDuration w)) ?start = (r1, st1)"
    by fastforce
  have "calm (rc_world ?start)" "safe any_store (rc_world ?start)" "cm_epoch (w_db (rc_world ?start)) = st_epoch ?s"
    using assms(1-3) by simp_all
  from reconcile_phase [OF this c1, where t = t] obtain recs st2 where
      r1: "r1 = Inr recs" and st2: "st2 = fold (\<lambda>rec st. snd (reconcileOne w t rec st)) recs st1"
      and two: "calm (rc_world st2)" "safe any_store (rc_world st2)" "w_now (rc_world st2) = ?now"
      "cm_epoch (w_db (rc_world st2)) = st_epoch ?s" "filter (crashed ?now) (?rows st2) = filter (crashed ?now) (?rows st)"
    by auto
  have "filter ?p (filter (crashed ?now) rs) = filter ?p rs" for rs
    by (auto simp: filter_filter intro!: filter_cong dest: expired_crashed)
  then have same: "filter ?p (?rows st2) = filter ?p (?rows st)"
    using two(5) by metis
  have unique2: "unique_rows (?rows st2)"
    using two(2) reachable_unique by (auto simp: safe_def)
  obtain r3 st3 where c3: "in_store (ClaimExpiredBatch ?s (wk_workerID w) (wk_batchSize w) (wk_claimDuration w)) st2 = (r3, st3)"
    by fastforce
  have "length (filter (expired_claimable (w_now (rc_world st2))) (?rows st2)) \<le> batch_size (wk_batchSize w)"
    using assms(4) same two(3) by simp
  from expired_phase [OF two(1) unique2 two(4) this c3] obtain expired st4 where
      r3: "r3 = Inr expired" and st4: "st4 = fold (\<lambda>rec st. snd (recoverCrashed w rec st)) expired st3"
      and phase3: "frame (rc_world st2) (rc_world st4) (update_where ?p f)"
    by (auto simp: two(3) f_def)
  have rows4: "?rows st4 = update_where ?p f (?rows st2)"
      and four: "calm (rc_world st4)" "cm_epoch (w_db (rc_world st4)) = st_epoch ?s"
    using phase3 two(4) by (simp_all add: frame_def)
  let ?scrub = "\<lambda>w0. snd (ScrubStaleRecoveryLocators ?s (wk_locatorRetention w) w0)"
  have run: "e = None" "?rows st' = (if 0 < wk_locatorRetention w
      then execution_requests (w_db (?scrub (rc_world st4))) else ?rows st4)"
    using assms(5) c1 c3
    by (auto simp: RunCycle_def reconcileAll_def reconcileAllOnce_def r1 r3 st2 [symmetric] st4 [symmetric] Let_def in_store_def
        split: prod.splits if_splits)
  have "\<exists>q. ?rows st' = update_where q (\<lambda>er. er\<lparr>er_recovery_locator := None\<rparr>) (?rows st4)"
  proof (cases "0 < wk_locatorRetention w")
    case True
    then show ?thesis
      using scrub_calm [OF four True] run(2) by (auto simp: frame_def)
  next
    case False
    then show ?thesis
      using run(2) by (intro exI [of _ "\<lambda>_. False"]) (simp add: update_where_def)
  qed
  then show ?thesis
    using run(1) rows4 same by auto
qed


definition crashed_rstate :: rstate where
  "crashed_rstate = sample_rstate (in_flight_world\<lparr>w_now := 1000000000\<rparr>)"

lemma crashed_rstate_world: "rc_world crashed_rstate = in_flight_world\<lparr>w_now := 1000000000\<rparr>"
  by (simp add: crashed_rstate_def sample_rstate_def)


section \<open>Retries\<close>

lemma backoff_ms:
  assumes "1 \<le> a"
  shows "msDuration (reconcileBackoff (a - 1)) = min (30000 * 2 ^ nat (a - 1)) 1800000"
proof (cases "a \<le> 7")
  case True
  then consider "a = 1" | "a = 2" | "a = 3" | "a = 4" | "a = 5" | "a = 6" | "a = 7"
    using assms by linarith
  then show ?thesis
    by cases (simp_all, code_simp+)
next
  case False
  then have "(2 :: int) ^ 7 \<le> 2 ^ nat (a - 1)"
    by (intro power_increasing) auto
  then have "min (30000 * 2 ^ nat (a - 1)) 1800000 = (1800000 :: int)"
    by simp
  moreover have "reconcileBackoff (a - 1) = 1800000000000"
    using False by (simp add: reconcileBackoff_def)
  moreover have "msDuration 1800000000000 = 1800000"
    by code_simp
  ultimately show ?thesis
    by simp
qed

definition inconclusive :: "string + recovery_result \<Rightarrow> bool" where
  "inconclusive answer = (case answer of Inl e \<Rightarrow> True | Inr res \<Rightarrow> rr_Decision res = RecoveryUnknown)"

text \<open>How long a record rests after its \<open>a\<close>-th attempt.\<close>

definition rest_ms :: "int \<Rightarrow> int \<Rightarrow> int" where
  "rest_ms maxAttempts a =
    (if 0 < maxAttempts \<and> maxAttempts \<le> a then msDuration suspend_duration else min (30000 * 2 ^ nat (a - 1)) 1800000)"

definition rested :: "exec_row \<Rightarrow> int \<Rightarrow> exec_row \<Rightarrow> bool" where
  "rested rec due er' \<longleftrightarrow>
    er_execution_id er' = er_execution_id rec \<and> er_state er' = StateUnknown
    \<and> er_reconcile_attempt er' = er_reconcile_attempt rec \<and> er_reconcile_owner er' = None
    \<and> er_next_reconcile_at er' = Some due"

lemma rested_claimable: "rested rec due er' \<Longrightarrow> unknown_claimable now er' \<longleftrightarrow> due \<le> now"
  by (simp add: rested_def unknown_claimable_def claim_free_def sql_simps)

lemma renewed_row:
  fixes dur :: int
  assumes "calm w" "unique_rows (execution_requests (w_db w))" "cm_epoch (w_db w) = st_epoch s"
    and "rec \<in> set (execution_requests (w_db w))" "er_state rec = StateUnknown"
    and "sql_gt (er_reconcile_lease_expires_at rec) (w_now w)"
  defines "r \<equiv> RenewReconcileClaim s (er_execution_id rec) (er_version rec) dur w"
  shows "fst r = None"
    and "frame w (snd r) (update_where (\<lambda>er. er_execution_id er = er_execution_id rec)
          (\<lambda>er. er\<lparr>er_reconcile_lease_expires_at :=
                 map_option (\<lambda>t. max t (w_now w + msDuration dur)) (er_reconcile_lease_expires_at er),
               er_updated_at := w_now w\<rparr>))"
proof -
  let ?q = "\<lambda>er. er_execution_id er = er_execution_id rec \<and> er_state er = StateUnknown
            \<and> er_version er = er_version rec \<and> sql_gt (er_reconcile_lease_expires_at er) (w_now w)
            \<and> epochGuard (st_epoch s) (w_db w)"
  have "?q rec"
    using assms(3,5,6) by (simp add: epochGuard_def)
  then have hit: "guarded_update ?q f (commit_event now eid ev) (w_db w)
      = TxCommit (sqliteInsertEffectEvent now eid ev
          ((w_db w)\<lparr>execution_requests :=
             update_where (\<lambda>er. er_execution_id er = er_execution_id rec) f (execution_requests (w_db w))\<rparr>)) ()" for f now eid ev
    by (intro guarded_hit [OF assms(2,4)]) auto
  show "fst r = None"
    and "frame w (snd r) (update_where (\<lambda>er. er_execution_id er = er_execution_id rec)
          (\<lambda>er. er\<lparr>er_reconcile_lease_expires_at :=
                 map_option (\<lambda>t. max t (w_now w + msDuration dur)) (er_reconcile_lease_expires_at er),
               er_updated_at := w_now w\<rparr>))"
    using assms(1) unfolding r_def RenewReconcileClaim_def exec_calm [OF assms(1)] tx_RenewReconcileClaim_def hit
    by (simp_all add: frame_def)
qed

text \<open>Releasing the claim of a record that is still \<open>UNKNOWN\<close> schedules its next attempt.\<close>

lemma releaseClaim_rests:
  assumes "calm (rc_world st)" "unique_rows (execution_requests (w_db (rc_world st)))"
    and "cm_epoch (w_db (rc_world st)) = st_epoch (wk_store w)"
    and "er \<in> set (execution_requests (w_db (rc_world st)))" "er_execution_id er = er_execution_id rec"
      "er_version er = er_version rec" "er_state er = StateUnknown" "er_reconcile_attempt er = er_reconcile_attempt rec"
    and "1 \<le> er_reconcile_attempt rec"
  shows "\<exists>er'\<in>set (execution_requests (w_db (rc_world (snd (releaseClaim w rec e st))))).
    rested rec (w_now (rc_world st) + rest_ms (wk_maxAttempts w) (er_reconcile_attempt rec)) er'"
proof -
  let ?w = "rc_world st" and ?s = "wk_store w" and ?eid = "er_execution_id rec" and ?v = "er_version rec"
  let ?rows = "execution_requests (w_db ?w)" and ?max = "wk_maxAttempts w" and ?a = "er_reconcile_attempt rec"
  let ?q = "\<lambda>er. er_execution_id er = ?eid \<and> er_state er = StateUnknown \<and> er_version er = ?v \<and> epochGuard (st_epoch ?s) (w_db ?w)"
  let ?p = "\<lambda>er. er_execution_id er = ?eid \<and> er_version er = ?v \<and> epochGuard (st_epoch ?s) (w_db ?w)"
  let ?d = "\<lambda>f. (w_db ?w)\<lparr>execution_requests := update_where (\<lambda>er. er_execution_id er = ?eid) f ?rows\<rparr>"
  have "?q er" "?p er"
    using assms(3,5-7) by (simp_all add: epochGuard_def)
  then have hit: "guarded_update ?q f (commit_event now eid ev) (w_db ?w) = TxCommit (sqliteInsertEffectEvent now eid ev (?d f)) ()"
      "guarded_update ?p f (commit_event now eid ev) (w_db ?w) = TxCommit (sqliteInsertEffectEvent now eid ev (?d f)) ()" for f now eid ev
    using guarded_hit [of "w_db ?w" er ?q, OF assms(2,4)] guarded_hit [of "w_db ?w" er ?p, OF assms(2,4)] assms(5) by simp_all
  have updated: "f er \<in> set (update_where (\<lambda>er. er_execution_id er = ?eid) f ?rows)" for f
    using assms(4,5) by (force simp: update_where_def)
  show ?thesis
  proof (cases "0 < ?max \<and> ?max \<le> ?a")
    case True
    let ?r = "SuspendReconciliation ?s ?eid ?v (ceiling_reason w e) ?w"
    let ?f = "\<lambda>er. er\<lparr>er_reconcile_owner := None, er_reconcile_lease_expires_at := None,
               er_next_reconcile_at := Some (w_now ?w + msDuration suspend_duration),
               er_last_reconcile_error := nullableString (ceiling_reason w e),
               er_version := er_version er + 1, er_updated_at := w_now ?w\<rparr>"
    have "fst ?r = None" "execution_requests (w_db (snd ?r)) = update_where (\<lambda>er. er_execution_id er = ?eid) ?f ?rows"
      unfolding SuspendReconciliation_def exec_calm [OF assms(1)] tx_SuspendReconciliation_def hit by simp_all
    then have "execution_requests (w_db (rc_world (snd (releaseClaim w rec e st)))) = update_where (\<lambda>er. er_execution_id er = ?eid) ?f ?rows"
      using True by (cases ?r) (simp add: releaseClaim_def in_store_def)
    moreover have "rested rec (w_now ?w + rest_ms ?max ?a) (?f er)"
      using assms(5,7,8) True by (simp add: rested_def rest_ms_def)
    ultimately show ?thesis
      using updated [of ?f] by auto
  next
    case False
    let ?backoff = "reconcileBackoff (?a - 1)" and ?text = "case e of None \<Rightarrow> [] | Some e \<Rightarrow> reconcile_error_text w e"
    let ?r = "ReleaseReconcileClaim ?s ?eid ?v ?backoff ?text ?w"
    let ?f = "\<lambda>er. er\<lparr>er_reconcile_owner := None, er_reconcile_lease_expires_at := None,
               er_next_reconcile_at :=
                 (if er_state er = StateUnknown \<and> msDuration ?backoff > 0
                  then Some (w_now ?w + msDuration ?backoff) else None),
               er_last_reconcile_error := nullableString ?text,
               er_version := er_version er + 1, er_updated_at := w_now ?w\<rparr>"
    have "fst ?r = None" "execution_requests (w_db (snd ?r)) = update_where (\<lambda>er. er_execution_id er = ?eid) ?f ?rows"
      unfolding ReleaseReconcileClaim_def exec_calm [OF assms(1)] tx_ReleaseReconcileClaim_def hit by simp_all
    then have "execution_requests (w_db (rc_world (snd (releaseClaim w rec e st)))) = update_where (\<lambda>er. er_execution_id er = ?eid) ?f ?rows"
      using False assms(9) by (cases ?r) (auto simp: releaseClaim_def in_store_def Let_def)
    moreover have "rested rec (w_now ?w + rest_ms ?max ?a) (?f er)"
      using assms(5,7,8) False backoff_ms [OF assms(9)] by (auto simp: rested_def rest_ms_def)
    ultimately show ?thesis
      using updated [of ?f] by auto
  qed
qed

text \<open>
  C36. Inconclusive lookups are retried with exponential backoff and given up after the last: when the
  resolver errs or does not know, the record stays \<open>UNKNOWN\<close>, its claim is dropped, and it can be claimed
  again exactly from 30 seconds on after the first attempt, twice as long after each further one, 30
  minutes at most, and after the attempt that reaches the ceiling not before a hundred years have passed.
\<close>

theorem retries_back_off:
  assumes "calm (rc_world st)" "safe any_store (rc_world st)" "cm_epoch (w_db (rc_world st)) = st_epoch (wk_store w)"
    and "rec \<in> set (execution_requests (w_db (rc_world st)))" "er_state rec = StateUnknown"
    and "sql_gt (er_reconcile_lease_expires_at rec) (w_now (rc_world st))"
    and "1 \<le> er_reconcile_attempt rec" "0 < wk_maxAttempts w \<Longrightarrow> er_reconcile_attempt rec \<le> wk_maxAttempts w"
    and "inconclusive (resolve w rec)"
  shows "\<exists>er'\<in>set (execution_requests (w_db (rc_world (snd (reconcileOne w t rec st))))).
    er_execution_id er' = er_execution_id rec \<and> er_state er' = StateUnknown
    \<and> (\<forall>now. unknown_claimable now er'
         \<longleftrightarrow> w_now (rc_world st) + rest_ms (wk_maxAttempts w) (er_reconcile_attempt rec) \<le> now)"
proof -
  let ?w = "rc_world st" and ?eid = "er_execution_id rec"
  let ?renew = "RenewReconcileClaim (wk_store w) ?eid (er_version rec) (wk_claimDuration w)"
  have unique: "unique_rows (execution_requests (w_db ?w))"
    using assms(2) reachable_unique by (auto simp: safe_def)
  let ?f = "\<lambda>er. er\<lparr>er_reconcile_lease_expires_at :=
                 map_option (\<lambda>t. max t (w_now ?w + msDuration (wk_claimDuration w))) (er_reconcile_lease_expires_at er),
               er_updated_at := w_now ?w\<rparr>"
  note renewed = renewed_row [OF assms(1) unique assms(3-6), of "wk_claimDuration w"]
  let ?st1 = "st\<lparr>rc_world := snd (?renew ?w), rc_lookups := rc_lookups st
      @ [\<lparr> lu_execution = ?eid, lu_attempt = er_reconcile_attempt rec \<rparr>]\<rparr>"
  have rows1: "execution_requests (w_db (rc_world ?st1)) = update_where (\<lambda>er. er_execution_id er = ?eid) ?f (execution_requests (w_db ?w))"
    and one: "calm (rc_world ?st1)" "w_now (rc_world ?st1) = w_now ?w" "cm_epoch (w_db (rc_world ?st1)) = st_epoch (wk_store w)"
    using renewed(2) assms(3) by (simp_all add: frame_def)
  have "unique_rows (execution_requests (w_db (rc_world ?st1)))"
    unfolding rows1 using unique by (rule unique_update) (simp_all add: key_of_def)
  moreover have "?f rec \<in> set (execution_requests (w_db (rc_world ?st1)))"
    unfolding rows1 using assms(4) by (force simp: update_where_def)
  ultimately have released: "\<exists>er'\<in>set (execution_requests (w_db (rc_world (snd (releaseClaim w rec e (tally w g ?st1)))))).
      rested rec (w_now ?w + rest_ms (wk_maxAttempts w) (er_reconcile_attempt rec)) er'"
    "\<exists>er'\<in>set (execution_requests (w_db (rc_world (snd (releaseClaim w rec e ?st1))))).
      rested rec (w_now ?w + rest_ms (wk_maxAttempts w) (er_reconcile_attempt rec)) er'" for e g
    using releaseClaim_rests [of "tally w g ?st1" w "?f rec" rec e] releaseClaim_rests [of ?st1 w "?f rec" rec e] one assms(5,7)
    by simp_all
  have "reconcileOne w t rec st = file_result w t rec (resolve w rec) ?st1"
    using renewed(1) assms(8) by (cases "?renew ?w") (auto simp: reconcileOne_def in_store_def)
  moreover have "\<exists>e g. file_result w t rec (resolve w rec) ?st1 = releaseClaim w rec e (tally w g ?st1)
      \<or> file_result w t rec (resolve w rec) ?st1 = releaseClaim w rec e ?st1"
    using assms(9) by (auto simp: file_result_def inconclusive_def split: sum.splits)
  ultimately obtain er' where "er' \<in> set (execution_requests (w_db (rc_world (snd (reconcileOne w t rec st)))))"
      "rested rec (w_now ?w + rest_ms (wk_maxAttempts w) (er_reconcile_attempt rec)) er'"
    using released by metis
  then show ?thesis
    using rested_claimable by (intro bexI [of _ er']) (auto simp: rested_def)
qed

definition claimed_record :: exec_row where
  "claimed_record = hd (execution_requests (w_db claimed_world))"

theorem retries_back_off_witness:
  "er_reconcile_attempt claimed_record = 1 \<and> rest_ms 15 1 = 30000
    \<and> list_ex (\<lambda>er'. er_execution_id er' = er_execution_id claimed_record \<and> er_state er' = StateUnknown
         \<and> \<not> unknown_claimable (w_now claimed_world + 29999) er' \<and> unknown_claimable (w_now claimed_world + 30000) er')
        (execution_requests (w_db (rc_world (snd (reconcileOne sample_worker [] claimed_record (sample_rstate claimed_world))))))"
proof -
  let ?st = "sample_rstate claimed_world"
  have world: "rc_world ?st = claimed_world"
    by (simp add: sample_rstate_def)
  have ev: "calm claimed_world" "cm_epoch (w_db claimed_world) = st_epoch (wk_store sample_worker)"
      "execution_requests (w_db claimed_world) \<noteq> []" "er_state claimed_record = StateUnknown"
      "sql_gt (er_reconcile_lease_expires_at claimed_record) (w_now claimed_world)" "er_reconcile_attempt claimed_record = 1"
      "wk_maxAttempts sample_worker = 15" "inconclusive (resolve sample_worker claimed_record)" "rest_ms 15 1 = 30000"
    by code_simp+
  have "safe any_store unknown_world"
    by (simp add: unknown_world_def safe_run_calls safe_sample_worlds)
  then have "safe any_store claimed_world"
    using follows_claims(1) [of any_store sample_store unknown_world "''worker-a''" 10 minute]
    by (simp add: claimed_world_def follows_def)
  moreover have "claimed_record \<in> set (execution_requests (w_db claimed_world))"
    using ev(3) by (simp add: claimed_record_def)
  ultimately obtain er' where "er' \<in> set (execution_requests (w_db (rc_world (snd (reconcileOne sample_worker [] claimed_record ?st)))))"
      "er_execution_id er' = er_execution_id claimed_record" "er_state er' = StateUnknown"
      "\<And>now. unknown_claimable now er' \<longleftrightarrow> w_now claimed_world + 30000 \<le> now"
    using retries_back_off [of ?st sample_worker claimed_record "[]"] ev by (auto simp: world)
  then show ?thesis
    using ev(6,9) by (auto simp: list_ex_iff intro!: bexI [of _ er'])
qed

text \<open>
  A recovered pre-dispatch record is reported as a lost claim: the deferred release uses the version from
  before the recovery.
\<close>

lemma recovery_reports_a_lost_claim:
  "let st = snd (RunCycle sample_worker [] (sample_rstate (prepared_world\<lparr>w_now := 1000000000\<rparr>))) in
   map er_state (execution_requests (w_db (rc_world st))) = [StatePrepared]
   \<and> ev_event_type (last (effect_events (w_db (rc_world st)))) = EventClaimLost"
  by code_simp

end
