(* ===== verification/ReconcileHealth.thy ===== *)
theory ReconcileHealth
  imports ReconcileRuns
begin

text \<open>
  The readiness verdict of the reconciliation supervisor, against the history of its cycles.
\<close>

section \<open>Runs of the supervisor\<close>

text \<open>A tick of the loop: when its cycle started and ended, when health was evaluated, and the signing time.\<close>

record cycle_tick =
  ct_started :: int
  ct_completed :: int
  ct_now :: int
  ct_issuedAt :: string

text \<open>What happened in a cycle: when it ended, and whether it failed.\<close>

record outcome =
  oc_completed :: int
  oc_failed :: bool

fun supervisor_run :: "cycle_tick list \<Rightarrow> supervisor \<times> rstate \<Rightarrow> outcome list \<times> supervisor \<times> rstate" where
  "supervisor_run [] sst = ([], sst)"
| "supervisor_run (tk # tks) sst =
    (let failed = (fst (RunCycle (sv_worker (fst sst)) (ct_issuedAt tk) (snd sst)) \<noteq> None);
         r = supervisor_run tks (snd (supervisor_runCycle (ct_started tk) (ct_completed tk) (ct_now tk) (ct_issuedAt tk) sst)) in
     (\<lparr> oc_completed = ct_completed tk, oc_failed = failed \<rparr> # fst r, snd r))"

definition trailing_failures :: "outcome list \<Rightarrow> int" where
  "trailing_failures h = int (length (takeWhile oc_failed (rev h)))"

definition last_success :: "outcome list \<Rightarrow> int option" where
  "last_success h = (case filter (\<lambda>o'. \<not> oc_failed o') (rev h) of [] \<Rightarrow> None | o' # _ \<Rightarrow> Some (oc_completed o'))"

text \<open>The supervisor's bookkeeping is a summary of its history.\<close>

definition summarises :: "supervisor \<Rightarrow> supervisor \<Rightarrow> outcome list \<Rightarrow> bool" where
  "summarises s0 s h \<longleftrightarrow>
    sv_worker s = sv_worker s0 \<and> sv_hasStore s = sv_hasStore s0 \<and> sv_config s = sv_config s0
    \<and> sv_running s = sv_running s0 \<and> sv_stopped s = sv_stopped s0
    \<and> sv_consecutiveFailures s = trailing_failures h \<and> sv_lastSuccess s = last_success h
    \<and> (sv_lastCycleStarted s = None \<longleftrightarrow> h = [])"

lemma trailing_snoc: "trailing_failures (h @ [o']) = (if oc_failed o' then trailing_failures h + 1 else 0)"
  by (simp add: trailing_failures_def)

lemma last_success_snoc: "last_success (h @ [o']) = (if oc_failed o' then last_success h else Some (oc_completed o'))"
  by (simp add: last_success_def)

lemma summarises_cycle:
  assumes "summarises s0 (fst sst) h"
  shows "summarises s0 (fst (snd (supervisor_runCycle a b now t sst)))
    (h @ [\<lparr> oc_completed = b, oc_failed = (fst (RunCycle (sv_worker (fst sst)) t (snd sst)) \<noteq> None) \<rparr>])"
  using assms
  by (auto simp: summarises_def supervisor_runCycle_def Let_def trailing_snoc last_success_snoc
      split: prod.splits option.splits)

lemma summarises_run:
  assumes "summarises s0 (fst sst) h" "supervisor_run tks sst = (h', s, st)"
  shows "summarises s0 s (h @ h')"
  using assms
proof (induction tks arbitrary: sst h h')
  case (Cons tk tks)
  let ?next = "snd (supervisor_runCycle (ct_started tk) (ct_completed tk) (ct_now tk) (ct_issuedAt tk) sst)"
  obtain h1 where run: "supervisor_run tks ?next = (h1, s, st)"
    and h': "h' = \<lparr> oc_completed = ct_completed tk,
      oc_failed = (fst (RunCycle (sv_worker (fst sst)) (ct_issuedAt tk) (snd sst)) \<noteq> None) \<rparr> # h1"
    using Cons.prems(2) by (auto simp: Let_def prod_eq_iff)
  show ?case
    using Cons.IH [OF summarises_cycle [OF Cons.prems(1)] run] h' by simp
qed simp

lemma run_length: "length (fst (supervisor_run tks sst)) = length tks"
  by (induction tks arbitrary: sst) (simp_all add: Let_def)

section \<open>The verdict\<close>

definition too_old :: "int \<Rightarrow> int \<Rightarrow> int option \<Rightarrow> bool" where
  "too_old now limit t = (case t of None \<Rightarrow> False | Some t \<Rightarrow> time_sub now t > limit)"

definition backlog_trouble :: "int \<Rightarrow> supervisor_config \<Rightarrow> store_error + nat \<times> int option \<Rightarrow> bool" where
  "backlog_trouble now c b =
    (case b of
       Inl e \<Rightarrow> True
     | Inr (n, oldest) \<Rightarrow> 0 < sc_MaxUnknownAge c \<and> too_old now (sc_MaxUnknownAge c) (map_option (\<lambda>t. t * 1000000) oldest))"

text \<open>What the documented policy says about a running supervisor, its history of cycles and the backlog.\<close>

definition verdict :: "int \<Rightarrow> supervisor_config \<Rightarrow> outcome list \<Rightarrow> store_error + nat \<times> int option \<Rightarrow> health_state" where
  "verdict now c h backlog =
    (if too_old now (sc_NotReadyAfterCycleAge c) (last_success h)
        \<or> 0 < sc_MaxConsecutiveFailures c \<and> sc_MaxConsecutiveFailures c \<le> trailing_failures h then HealthNotReady
     else if too_old now (sc_DegradedAfterCycleAge c) (last_success h) \<or> backlog_trouble now c backlog then HealthDegraded
     else HealthReady)"

lemma Health_state:
  "hl_State (fst (Health now s st)) =
    (if lifecycle_reasons s \<noteq> [] then HealthNotReady
     else if too_old now (sc_NotReadyAfterCycleAge (sv_config s)) (sv_lastSuccess s)
        \<or> 0 < sc_MaxConsecutiveFailures (sv_config s) \<and> sc_MaxConsecutiveFailures (sv_config s) \<le> sv_consecutiveFailures s
     then HealthNotReady
     else if too_old now (sc_DegradedAfterCycleAge (sv_config s)) (sv_lastSuccess s)
        \<or> backlog_trouble now (sv_config s) (if sv_hasStore s then fst (in_store ReconciliationBacklog st) else Inr (0, None))
     then HealthDegraded else HealthReady)"
  by (auto simp: Health_def Let_def stale_not_ready_def stale_degraded_def cycle_age_def failure_reasons_def too_old_def
      backlog_trouble_def split: option.splits sum.splits)


text \<open>A worker whose store belongs to an older cluster epoch: every cycle fails, the backlog stays readable.\<close>

definition stale_worker :: worker where
  "stale_worker = NewWorker 0 (\<lambda>e. []) (\<lambda>e. []) (sample_store\<lparr>st_epoch := st_epoch sample_store + 1\<rparr>) None ''1''"

definition sample_policy :: "int \<Rightarrow> supervisor_config" where
  "sample_policy failures =
    \<lparr> sc_Interval = 0, sc_DegradedAfterCycleAge = 0, sc_NotReadyAfterCycleAge = 0,
      sc_MaxConsecutiveFailures = failures, sc_MaxUnknownAge = 0 \<rparr>"

definition sample_ticks :: "cycle_tick list" where
  "sample_ticks = map (\<lambda>t. \<lparr> ct_started = t, ct_completed = t + 1, ct_now = t + 2, ct_issuedAt = [] \<rparr>) [10, 20]"

definition stale_run :: "int \<Rightarrow> outcome list \<times> supervisor \<times> rstate" where
  "stale_run failures =
    supervisor_run sample_ticks (supervisor_start (NewSupervisor stale_worker True (sample_policy failures)), sample_rstate prepared_world)"


text \<open>
  A supervisor none of whose cycles ever succeeded reports \<open>READY\<close> however much time has passed: without
  a success there is no age to compare with the limits.
\<close>

lemma ready_without_any_success:
  "last_success (fst (stale_run 0)) = None
    \<and> hl_State (fst (Health (10 ^ 18) (fst (snd (stale_run 0))) (snd (snd (stale_run 0))))) = HealthReady"
  by code_simp

end
