(* ===== verification/Spec2Isabelle.thy ===== *)
theory Spec2Isabelle
  imports StoreAttestation RegistryPolicy DispatchProgress ReconcileCycle ReconcileHealth
begin

text \<open>
  A verification development for the durable effect store of crabedence.
\<close>

end
